(* ===== verification/Prelude.thy ===== *)
theory Prelude
  imports Main "HOL-Library.Word" "HOL-Library.AList" "HOL-Library.Sublist"
begin

text \<open>
  The shared layer of the development: names for Go's machine integers, the result and
  state-and-result types that stand for a Go function returning \<open>(T, error)\<close>, and the
  lemmas on them that the component theories use as simp, intro and dest rules.

  A pure fallible function returns \<open>'e + 'a\<close> (\<open>Inl\<close> is the error). A function that also
  reads or writes state returns a value of type \<open>('s, 'e, 'a) io\<close>, a state transformer
  that yields the result together with the next state; on an error the state reached so far
  is kept, as it is in Go when a method returns early.
\<close>

section \<open>Machine integers and identifiers\<close>

type_synonym u8 = "8 word"
type_synonym u16 = "16 word"
type_synonym u32 = "32 word"
type_synonym u64 = "64 word"

type_synonym bytes = "u8 list"

text \<open>\<open>common.Hash\<close> and \<open>[32]byte\<close>; \<open>common.Address\<close>.\<close>

type_synonym hash = "256 word"
type_synonym address = "160 word"

text \<open>
  Instants and durations: nanoseconds on one axis, as integers without bound. A \<open>time.Duration\<close> has 64 bits, about 292 years either way; the durations of this
  program, the doubled delays of its database back-off included, stay far below.
\<close>

type_synonym instant = int
type_synonym duration = int

abbreviation second_ns :: duration where "second_ns \<equiv> 1000000000"
abbreviation minute_ns :: duration where "minute_ns \<equiv> 60 * second_ns"
abbreviation hour_ns :: duration where "hour_ns \<equiv> 60 * minute_ns"

named_theorems result_simps "equations and inversions of the result combinators"
named_theorems io_simps "equations and inversions of the state-and-result combinators"
named_theorems preserves_intros "rules that build an invariant-preservation fact"

section \<open>Results\<close>

definition rbind :: "'e + 'a \<Rightarrow> ('a \<Rightarrow> 'e + 'b) \<Rightarrow> 'e + 'b" where
  "rbind m f = (case m of Inl e \<Rightarrow> Inl e | Inr x \<Rightarrow> f x)"

definition ensure :: "bool \<Rightarrow> 'e \<Rightarrow> 'e + unit" where
  "ensure b e = (if b then Inr () else Inl e)"

definition map_error :: "('e \<Rightarrow> 'f) \<Rightarrow> 'e + 'a \<Rightarrow> 'f + 'a" where
  "map_error g m = (case m of Inl e \<Rightarrow> Inl (g e) | Inr x \<Rightarrow> Inr x)"

definition is_ok :: "'e + 'a \<Rightarrow> bool" where
  "is_ok m = (case m of Inl _ \<Rightarrow> False | Inr _ \<Rightarrow> True)"

lemma rbind_simps [simp]:
  "rbind (Inl e) f = Inl e"
  "rbind (Inr x) f = f x"
  by (simp_all add: rbind_def)

lemma rbind_eq_Inr_iff [result_simps]:
  "rbind m f = Inr y \<longleftrightarrow> (\<exists>x. m = Inr x \<and> f x = Inr y)"
  by (cases m) auto

lemma rbind_eq_Inl_iff [result_simps]:
  "rbind m f = Inl e \<longleftrightarrow> m = Inl e \<or> (\<exists>x. m = Inr x \<and> f x = Inl e)"
  by (cases m) auto

lemma rbind_assoc: "rbind (rbind m f) g = rbind m (\<lambda>x. rbind (f x) g)"
  by (cases m) auto

lemma rbind_cong [fundef_cong]:
  "m = m' \<Longrightarrow> (\<And>x. m' = Inr x \<Longrightarrow> f x = f' x) \<Longrightarrow> rbind m f = rbind m' f'"
  by (cases m') auto

lemma ensure_simps [simp]:
  "ensure True e = Inr ()"
  "ensure False e = Inl e"
  by (simp_all add: ensure_def)

lemma ensure_eq_Inr_iff [simp]: "ensure b e = Inr u \<longleftrightarrow> b"
  by (simp add: ensure_def)

lemma ensure_eq_Inl_iff [simp]: "ensure b e = Inl e' \<longleftrightarrow> \<not> b \<and> e' = e"
  by (auto simp: ensure_def)

lemma map_error_simps [simp]:
  "map_error g (Inl e) = Inl (g e)"
  "map_error g (Inr x) = Inr x"
  by (simp_all add: map_error_def)

lemma map_error_eq_Inr_iff [simp]: "map_error g m = Inr x \<longleftrightarrow> m = Inr x"
  by (cases m) auto

lemma map_error_eq_Inl_iff [result_simps]:
  "map_error g m = Inl e \<longleftrightarrow> (\<exists>d. m = Inl d \<and> e = g d)"
  by (cases m) auto

lemma is_ok_simps [simp]: "is_ok (Inr x)" "\<not> is_ok (Inl e)"
  by (simp_all add: is_ok_def)

lemma is_ok_iff: "is_ok m \<longleftrightarrow> (\<exists>x. m = Inr x)"
  by (cases m) auto

section \<open>State and result\<close>

type_synonym ('s, 'e, 'a) io = "'s \<Rightarrow> ('e + 'a) \<times> 's"

definition io_return :: "'a \<Rightarrow> ('s, 'e, 'a) io" where
  "io_return x = (\<lambda>s. (Inr x, s))"

definition io_lift :: "'e + 'a \<Rightarrow> ('s, 'e, 'a) io" where
  "io_lift r = (\<lambda>s. (r, s))"

definition io_bind :: "('s, 'e, 'a) io \<Rightarrow> ('a \<Rightarrow> ('s, 'e, 'b) io) \<Rightarrow> ('s, 'e, 'b) io" where
  "io_bind m f = (\<lambda>s. case m s of (Inl e, s') \<Rightarrow> (Inl e, s') | (Inr x, s') \<Rightarrow> f x s')"

definition io_map_error :: "('e \<Rightarrow> 'f) \<Rightarrow> ('s, 'e, 'a) io \<Rightarrow> ('s, 'f, 'a) io" where
  "io_map_error g m = (\<lambda>s. case m s of (r, s') \<Rightarrow> (map_error g r, s'))"

definition io_get :: "('s \<Rightarrow> 'a) \<Rightarrow> ('s, 'e, 'a) io" where
  "io_get f = (\<lambda>s. (Inr (f s), s))"

definition io_modify :: "('s \<Rightarrow> 's) \<Rightarrow> ('s, 'e, unit) io" where
  "io_modify f = (\<lambda>s. (Inr (), f s))"

lemma io_return_apply [simp]: "io_return x s = (Inr x, s)"
  by (simp add: io_return_def)

lemma io_lift_apply [simp]: "io_lift r s = (r, s)"
  by (simp add: io_lift_def)

lemma io_get_apply [simp]: "io_get f s = (Inr (f s), s)"
  by (simp add: io_get_def)

lemma io_modify_apply [simp]: "io_modify f s = (Inr (), f s)"
  by (simp add: io_modify_def)

lemma io_map_error_apply: "io_map_error g m s = (map_error g (fst (m s)), snd (m s))"
  by (simp add: io_map_error_def split: prod.splits)

lemma io_map_error_eq_Inr_iff [io_simps]:
  "io_map_error g m s = (Inr x, t) \<longleftrightarrow> m s = (Inr x, t)"
  by (cases "m s") (simp add: io_map_error_def)

lemma io_map_error_eq_Inl_iff [io_simps]:
  "io_map_error g m s = (Inl e, t) \<longleftrightarrow> (\<exists>d. m s = (Inl d, t) \<and> e = g d)"
  by (cases "m s") (auto simp: io_map_error_def map_error_eq_Inl_iff)

lemma io_bind_Inr [io_simps]: "m s = (Inr x, s') \<Longrightarrow> io_bind m f s = f x s'"
  by (simp add: io_bind_def)

lemma io_bind_Inl [io_simps]: "m s = (Inl e, s') \<Longrightarrow> io_bind m f s = (Inl e, s')"
  by (simp add: io_bind_def)

lemma io_bind_lift [simp]: "io_bind (io_lift (Inr x)) f s = f x s"
  "io_bind (io_lift (Inl e)) f s = (Inl e, s)"
  by (simp_all add: io_bind_def)

lemma io_bind_return [simp]: "io_bind (io_return x) f s = f x s"
  by (simp add: io_bind_def)

lemma io_bind_get [simp]: "io_bind (io_get g) f s = f (g s) s"
  by (simp add: io_bind_def)

lemma io_bind_modify [simp]: "io_bind (io_modify g) f s = f () (g s)"
  by (simp add: io_bind_def)

lemma io_bind_eq_Inr_iff [io_simps]:
  "io_bind m f s = (Inr y, t) \<longleftrightarrow> (\<exists>x s'. m s = (Inr x, s') \<and> f x s' = (Inr y, t))"
  by (auto simp: io_bind_def split: prod.splits sum.splits)

lemma io_bind_eq_Inl_iff [io_simps]:
  "io_bind m f s = (Inl e, t) \<longleftrightarrow>
     m s = (Inl e, t) \<or> (\<exists>x s'. m s = (Inr x, s') \<and> f x s' = (Inl e, t))"
  by (auto simp: io_bind_def split: prod.splits sum.splits)

lemma io_bind_cong [fundef_cong]:
  "m = m' \<Longrightarrow> (\<And>x. f x = f' x) \<Longrightarrow> io_bind m f = io_bind m' f'"
  by (simp add: io_bind_def fun_eq_iff split: prod.splits sum.splits)

text \<open>An action keeps a predicate on the state whatever it returns.\<close>

definition preserves :: "('s \<Rightarrow> bool) \<Rightarrow> ('s, 'e, 'a) io \<Rightarrow> bool" where
  "preserves P m \<longleftrightarrow> (\<forall>s. P s \<longrightarrow> P (snd (m s)))"

lemma preservesD: "preserves P m \<Longrightarrow> P s \<Longrightarrow> m s = (r, s') \<Longrightarrow> P s'"
  by (force simp: preserves_def)

lemma preserves_return [preserves_intros, intro, simp]: "preserves P (io_return x)"
  by (simp add: preserves_def)

lemma preserves_lift [preserves_intros, intro, simp]: "preserves P (io_lift r)"
  by (simp add: preserves_def)

lemma preserves_get [preserves_intros, intro, simp]: "preserves P (io_get f)"
  by (simp add: preserves_def)

lemma preserves_map_error [preserves_intros]: "preserves P m \<Longrightarrow> preserves P (io_map_error g m)"
  by (simp add: preserves_def io_map_error_apply)

lemma preserves_bind [preserves_intros]:
  assumes "preserves P m" and "\<And>x. preserves P (f x)"
  shows "preserves P (io_bind m f)"
  unfolding preserves_def
proof (intro allI impI)
  fix s assume "P s"
  with assms show "P (snd (io_bind m f s))"
    by (fastforce simp: preserves_def io_bind_def split: prod.splits sum.splits)
qed

section \<open>Loops over lists with early return\<close>

text \<open>\<open>for _, x := range xs { if err := f(x); err != nil { return err } ... }\<close>\<close>

fun mapM :: "('a \<Rightarrow> 'e + 'b) \<Rightarrow> 'a list \<Rightarrow> 'e + 'b list" where
  "mapM f [] = Inr []"
| "mapM f (x # xs) = rbind (f x) (\<lambda>y. rbind (mapM f xs) (\<lambda>ys. Inr (y # ys)))"

lemma mapM_eq_Inr_iff: "mapM f xs = Inr ys \<longleftrightarrow> list_all2 (\<lambda>x y. f x = Inr y) xs ys"
proof (induction xs arbitrary: ys)
  case Nil
  then show ?case by auto
next
  case (Cons x xs)
  then show ?case by (cases ys) (auto simp: result_simps)
qed

lemma list_all2_in_set2: "list_all2 P xs ys \<Longrightarrow> y \<in> set ys \<Longrightarrow> \<exists>x \<in> set xs. P x y"
  by (induction rule: list_all2_induct) auto

lemma mapM_length: "mapM f xs = Inr ys \<Longrightarrow> length ys = length xs"
  by (simp add: mapM_eq_Inr_iff list_all2_lengthD)

lemma mapM_nth: "mapM f xs = Inr ys \<Longrightarrow> i < length xs \<Longrightarrow> f (xs ! i) = Inr (ys ! i)"
  by (simp add: mapM_eq_Inr_iff list_all2_conv_all_nth)

lemma mapM_eq_InlD: "mapM f xs = Inl e \<Longrightarrow> \<exists>x \<in> set xs. f x = Inl e"
  by (induction xs) (auto simp: result_simps)

section \<open>Fixed-width arithmetic\<close>

text \<open>\<open>math.MaxUint64\<close>.\<close>

definition math_MaxUint64 :: u64 where
  "math_MaxUint64 = 18446744073709551615"

lemma math_MaxUint64_eq [simp]: "math_MaxUint64 = - 1"
  by (simp add: math_MaxUint64_def)

text \<open>The overflow guard \<open>a > MaxUint64 - b\<close> that the Go code writes before \<open>a + b\<close>.\<close>

lemma unat_max_minus: "unat (- 1 - b :: 'a::len word) = 2 ^ LENGTH('a) - 1 - unat b"
proof -
  have "b \<le> (- 1 :: 'a word)" by simp
  then have "unat (- 1 - b) = unat (- 1 :: 'a word) - unat b"
    by (rule unat_sub)
  moreover have "unat (- 1 :: 'a word) = 2 ^ LENGTH('a) - 1"
    by (simp add: unsigned_minus_1_eq_mask mask_eq_exp_minus_1)
  ultimately show ?thesis by simp
qed

lemma add_guard_iff:
  "(a :: 'a::len word) > - 1 - b \<longleftrightarrow> 2 ^ LENGTH('a) \<le> unat a + unat b"
proof -
  have "unat b < 2 ^ LENGTH('a)" and "unat a < 2 ^ LENGTH('a)"
    by (rule unsigned_less)+
  then show ?thesis
    unfolding word_less_nat_alt unat_max_minus by linarith
qed

lemma add_guard_unat:
  "\<not> (a :: 'a::len word) > - 1 - b \<Longrightarrow> unat (a + b) = unat a + unat b"
  by (simp add: add_guard_iff unat_word_ariths)

lemma unat_sub_one: "(a :: 'a::len word) \<noteq> 0 \<Longrightarrow> unat (a - 1) = unat a - 1"
  by (simp add: unat_minus_one)

lemma unat_pos_iff: "0 < unat (a :: 'a::len word) \<longleftrightarrow> a \<noteq> 0"
  by (metis unat_gt_0)

end
