(* ===== verification/Go_Errors.thy ===== *)
theory Go_Errors
  imports Prelude
begin

text \<open>
  Go error values. What the program decides on is the tree of wrapped errors that
  \<open>errors.Is\<close> and \<open>errors.As\<close> walk, so an error is that tree: its leaves are the
  sentinels the packages declare with \<open>errors.New\<close>, the structured error types the code
  inspects, and \<open>Plain\<close> for an error that carries text only. The text of a message is not
  part of the model.
\<close>

section \<open>Sentinels\<close>

datatype sentinel =
    \<comment> \<open>pmwpaymentstatus/db/repo.go\<close>
    ErrRecordNotFound | ErrDatabase | ErrDataSource
    \<comment> \<open>pmwfeeproof/xrp/verifier.go\<close>
  | ErrBatchRangeTooLarge | ErrMissingPayEvent | ErrMissingTransaction | ErrReissueLimitExceeded
    \<comment> \<open>pmwmultisigconfigured/xrp/verifier.go\<close>
  | ErrValidationFailed | ErrInvalidRequest | ErrNetworkMismatch
    \<comment> \<open>pmwmultisigconfigured/xrp/client/client.go\<close>
  | ErrRPCNonSuccess | ErrRPCTransient | ErrFetchAccountInfo | ErrFetchServerInfo
    \<comment> \<open>teeavailabilitycheck/verifier/verifier.go\<close>
  | ErrTEEDataValidation | ErrActionResultNotFound | ErrTEEChallengeMismatch
  | ErrTEEChainIDMismatch | ErrTEEProxySignerMismatch | ErrTEESigningPolicyHash
  | ErrTEEAttestationInvalid | ErrTEEActionResultMismatch | ErrTEEResponseMalformed
  | ErrTEERevocationUnavailable
    \<comment> \<open>teeavailabilitycheck/verifier/url_validation.go\<close>
  | ErrURLValidation
    \<comment> \<open>teeavailabilitycheck/fetcher/fetcher.go\<close>
  | ErrNotFound | ErrHTTPFetch | ErrRedirect | ErrResponseTooLarge
    \<comment> \<open>teeavailabilitycheck/verifier/types/error.go\<close>
  | ErrNetwork | ErrRPC | ErrInvalidInput | ErrContext | ErrUnknown
    \<comment> \<open>the context package and go-ethereum\<close>
  | DeadlineExceeded | Canceled | EthereumNotFound

text \<open>
  Three TEE sentinels are themselves built with \<open>fmt.Errorf("...: %w", ErrTEEDataValidation)\<close>:
  they compare by identity and unwrap to \<open>ErrTEEDataValidation\<close>.
\<close>

fun sentinel_unwrap :: "sentinel \<Rightarrow> sentinel option" where
  "sentinel_unwrap ErrTEEAttestationInvalid = Some ErrTEEDataValidation"
| "sentinel_unwrap ErrTEEActionResultMismatch = Some ErrTEEDataValidation"
| "sentinel_unwrap ErrTEEResponseMalformed = Some ErrTEEDataValidation"
| "sentinel_unwrap _ = None"

section \<open>Error trees\<close>

datatype goerr =
    Sentinel sentinel
  | Plain
  | Wrap "goerr list"                \<comment> \<open>\<open>fmt.Errorf\<close> with \<open>%w\<close> verbs, \<open>errors.Join\<close>\<close>
  | HTTPStatusError int              \<comment> \<open>fetcher.HTTPStatusError: its Code\<close>
  | FetchError string goerr          \<comment> \<open>verifiertypes.FetchError: Op and Err\<close>
  | NetError                         \<comment> \<open>any other implementation of \<open>net.Error\<close>\<close>
  | DNSError bool bool               \<comment> \<open>net.DNSError: IsTemporary, IsTimeout\<close>
  | RpcHTTPError int                 \<comment> \<open>rpc.HTTPError: StatusCode\<close>
  | RpcError int                     \<comment> \<open>rpc.Error: ErrorCode()\<close>

type_synonym 'a result = "goerr + 'a"

text \<open>\<open>errors.Is(err, target)\<close> for a sentinel target.\<close>

fun errors_Is :: "goerr \<Rightarrow> sentinel \<Rightarrow> bool" where
  "errors_Is (Sentinel s) t = (s = t \<or> sentinel_unwrap s = Some t)"
| "errors_Is (Wrap es) t = list_ex (\<lambda>e. errors_Is e t) es"
| "errors_Is (HTTPStatusError c) t = (t = ErrHTTPFetch)"
| "errors_Is (FetchError opr e) t = errors_Is e t"
| "errors_Is Plain t = False"
| "errors_Is NetError t = False"
| "errors_Is (DNSError a b) t = False"
| "errors_Is (RpcHTTPError c) t = False"
| "errors_Is (RpcError c) t = False"

text \<open>
  \<open>errors.As(err, &target)\<close>: the first error of the tree, in pre-order, that the type
  test \<open>p\<close> accepts.
\<close>

fun first_some :: "'a option list \<Rightarrow> 'a option" where
  "first_some [] = None"
| "first_some (Some x # xs) = Some x"
| "first_some (None # xs) = first_some xs"

fun errors_As :: "(goerr \<Rightarrow> 'a option) \<Rightarrow> goerr \<Rightarrow> 'a option" where
  "errors_As p (Wrap es) =
     (case p (Wrap es) of Some v \<Rightarrow> Some v | None \<Rightarrow> first_some (map (errors_As p) es))"
| "errors_As p (FetchError opr e) =
     (case p (FetchError opr e) of Some v \<Rightarrow> Some v | None \<Rightarrow> errors_As p e)"
| "errors_As p e = p e"

fun as_HTTPStatusError :: "goerr \<Rightarrow> int option" where
  "as_HTTPStatusError (HTTPStatusError c) = Some c"
| "as_HTTPStatusError _ = None"

fun as_DNSError :: "goerr \<Rightarrow> (bool \<times> bool) option" where
  "as_DNSError (DNSError tmp tmo) = Some (tmp, tmo)"
| "as_DNSError _ = None"

fun as_NetError :: "goerr \<Rightarrow> unit option" where
  "as_NetError NetError = Some ()"
| "as_NetError (DNSError _ _) = Some ()"
| "as_NetError (Sentinel DeadlineExceeded) = Some ()"
| "as_NetError _ = None"

fun as_RpcHTTPError :: "goerr \<Rightarrow> int option" where
  "as_RpcHTTPError (RpcHTTPError c) = Some c"
| "as_RpcHTTPError _ = None"

fun as_RpcError :: "goerr \<Rightarrow> int option" where
  "as_RpcError (RpcError c) = Some c"
| "as_RpcError _ = None"

section \<open>Errors of other packages\<close>

text \<open>
  An error produced outside this repository never carries one of its sentinels: the only
  sentinels such an error can wrap are those of the context package and of go-ethereum.
\<close>

definition foreign_sentinels :: "sentinel list" where
  "foreign_sentinels = [DeadlineExceeded, Canceled, EthereumNotFound]"

fun foreign_error :: "goerr \<Rightarrow> bool" where
  "foreign_error (Sentinel s) = (s \<in> set foreign_sentinels)"
| "foreign_error (Wrap es) = list_all foreign_error es"
| "foreign_error (HTTPStatusError c) = False"
| "foreign_error (FetchError opr e) = False"
| "foreign_error _ = True"

lemma errors_Is_WrapI: "e \<in> set es \<Longrightarrow> errors_Is e t \<Longrightarrow> errors_Is (Wrap es) t"
  by (auto simp: list_ex_iff)

lemma foreign_error_Is:
  "foreign_error e \<Longrightarrow> errors_Is e t \<Longrightarrow> t \<in> {DeadlineExceeded, Canceled, EthereumNotFound}"
  by (induction e t rule: errors_Is.induct)
     (auto simp: foreign_sentinels_def list_ex_iff list_all_iff)

lemma foreign_error_not_Is:
  assumes "foreign_error e" and "t \<notin> {DeadlineExceeded, Canceled, EthereumNotFound}"
  shows "\<not> errors_Is e t"
  using assms foreign_error_Is by blast

lemma first_some_None: "first_some xs = None \<longleftrightarrow> (\<forall>x \<in> set xs. x = None)"
  by (induction xs rule: first_some.induct) auto

lemma first_some_single [simp]: "first_some [x] = x" "first_some [x, None] = x"
  by (cases x; simp)+

lemma foreign_no_status: "foreign_error e \<Longrightarrow> errors_As as_HTTPStatusError e = None"
  by (induction as_HTTPStatusError e rule: errors_As.induct) (auto simp: first_some_None list_all_iff)

lemma foreign_not_own: "foreign_error e \<Longrightarrow> t \<notin> {DeadlineExceeded, Canceled, EthereumNotFound} \<Longrightarrow> errors_Is e t = False"
  using foreign_error_not_Is by blast

text \<open>The errors of a library call carry none of this repository's sentinels.\<close>

definition foreign_result :: "'a result \<Rightarrow> bool" where
  "foreign_result r = (case r of Inl e \<Rightarrow> foreign_error e | Inr _ \<Rightarrow> True)"

lemma foreign_resultD: "foreign_result r \<Longrightarrow> r = Inl e \<Longrightarrow> foreign_error e"
  by (simp add: foreign_result_def)

lemma foreign_result_Inr [simp]: "foreign_result (Inr x)"
  by (simp add: foreign_result_def)

text \<open>\<open>fmt.Errorf("...: %w", sentinel)\<close> and \<open>fmt.Errorf("...: %w: %w", sentinel, err)\<close>.\<close>

abbreviation tag :: "sentinel \<Rightarrow> goerr" where
  "tag s \<equiv> Wrap [Sentinel s]"

abbreviation wrap1 :: "goerr \<Rightarrow> goerr" where
  "wrap1 e \<equiv> Wrap [e]"

abbreviation tag_with :: "sentinel \<Rightarrow> goerr \<Rightarrow> goerr" where
  "tag_with s e \<equiv> Wrap [Sentinel s, e]"

section \<open>Which sentinels an error can carry\<close>

definition only_tags :: "sentinel list \<Rightarrow> goerr \<Rightarrow> bool" where
  "only_tags S e \<longleftrightarrow> (\<forall>t. errors_Is e t \<longrightarrow> t \<in> set S)"

definition result_tags :: "sentinel list \<Rightarrow> 'a result \<Rightarrow> bool" where
  "result_tags S r \<longleftrightarrow> (\<forall>e. r = Inl e \<longrightarrow> only_tags S e)"

lemma only_tagsD: "only_tags S e \<Longrightarrow> errors_Is e t \<Longrightarrow> t \<in> set S"
  by (simp add: only_tags_def)

lemma only_tags_mono: "only_tags S e \<Longrightarrow> set S \<subseteq> set T \<Longrightarrow> only_tags T e"
  by (auto simp: only_tags_def)

lemma only_tags_Wrap [simp]: "only_tags S (Wrap es) \<longleftrightarrow> (\<forall>e \<in> set es. only_tags S e)"
  by (auto simp: only_tags_def list_ex_iff)

lemma only_tags_Plain [simp]: "only_tags S Plain"
  by (simp add: only_tags_def)

lemma only_tags_Sentinel [simp]:
  "only_tags S (Sentinel s) \<longleftrightarrow>
     s \<in> set S \<and> (case sentinel_unwrap s of None \<Rightarrow> True | Some t \<Rightarrow> t \<in> set S)"
  by (auto simp: only_tags_def split: option.splits)

lemma only_tags_foreign:
  "foreign_error e \<Longrightarrow> set foreign_sentinels \<subseteq> set S \<Longrightarrow> only_tags S e"
  using foreign_error_Is by (fastforce simp: only_tags_def foreign_sentinels_def)

lemma result_tagsD: "result_tags S r \<Longrightarrow> r = Inl e \<Longrightarrow> only_tags S e"
  by (simp add: result_tags_def)

lemma result_tags_simps [simp]:
  "result_tags S (Inr x)" "result_tags S (Inl e) \<longleftrightarrow> only_tags S e"
  by (simp_all add: result_tags_def)

lemma result_tags_bind [intro]:
  "result_tags S m \<Longrightarrow> (\<And>x. m = Inr x \<Longrightarrow> result_tags S (f x)) \<Longrightarrow> result_tags S (rbind m f)"
  by (cases m) auto

lemma result_tags_map_error:
  "(\<And>e. m = Inl e \<Longrightarrow> only_tags S (g e)) \<Longrightarrow> result_tags S (map_error g m)"
  by (cases m) auto

lemma result_tags_ensure: "only_tags S e \<Longrightarrow> result_tags S (ensure b e)"
  by (simp add: ensure_def)

definition io_tags :: "sentinel list \<Rightarrow> ('s, goerr, 'a) io \<Rightarrow> 's \<Rightarrow> bool" where
  "io_tags S m s \<longleftrightarrow> result_tags S (fst (m s))"

lemma io_tags_lift [simp]: "io_tags S (io_lift r) s \<longleftrightarrow> result_tags S r"
  by (simp add: io_tags_def)

lemma io_tags_bind:
  "io_tags S m s \<Longrightarrow> (\<And>x s'. m s = (Inr x, s') \<Longrightarrow> io_tags S (f x) s') \<Longrightarrow> io_tags S (io_bind m f) s"
  by (auto simp: io_tags_def io_bind_def result_tags_def split: prod.splits sum.splits)

end
