(* ===== verification/Go_Strings.thy ===== *)
theory Go_Strings
  imports Go_Errors
begin

text \<open>
  The part of Go's \<open>strings\<close>, \<open>strconv\<close> and \<open>math/big\<close> packages the code uses. A Go
  string is a byte sequence, here a \<open>string\<close> (\<open>char list\<close>). Case mapping and white space
  are those of the ASCII range, the range of every value these functions are applied to
  (hexadecimal text, host names, source names, environment values).
\<close>

section \<open>strings\<close>

definition strings_HasPrefix :: "string \<Rightarrow> string \<Rightarrow> bool" where
  "strings_HasPrefix s p = (take (length p) s = p)"

definition strings_HasSuffix :: "string \<Rightarrow> string \<Rightarrow> bool" where
  "strings_HasSuffix s p = (length p \<le> length s \<and> drop (length s - length p) s = p)"

definition strings_TrimPrefix :: "string \<Rightarrow> string \<Rightarrow> string" where
  "strings_TrimPrefix s p = (if strings_HasPrefix s p then drop (length p) s else s)"

definition strings_TrimSuffix :: "string \<Rightarrow> string \<Rightarrow> string" where
  "strings_TrimSuffix s p =
     (if strings_HasSuffix s p then take (length s - length p) s else s)"

fun strings_Contains :: "string \<Rightarrow> string \<Rightarrow> bool" where
  "strings_Contains [] p = (p = [])"
| "strings_Contains (c # s) p = (strings_HasPrefix (c # s) p \<or> strings_Contains s p)"

definition lower_char :: "char \<Rightarrow> char" where
  "lower_char c =
     (let n = (of_char c :: nat) in if 65 \<le> n \<and> n \<le> 90 then char_of (n + 32) else c)"

definition strings_ToLower :: "string \<Rightarrow> string" where
  "strings_ToLower s = map lower_char s"

definition strings_EqualFold :: "string \<Rightarrow> string \<Rightarrow> bool" where
  "strings_EqualFold s t = (strings_ToLower s = strings_ToLower t)"

definition is_space :: "char \<Rightarrow> bool" where
  "is_space c = (let n = (of_char c :: nat) in n = 32 \<or> (9 \<le> n \<and> n \<le> 13))"

definition strings_TrimSpace :: "string \<Rightarrow> string" where
  "strings_TrimSpace s = rev (dropWhile is_space (rev (dropWhile is_space s)))"

text \<open>\<open>strings.Split(s, sep)\<close> for a separator of one byte.\<close>

fun strings_Split :: "char \<Rightarrow> string \<Rightarrow> string list" where
  "strings_Split sep [] = [[]]"
| "strings_Split sep (c # s) =
     (if c = sep then [] # strings_Split sep s
      else (case strings_Split sep s of [] \<Rightarrow> [[c]] | p # ps \<Rightarrow> (c # p) # ps))"

fun strings_Join :: "string list \<Rightarrow> string \<Rightarrow> string" where
  "strings_Join [] sep = []"
| "strings_Join [p] sep = p"
| "strings_Join (p # q # ps) sep = p @ sep @ strings_Join (q # ps) sep"

lemma HasPrefix_iff: "strings_HasPrefix s p \<longleftrightarrow> prefix p s"
proof
  assume "strings_HasPrefix s p"
  then have "s = p @ drop (length p) s"
    unfolding strings_HasPrefix_def by (metis append_take_drop_id)
  then show "prefix p s" by (metis prefixI)
qed (auto simp: strings_HasPrefix_def prefix_def)

lemma HasPrefix_append [simp]: "strings_HasPrefix (p @ s) p"
  by (simp add: HasPrefix_iff)

lemma Contains_iff: "strings_Contains s p \<longleftrightarrow> (\<exists>a b. s = a @ p @ b)"
proof (induction s)
  case Nil
  then show ?case by auto
next
  case (Cons c s)
  show ?case
  proof
    assume "strings_Contains (c # s) p"
    with Cons.IH consider "prefix p (c # s)" | "\<exists>a b. s = a @ p @ b"
      by (auto simp: HasPrefix_iff)
    then show "\<exists>a b. c # s = a @ p @ b"
    proof cases
      case 1
      then obtain b where "c # s = [] @ p @ b" by (auto simp: prefix_def)
      then show ?thesis by blast
    next
      case 2
      then obtain a b where "c # s = (c # a) @ p @ b" by auto
      then show ?thesis by blast
    qed
  next
    assume "\<exists>a b. c # s = a @ p @ b"
    then obtain a b where ab: "c # s = a @ p @ b" by blast
    show "strings_Contains (c # s) p"
    proof (cases a)
      case Nil
      with ab have "prefix p (c # s)" by (auto simp: prefix_def)
      then show ?thesis unfolding strings_Contains.simps HasPrefix_iff by blast
    next
      case (Cons d a')
      with ab have "s = a' @ p @ b" by simp
      with Cons.IH show ?thesis by auto
    qed
  qed
qed

lemma ToLower_simps [simp]:
  "strings_ToLower [] = []"
  "strings_ToLower (c # s) = lower_char c # strings_ToLower s"
  "strings_ToLower (s @ t) = strings_ToLower s @ strings_ToLower t"
  by (simp_all add: strings_ToLower_def)

lemma length_ToLower [simp]: "length (strings_ToLower s) = length s"
  by (simp add: strings_ToLower_def)

lemma lower_char_idem [simp]: "lower_char (lower_char c) = lower_char c"
proof (cases "65 \<le> (of_char c :: nat) \<and> (of_char c :: nat) \<le> 90")
  case True
  then have "(of_char (char_of ((of_char c :: nat) + 32)) :: nat) = of_char c + 32"
    by simp
  with True show ?thesis by (simp add: lower_char_def Let_def)
qed (auto simp: lower_char_def Let_def)

lemma ToLower_idem [simp]: "strings_ToLower (strings_ToLower s) = strings_ToLower s"
  by (simp add: strings_ToLower_def)

lemma EqualFold_refl [simp]: "strings_EqualFold s s"
  by (simp add: strings_EqualFold_def)

section \<open>Decimal numerals: strconv and math/big\<close>

definition digit_value :: "char \<Rightarrow> nat option" where
  "digit_value c = (let n = (of_char c :: nat) in if 48 \<le> n \<and> n \<le> 57 then Some (n - 48) else None)"

text \<open>The value of a string of decimal digits, read from the left; \<open>None\<close> at any other byte.\<close>

fun decimal_acc :: "nat \<Rightarrow> string \<Rightarrow> nat option" where
  "decimal_acc acc [] = Some acc"
| "decimal_acc acc (c # s) =
     (case digit_value c of None \<Rightarrow> None | Some d \<Rightarrow> decimal_acc (10 * acc + d) s)"

definition decimal_value :: "string \<Rightarrow> nat option" where
  "decimal_value s = (if s = [] then None else decimal_acc 0 s)"

text \<open>
  \<open>strconv.ParseUint(s, 10, bits)\<close>: digits only, no sign, no underscore, in range.
\<close>

definition strconv_ParseUint10 :: "string \<Rightarrow> nat \<Rightarrow> nat result" where
  "strconv_ParseUint10 s bits =
     (case decimal_value s of
        None \<Rightarrow> Inl Plain
      | Some v \<Rightarrow> if v < 2 ^ bits then Inr v else Inl Plain)"

text \<open>\<open>strconv.ParseBool\<close>.\<close>

definition strconv_ParseBool :: "string \<Rightarrow> bool result" where
  "strconv_ParseBool s =
     (if s \<in> set [''1'', ''t'', ''T'', ''TRUE'', ''true'', ''True''] then Inr True
      else if s \<in> set [''0'', ''f'', ''F'', ''FALSE'', ''false'', ''False''] then Inr False
      else Inl Plain)"

text \<open>\<open>new(big.Int).SetString(s, 10)\<close>: an optional sign and at least one digit.\<close>

definition bigint_SetString10 :: "string \<Rightarrow> int option" where
  "bigint_SetString10 s =
     (case s of
        [] \<Rightarrow> None
      | c # cs \<Rightarrow>
          if c = CHR ''-'' then map_option (\<lambda>n. - int n) (decimal_value cs)
          else if c = CHR ''+'' then map_option int (decimal_value cs)
          else map_option int (decimal_value s))"

text \<open>\<open>strconv.FormatUint(n, 10)\<close>.\<close>

definition digit_char :: "nat \<Rightarrow> char" where
  "digit_char d = char_of (48 + d)"

fun decimal_digits :: "nat \<Rightarrow> string" where
  "decimal_digits n =
     (if n < 10 then [digit_char n] else decimal_digits (n div 10) @ [digit_char (n mod 10)])"

declare decimal_digits.simps [simp del]

text \<open>\<open>hex.EncodeToString\<close>.\<close>

definition hex_char :: "nat \<Rightarrow> char" where
  "hex_char d = (if d < 10 then char_of (48 + d) else char_of (87 + d))"

definition hex_EncodeToString :: "bytes \<Rightarrow> string" where
  "hex_EncodeToString bs = concat (map (\<lambda>b. [hex_char (unat b div 16), hex_char (unat b mod 16)]) bs)"

text \<open>\<open>bytes.Trim(b, cutset)\<close> for a cutset of one byte.\<close>

definition bytes_Trim :: "string \<Rightarrow> char \<Rightarrow> string" where
  "bytes_Trim s c = rev (dropWhile ((=) c) (rev (dropWhile ((=) c) s)))"

lemma digit_value_digit_char [simp]: "d < 10 \<Longrightarrow> digit_value (digit_char d) = Some d"
  by (simp add: digit_value_def digit_char_def)

lemma decimal_acc_append:
  "decimal_acc acc (s @ t) = Option.bind (decimal_acc acc s) (\<lambda>a. decimal_acc a t)"
  by (induction acc s rule: decimal_acc.induct) (auto split: option.splits)

lemma decimal_acc_digits: "decimal_acc 0 (decimal_digits n) = Some n"
proof (induction n rule: decimal_digits.induct)
  case (1 n)
  show ?case
  proof (cases "n < 10")
    case True
    then show ?thesis by (simp add: decimal_digits.simps [of n])
  next
    case False
    with "1.IH" show ?thesis
      by (simp add: decimal_digits.simps [of n] decimal_acc_append)
  qed
qed

lemma decimal_digits_nonempty [simp]: "decimal_digits n \<noteq> []"
  by (simp add: decimal_digits.simps [of n])

lemma decimal_value_digits [simp]: "decimal_value (decimal_digits n) = Some n"
  by (simp add: decimal_value_def decimal_acc_digits)

lemma decimal_acc_bound: "decimal_acc acc s = Some v \<Longrightarrow> v < (acc + 1) * 10 ^ length s"
proof (induction acc s arbitrary: v rule: decimal_acc.induct)
  case (2 acc c s)
  then obtain d where d: "digit_value c = Some d" and v: "decimal_acc (10 * acc + d) s = Some v"
    by (auto split: option.splits)
  then have "v < (10 * acc + d + 1) * 10 ^ length s"
    using "2.IH" by blast
  moreover have "d < 10"
    using d by (auto simp: digit_value_def Let_def split: if_splits)
  then have "(10 * acc + d + 1) * 10 ^ length s \<le> (10 * acc + 10) * 10 ^ length s"
    by (intro mult_right_mono) auto
  ultimately have "v < (10 * acc + 10) * 10 ^ length s" by (rule less_le_trans)
  then show ?case by (simp add: algebra_simps)
qed simp

lemma decimal_value_bound: "decimal_value s = Some v \<Longrightarrow> v < 10 ^ length s"
  using decimal_acc_bound [of 0 s v] by (auto simp: decimal_value_def split: if_splits)

lemma length_decimal_digits: "n < 10 ^ k \<Longrightarrow> 0 < k \<Longrightarrow> length (decimal_digits n) \<le> k"
proof (induction n arbitrary: k rule: decimal_digits.induct)
  case (1 n)
  show ?case
  proof (cases "n < 10")
    case True
    with "1.prems" show ?thesis by (simp add: decimal_digits.simps [of n])
  next
    case False
    then obtain j where k: "k = Suc j" and j: "0 < j"
      using "1.prems" by (cases k; cases "k - 1") auto
    with "1.prems" have "n div 10 < 10 ^ j" by (simp add: less_mult_imp_div_less mult.commute)
    with "1.IH" False j have "length (decimal_digits (n div 10)) \<le> j" by blast
    with False k show ?thesis by (simp add: decimal_digits.simps [of n])
  qed
qed

lemma hd_decimal_digits: "digit_value (hd (decimal_digits n)) \<noteq> None"
proof (induction n rule: decimal_digits.induct)
  case (1 n)
  then show ?case by (cases "n < 10") (simp_all add: decimal_digits.simps [of n])
qed

lemma SetString10_digits: "bigint_SetString10 (decimal_digits n) = Some (int n)"
proof -
  obtain c cs where cs: "decimal_digits n = c # cs"
    using decimal_digits_nonempty by (cases "decimal_digits n") blast+
  with hd_decimal_digits [of n] have "digit_value c \<noteq> None" by simp
  then have "c \<noteq> CHR ''-''" and "c \<noteq> CHR ''+''"
    by (auto simp: digit_value_def)
  with cs decimal_value_digits [of n] show ?thesis by (simp add: bigint_SetString10_def)
qed

lemma ParseUint10_range: "strconv_ParseUint10 s bits = Inr v \<Longrightarrow> v < 2 ^ bits"
  by (auto simp: strconv_ParseUint10_def split: option.splits if_splits)

lemma ParseUint10_digits: "v < 2 ^ bits \<Longrightarrow> strconv_ParseUint10 (decimal_digits v) bits = Inr v"
  by (simp add: strconv_ParseUint10_def)

end
