(* ===== verification/Fetcher.thy ===== *)
theory Fetcher
  imports Go_Strings
begin

text \<open>
  \<open>internal/attestation/teeavailabilitycheck/fetcher/fetcher.go\<close> and the error classification of
  \<open>verifier/types/error.go\<close> and \<open>samples.go\<close>: the pinned HTTP fetch with its size cap and redirect
  policy, the retry loop, and the mapping of RPC failures to sample states.

  The HTTP exchange is a parameter over a state \<open>'w\<close> of the outside world; what it can yield
  is the datatype \<open>http_outcome\<close>.
\<close>

section \<open>Pinned fetch\<close>

text \<open>An empty \<open>hr_Host\<close> leaves the host of the URL in the request.\<close>

record http_request =
  hr_URL :: string
  hr_Timeout :: duration
  hr_dialAddr :: string
  hr_Host :: string
  hr_ServerName :: string

text \<open>
  What \<open>client.Do\<close> yields: a transport failure, a redirect answer (which \<open>noRedirects\<close>
  refuses), or a response with its status and body. A body is the bytes it delivers and the
  error it ends with, \<open>None\<close> for a regular end of file.
\<close>

datatype http_outcome =
    TransportError goerr
  | RedirectAnswer
  | Reply int bytes "goerr option"

record 'w http_lib =
  NewRequest :: "string \<Rightarrow> unit result"
  client_Do :: "http_request \<Rightarrow> 'w \<Rightarrow> http_outcome \<times> 'w"

definition maxResponseSize :: nat where "maxResponseSize = 2 * 1024 * 1024"

text \<open>
  \<open>client.Do\<close> returns a \<open>*url.Error\<close>, which implements \<open>net.Error\<close> and unwraps to the cause.
\<close>

definition url_Error :: "goerr \<Rightarrow> goerr" where
  "url_Error cause = Wrap [NetError, cause]"

text \<open>\<open>io.ReadAll(io.LimitReader(body, limit))\<close>: the error of the body, which a reader reports after the bytes it delivers, shows
  only below the limit.\<close>

definition ReadAllLimited :: "nat \<Rightarrow> bytes \<Rightarrow> goerr option \<Rightarrow> bytes result" where
  "ReadAllLimited limit body err =
     (if limit \<le> length body then Inr (take limit body)
      else case err of None \<Rightarrow> Inr body | Some e \<Rightarrow> Inl e)"

definition readResponse :: "int \<Rightarrow> bytes \<Rightarrow> goerr option \<Rightarrow> bytes result" where
  "readResponse code body err =
     (if code = 404 then Inl (Sentinel ErrNotFound)
      else if code \<noteq> 200 then Inl (HTTPStatusError code)
      else rbind (map_error (\<lambda>e. Wrap [e, Sentinel ErrHTTPFetch]) (ReadAllLimited (maxResponseSize + 1) body err))
        (\<lambda>data. if maxResponseSize < length data then Inl (tag ErrResponseTooLarge) else Inr data))"

definition FetchBytesPinned ::
  "'w http_lib \<Rightarrow> string \<Rightarrow> duration \<Rightarrow> string \<Rightarrow> string \<Rightarrow> string \<Rightarrow> ('w, goerr, bytes) io" where
  "FetchBytesPinned hl url fetchTimeout dialAddr hostHeader serverName =
     io_bind (io_lift (map_error wrap1 (NewRequest hl url))) (\<lambda>_ w.
     case client_Do hl \<lparr>hr_URL = url, hr_Timeout = fetchTimeout, hr_dialAddr = dialAddr,
            hr_Host = hostHeader, hr_ServerName = serverName\<rparr> w of
       (TransportError e, w') \<Rightarrow> (Inl (Wrap [url_Error e, Sentinel ErrHTTPFetch]), w')
     | (RedirectAnswer, w') \<Rightarrow> (Inl (Wrap [url_Error (Sentinel ErrRedirect), Sentinel ErrHTTPFetch]), w')
     | (Reply code body err, w') \<Rightarrow> (readResponse code body err, w'))"

text \<open>\<open>FetchJSONPinned\<close>; the decoder for the target type is a parameter.\<close>

definition FetchJSONPinned ::
  "'w http_lib \<Rightarrow> (bytes \<Rightarrow> 'a result) \<Rightarrow> string \<Rightarrow> duration \<Rightarrow> string \<Rightarrow> string \<Rightarrow> string \<Rightarrow> ('w, goerr, 'a) io" where
  "FetchJSONPinned hl unmarshal url fetchTimeout dialAddr hostHeader serverName =
     io_bind (FetchBytesPinned hl url fetchTimeout dialAddr hostHeader serverName) (\<lambda>body.
     io_lift (map_error wrap1 (unmarshal body)))"

section \<open>Retry\<close>

text \<open>
  The operation returns a result and possibly an error, over a state that also holds the
  variables its closure writes; \<open>breakOn\<close> reads that state. The pause between attempts ends
  with \<open>None\<close> when the delay has passed and with the context's error when it is cancelled.
  The number counts the attempts that may follow the next one.
\<close>

type_synonym ('s, 'a) attempt = "'s \<Rightarrow> ('a \<times> goerr option) \<times> 's"

primrec retry_loop ::
  "nat \<Rightarrow> ('s, 'a) attempt \<Rightarrow> (goerr \<Rightarrow> 's \<Rightarrow> bool) option \<Rightarrow> ('s \<Rightarrow> goerr option \<times> 's) \<Rightarrow> ('s, 'a) attempt" where
  "retry_loop 0 operation breakOn pause s = operation s"
| "retry_loop (Suc n) operation breakOn pause s =
     (case operation s of
        ((result, None), s') \<Rightarrow> ((result, None), s')
      | ((result, Some err), s') \<Rightarrow>
          if (case breakOn of None \<Rightarrow> False | Some f \<Rightarrow> f err s') then ((result, Some err), s')
          else (case pause s' of
                  (None, s'') \<Rightarrow> retry_loop n operation breakOn pause s''
                | (Some e, s'') \<Rightarrow> ((result, Some e), s'')))"

definition Retry ::
  "'a \<Rightarrow> int \<Rightarrow> ('s, 'a) attempt \<Rightarrow> (goerr \<Rightarrow> 's \<Rightarrow> bool) option \<Rightarrow> ('s \<Rightarrow> goerr option \<times> 's) \<Rightarrow> ('s, 'a) attempt" where
  "Retry zero maxAttempts operation breakOn pause s =
     (if maxAttempts \<le> 0 then ((zero, Some Plain), s)
      else retry_loop (nat (maxAttempts - 1)) operation breakOn pause s)"

section \<open>Sample states and error classification\<close>

datatype TeeSampleState = TeeSampleValid | TeeSampleInvalid | TeeSampleIndeterminate

fun TeeSampleState_String :: "TeeSampleState \<Rightarrow> string" where
  "TeeSampleState_String TeeSampleValid = ''VALID''"
| "TeeSampleState_String TeeSampleInvalid = ''INVALID''"
| "TeeSampleState_String TeeSampleIndeterminate = ''INDETERMINATE''"

definition TeeSampleState_MarshalJSON :: "TeeSampleState \<Rightarrow> string" where
  "TeeSampleState_MarshalJSON s = [CHR 0x22] @ TeeSampleState_String s @ [CHR 0x22]"

definition ClassifyHTTPStatus :: "int \<Rightarrow> TeeSampleState \<times> sentinel" where
  "ClassifyHTTPStatus code =
     (if code = 400 \<or> code = 404 then (TeeSampleInvalid, ErrInvalidInput)
      else (TeeSampleIndeterminate, ErrNetwork))"

definition MapTransportError :: "goerr \<Rightarrow> (TeeSampleState \<times> sentinel) option" where
  "MapTransportError err =
     (if errors_Is err DeadlineExceeded \<or> errors_Is err Canceled then Some (TeeSampleIndeterminate, ErrContext)
      else case errors_As as_NetError err of
             Some _ \<Rightarrow> Some (TeeSampleIndeterminate, ErrNetwork)
           | None \<Rightarrow> None)"

definition invalidRPCCodes :: "int list" where
  "invalidRPCCodes = [-32600, -32601, -32602, -32700]"

definition MapFetchErrorToState :: "string \<Rightarrow> goerr \<Rightarrow> TeeSampleState \<times> goerr" where
  "MapFetchErrorToState opr err =
     (let wrapErr = (\<lambda>s. FetchError opr (Sentinel s))
      in case MapTransportError err of
           Some (state, classified) \<Rightarrow> (state, wrapErr classified)
         | None \<Rightarrow>
             if errors_Is err EthereumNotFound then (TeeSampleInvalid, wrapErr ErrInvalidInput)
             else case errors_As as_RpcHTTPError err of
                    Some code \<Rightarrow> (case ClassifyHTTPStatus code of (state, classified) \<Rightarrow> (state, wrapErr classified))
                  | None \<Rightarrow>
                      (case errors_As as_RpcError err of
                         Some code \<Rightarrow>
                           if code \<in> set invalidRPCCodes then (TeeSampleInvalid, wrapErr ErrInvalidInput)
                           else (TeeSampleIndeterminate, wrapErr ErrRPC)
                       | None \<Rightarrow> (TeeSampleIndeterminate, wrapErr ErrUnknown)))"

section \<open>Lemmas\<close>

lemma readResponse_ok_iff:
  "readResponse code body err = Inr data \<longleftrightarrow>
     code = 200 \<and> length body \<le> maxResponseSize \<and> err = None \<and> data = body"
  by (cases "maxResponseSize < length body"; cases err)
     (auto simp: readResponse_def ReadAllLimited_def Suc_le_eq split: if_splits)

lemma FetchBytesPinned_InrD:
  assumes "FetchBytesPinned hl url t addr host sni w = (Inr data, w')"
  shows "NewRequest hl url = Inr () \<and> length data \<le> maxResponseSize \<and>
    client_Do hl \<lparr>hr_URL = url, hr_Timeout = t, hr_dialAddr = addr, hr_Host = host, hr_ServerName = sni\<rparr> w =
      (Reply 200 data None, w')"
  using assms unfolding FetchBytesPinned_def
  by (auto simp: io_simps readResponse_ok_iff split: prod.splits http_outcome.splits)

text \<open>The errors of an exchange come from the HTTP client and the connection.\<close>

fun outcome_foreign :: "http_outcome \<Rightarrow> bool" where
  "outcome_foreign (TransportError e) = foreign_error e"
| "outcome_foreign RedirectAnswer = True"
| "outcome_foreign (Reply code body err) = (case err of Some e \<Rightarrow> foreign_error e | None \<Rightarrow> True)"

text \<open>The state before attempt \<open>k + 1\<close>, when the loop gets there.\<close>

primrec before_attempt ::
  "('s, 'a) attempt \<Rightarrow> (goerr \<Rightarrow> 's \<Rightarrow> bool) option \<Rightarrow> ('s \<Rightarrow> goerr option \<times> 's) \<Rightarrow> nat \<Rightarrow> 's \<Rightarrow> 's option" where
  "before_attempt operation breakOn pause 0 s = Some s"
| "before_attempt operation breakOn pause (Suc k) s =
     (case operation s of
        ((result, Some err), s') \<Rightarrow>
          if (case breakOn of None \<Rightarrow> False | Some f \<Rightarrow> f err s') then None
          else (case pause s' of (None, s'') \<Rightarrow> before_attempt operation breakOn pause k s'' | _ \<Rightarrow> None)
      | _ \<Rightarrow> None)"

lemma retry_loop_ok_iff:
  "retry_loop n opn brk pause s = ((r, None), s') \<longleftrightarrow>
     (\<exists>k \<le> n. \<exists>t. before_attempt opn brk pause k s = Some t \<and> opn t = ((r, None), s'))"
proof (induction n arbitrary: s)
  case 0
  then show ?case by auto
next
  case (Suc n)
  have split: "(\<exists>k \<le> Suc n. P k) \<longleftrightarrow> P 0 \<or> (\<exists>k \<le> n. P (Suc k))" for P
    by (metis Suc_le_mono le0 not0_implies_Suc)
  show ?case
    unfolding split
    by (auto simp: Suc split: prod.splits option.splits if_splits)
qed

text \<open>How the loop ends at an attempt that returned \<open>r\<close> and \<open>e\<close>.\<close>

definition attempt_ends ::
  "(goerr \<Rightarrow> 's \<Rightarrow> bool) option \<Rightarrow> ('s \<Rightarrow> goerr option \<times> 's) \<Rightarrow> bool \<Rightarrow> 'a \<Rightarrow> goerr option \<Rightarrow> 's \<Rightarrow>
   ('a \<times> goerr option) \<times> 's \<Rightarrow> bool" where
  "attempt_ends brk pause final r e s' res \<longleftrightarrow>
     (case e of
        None \<Rightarrow> res = ((r, None), s')
      | Some err \<Rightarrow>
          if (\<exists>f. brk = Some f \<and> f err s') \<or> final then res = ((r, Some err), s')
          else \<exists>ce s''. pause s' = (Some ce, s'') \<and> res = ((r, Some ce), s''))"

lemma attempt_ends_simps:
  "attempt_ends brk pause final r None s' res \<longleftrightarrow> res = ((r, None), s')"
  "attempt_ends brk pause final r (Some err) s' res \<longleftrightarrow>
     (if (\<exists>f. brk = Some f \<and> f err s') \<or> final then res = ((r, Some err), s')
      else \<exists>ce s''. pause s' = (Some ce, s'') \<and> res = ((r, Some ce), s''))"
  by (simp_all add: attempt_ends_def)

lemma retry_loop_eq_iff:
  "retry_loop n opn brk pause s = res \<longleftrightarrow>
     (\<exists>k t r e s'. k \<le> n \<and> before_attempt opn brk pause k s = Some t \<and> opn t = ((r, e), s') \<and>
        attempt_ends brk pause (k = n) r e s' res)"
proof (induction n arbitrary: s)
  case 0
  obtain r e s' where o: "opn s = ((r, e), s')" by (metis prod.collapse)
  then show ?case by (auto simp: attempt_ends_def split: option.splits)
next
  case (Suc n)
  have split: "(\<exists>k t r e s'. k \<le> Suc n \<and> P k t r e s') \<longleftrightarrow>
      (\<exists>t r e s'. P 0 t r e s') \<or> (\<exists>k t r e s'. k \<le> n \<and> P (Suc k) t r e s')" for P
    by (metis Suc_le_mono le0 not0_implies_Suc)
  obtain r e s' where o: "opn s = ((r, e), s')" by (metis prod.collapse)
  show ?case
  proof (cases e)
    case None
    then show ?thesis unfolding split by (auto simp: o attempt_ends_simps)
  next
    case (Some err)
    have stop: "(case brk of None \<Rightarrow> False | Some f \<Rightarrow> f err s') \<longleftrightarrow> (\<exists>f. brk = Some f \<and> f err s')" by (cases brk) auto
    obtain p s'' where p: "pause s' = (p, s'')" by fastforce
    show ?thesis
      unfolding split by (cases "\<exists>f. brk = Some f \<and> f err s'"; cases p) (simp_all add: Suc o p Some stop attempt_ends_simps, blast+)
  qed
qed

text \<open>The result of an exchange, and what its error says of it when it is not a complete body within the cap.\<close>

fun exchange_result :: "http_outcome \<Rightarrow> bytes result" where
  "exchange_result (TransportError e) = Inl (Wrap [url_Error e, Sentinel ErrHTTPFetch])"
| "exchange_result RedirectAnswer = Inl (Wrap [url_Error (Sentinel ErrRedirect), Sentinel ErrHTTPFetch])"
| "exchange_result (Reply code body err) = readResponse code body err"

lemma readResponse_cases:
  "readResponse code body err =
     (if code = 404 then Inl (Sentinel ErrNotFound) else if code \<noteq> 200 then Inl (HTTPStatusError code)
      else if 2097152 < length body then Inl (tag ErrResponseTooLarge)
      else case err of None \<Rightarrow> Inr body | Some e \<Rightarrow> Inl (Wrap [e, Sentinel ErrHTTPFetch]))"
  by (cases err) (auto simp: readResponse_def ReadAllLimited_def maxResponseSize_def)

definition fetch_failure :: "http_outcome \<Rightarrow> goerr \<Rightarrow> bool" where
  "fetch_failure out e \<longleftrightarrow>
     (errors_Is e ErrNotFound \<longleftrightarrow> (\<exists>body err. out = Reply 404 body err)) \<and>
     (errors_Is e ErrRedirect \<longleftrightarrow> out = RedirectAnswer) \<and>
     (errors_Is e ErrResponseTooLarge \<longleftrightarrow> (\<exists>body err. out = Reply 200 body err \<and> 2097152 < length body)) \<and>
     (\<forall>code. errors_As as_HTTPStatusError e = Some code \<longleftrightarrow>
        code \<noteq> 200 \<and> code \<noteq> 404 \<and> (\<exists>body err. out = Reply code body err)) \<and>
     (errors_Is e ErrHTTPFetch \<longleftrightarrow> out = RedirectAnswer \<or> (\<exists>err. out = TransportError err) \<or>
        (\<exists>code body err. out = Reply code body err \<and> code \<noteq> 200 \<and> code \<noteq> 404) \<or>
        (\<exists>body err. out = Reply 200 body (Some err) \<and> length body \<le> 2097152)) \<and>
     (\<forall>err. out = TransportError err \<or> (\<exists>body. out = Reply 200 body (Some err) \<and> length body \<le> 2097152) \<longrightarrow>
        errors_As as_DNSError e = errors_As as_DNSError err \<and>
        (\<forall>s \<in> set foreign_sentinels. errors_Is e s \<longleftrightarrow> errors_Is err s))"

lemma fetch_failure_total:
  assumes "outcome_foreign out" and "\<not> (\<exists>body. out = Reply 200 body None \<and> length body \<le> 2097152)"
  shows "\<exists>e. exchange_result out = Inl e \<and> fetch_failure out e"
proof (cases out)
  case (TransportError e)
  with assms(1) show ?thesis
    by (auto simp: fetch_failure_def url_Error_def foreign_not_own foreign_no_status foreign_sentinels_def split: option.splits)
next
  case RedirectAnswer
  then show ?thesis by (auto simp: fetch_failure_def url_Error_def)
next
  case (Reply code body err)
  then consider "code \<noteq> 200" | "code = 200" "2097152 < length body" | e where "code = 200" "length body \<le> 2097152" "err = Some e"
    using assms(2) by (cases err; cases "code = 200"; cases "length body \<le> 2097152") auto
  then show ?thesis
    using Reply assms(1)
    by cases (auto simp: readResponse_cases fetch_failure_def foreign_not_own foreign_no_status foreign_sentinels_def split: option.splits)
qed

section \<open>Properties\<close>

text \<open>
  C21. A pinned fetch never truncates and never follows a redirect. It returns data exactly when the
  one exchange it makes, through the pinned address, is answered with status 200 and a body that
  ends regularly within 2 MiB, and then the data is the whole body. A URL that makes no request fails before the
  exchange. Every other exchange fails with an error of its own class: \<open>ErrNotFound\<close> exactly for a 404, \<open>ErrRedirect\<close>
  exactly for a redirect, \<open>ErrResponseTooLarge\<close> exactly for a longer body, an \<open>HTTPStatusError\<close> with the code exactly for
  any other status, \<open>ErrHTTPFetch\<close> exactly for a redirect, a transport failure, another status or an interrupted body; the
  cause of a transport failure or of an interrupted body stays readable in the error.
\<close>

theorem fetch_exact:
  "(FetchBytesPinned hl url t addr host sni w = (Inr data, w') \<longleftrightarrow>
     NewRequest hl url = Inr () \<and>
     client_Do hl \<lparr>hr_URL = url, hr_Timeout = t, hr_dialAddr = addr, hr_Host = host, hr_ServerName = sni\<rparr> w =
       (Reply 200 data None, w') \<and> length data \<le> 2097152) \<and>
   (NewRequest hl url = Inl cause \<longrightarrow> FetchBytesPinned hl url t addr host sni w = (Inl (wrap1 cause), w)) \<and>
   (NewRequest hl url = Inr () \<and>
    client_Do hl \<lparr>hr_URL = url, hr_Timeout = t, hr_dialAddr = addr, hr_Host = host, hr_ServerName = sni\<rparr> w = (out, wx) \<and>
    outcome_foreign out \<and> \<not> (\<exists>body. out = Reply 200 body None \<and> length body \<le> 2097152) \<longrightarrow>
    (\<exists>e. FetchBytesPinned hl url t addr host sni w = (Inl e, wx) \<and>
       (errors_Is e ErrNotFound \<longleftrightarrow> (\<exists>body err. out = Reply 404 body err)) \<and>
       (errors_Is e ErrRedirect \<longleftrightarrow> out = RedirectAnswer) \<and>
       (errors_Is e ErrResponseTooLarge \<longleftrightarrow> (\<exists>body err. out = Reply 200 body err \<and> 2097152 < length body)) \<and>
       (\<forall>code. errors_As as_HTTPStatusError e = Some code \<longleftrightarrow>
          code \<noteq> 200 \<and> code \<noteq> 404 \<and> (\<exists>body err. out = Reply code body err)) \<and>
       (errors_Is e ErrHTTPFetch \<longleftrightarrow> out = RedirectAnswer \<or> (\<exists>err. out = TransportError err) \<or>
          (\<exists>code body err. out = Reply code body err \<and> code \<noteq> 200 \<and> code \<noteq> 404) \<or>
          (\<exists>body err. out = Reply 200 body (Some err) \<and> length body \<le> 2097152)) \<and>
       (\<forall>err. out = TransportError err \<or> (\<exists>body. out = Reply 200 body (Some err) \<and> length body \<le> 2097152) \<longrightarrow>
          errors_As as_DNSError e = errors_As as_DNSError err \<and>
          (\<forall>s \<in> set foreign_sentinels. errors_Is e s \<longleftrightarrow> errors_Is err s))))"
proof -
  let ?q = "\<lparr>hr_URL = url, hr_Timeout = t, hr_dialAddr = addr, hr_Host = host, hr_ServerName = sni\<rparr>"
  have ok: "FetchBytesPinned hl url t addr host sni w = (Inr data, w') \<longleftrightarrow>
     NewRequest hl url = Inr () \<and> client_Do hl ?q w = (Reply 200 data None, w') \<and> length data \<le> 2097152"
    using FetchBytesPinned_InrD [of hl url t addr host sni w data w']
    by (auto simp: FetchBytesPinned_def io_simps readResponse_ok_iff maxResponseSize_def)
  have "\<exists>e. FetchBytesPinned hl url t addr host sni w = (Inl e, wx) \<and> fetch_failure out e"
    if "NewRequest hl url = Inr ()" "client_Do hl ?q w = (out, wx)" "outcome_foreign out"
      "\<not> (\<exists>body. out = Reply 200 body None \<and> length body \<le> 2097152)"
    using fetch_failure_total [OF that(3,4)] that(1,2)
    by (cases out) (auto simp: FetchBytesPinned_def io_simps exchange_result.simps)
  with ok show ?thesis
    unfolding fetch_failure_def by (simp add: FetchBytesPinned_def io_simps)
qed

text \<open>An empty reply with status 503, and a connection that ended with its deadline.\<close>

theorem fetch_exact_witness:
  "(\<exists>e. FetchBytesPinned \<lparr>NewRequest = (\<lambda>_. Inr ()), client_Do = (\<lambda>_ w. (Reply 503 [] None, Suc w))\<rparr> ''u'' 1 ''a'' ''h'' ''s'' 4 = (Inl e, 5) \<and>
      errors_As as_HTTPStatusError e = Some 503 \<and> \<not> errors_Is e ErrNotFound) \<and>
   (\<exists>e. FetchBytesPinned \<lparr>NewRequest = (\<lambda>_. Inr ()), client_Do = (\<lambda>_ w. (TransportError (Sentinel DeadlineExceeded), Suc w))\<rparr>
        ''u'' 1 ''a'' ''h'' ''s'' 4 = (Inl e, 5) \<and>
      errors_Is e ErrHTTPFetch \<and> errors_Is e DeadlineExceeded \<and> \<not> errors_Is e ErrRedirect)"
  using fetch_exact [where w = 4 and wx = 5 and out = "Reply 503 [] None" and url = "''u''" and t = 1 and addr = "''a''" and host = "''h''" and sni = "''s''" and
      hl = "\<lparr>NewRequest = (\<lambda>_. Inr ()), client_Do = (\<lambda>_ w. (Reply 503 [] None, Suc w))\<rparr>"]
    fetch_exact [where w = 4 and wx = 5 and out = "TransportError (Sentinel DeadlineExceeded)" and url = "''u''" and t = 1 and addr = "''a''" and
      host = "''h''" and sni = "''s''" and
      hl = "\<lparr>NewRequest = (\<lambda>_. Inr ()), client_Do = (\<lambda>_ w. (TransportError (Sentinel DeadlineExceeded), Suc w))\<rparr>"]
  by (fastforce simp: foreign_sentinels_def)

text \<open>
  C22. The retry loop ends with its last attempt. With a limit of at least one there is an attempt within the limit, reached because every
  attempt before it failed with an error that does not break the loop and was followed by a pause that was not cancelled, at which the loop
  ends: it succeeds, or its error breaks the loop, or it is the last one allowed, and then the result, the error and the state are those of that
  attempt; or the pause after it is cancelled, and then the result is that of the attempt and the error is the context's. The loop returns
  nothing else. It returns without an error exactly when some attempt reached within the limit succeeds, with the result of that attempt.
  With a limit of zero or less nothing is attempted and an error is returned.
\<close>

theorem retry_exact:
  "(0 < maxAttempts \<longrightarrow>
     (Retry zero maxAttempts opn brk pause s = res \<longleftrightarrow>
       (\<exists>k t r e s'. int k < maxAttempts \<and> before_attempt opn brk pause k s = Some t \<and> opn t = ((r, e), s') \<and>
          (case e of
             None \<Rightarrow> res = ((r, None), s')
           | Some err \<Rightarrow>
               if (\<exists>f. brk = Some f \<and> f err s') \<or> int k = maxAttempts - 1 then res = ((r, Some err), s')
               else \<exists>ce s''. pause s' = (Some ce, s'') \<and> res = ((r, Some ce), s''))))) \<and>
   (Retry zero maxAttempts opn brk pause s = ((r, None), s') \<longleftrightarrow>
     (\<exists>k t. int k < maxAttempts \<and> before_attempt opn brk pause k s = Some t \<and> opn t = ((r, None), s'))) \<and>
   (maxAttempts \<le> 0 \<longrightarrow> Retry zero maxAttempts opn brk pause s = ((zero, Some Plain), s))"
proof -
  have le: "int k < maxAttempts \<longleftrightarrow> maxAttempts > 0 \<and> k \<le> nat (maxAttempts - 1)" for k
    by linarith
  have "Retry zero maxAttempts opn brk pause s = res \<longleftrightarrow>
      (\<exists>k t r e s'. int k < maxAttempts \<and> before_attempt opn brk pause k s = Some t \<and> opn t = ((r, e), s') \<and>
         attempt_ends brk pause (int k = maxAttempts - 1) r e s' res)" if "0 < maxAttempts"
  proof -
    have "(k = nat (maxAttempts - 1)) = (int k = maxAttempts - 1)" for k using that by linarith
    with that show ?thesis by (simp add: Retry_def retry_loop_eq_iff le)
  qed
  moreover have "Retry zero maxAttempts opn brk pause s = ((r, None), s') \<longleftrightarrow>
     (\<exists>k t. int k < maxAttempts \<and> before_attempt opn brk pause k s = Some t \<and> opn t = ((r, None), s'))"
    by (auto simp: Retry_def retry_loop_ok_iff le)
  ultimately show ?thesis unfolding attempt_ends_def by (simp add: Retry_def)
qed

text \<open>
  An operation that fails twice and then succeeds, counted in the state, with three attempts; the same with two attempts, and with three
  when the pause after the second is cancelled.
\<close>

theorem retry_exact_witness:
  "Retry 0 3 (\<lambda>n. if n < 2 then ((0 :: nat, Some Plain), n + 1) else ((7, None), n)) None (\<lambda>n. (None, n)) (0 :: nat)
     = ((7, None), 2) \<and>
   Retry 5 2 (\<lambda>n. if n < 2 then ((n, Some (RpcError (int n))), n + 1) else ((7, None), n)) None (\<lambda>n. (None, n)) (0 :: nat)
     = ((1, Some (RpcError 1)), 2) \<and>
   Retry 5 3 (\<lambda>n. if n < 2 then ((n, Some (RpcError (int n))), n + 1) else ((7, None), n)) None
       (\<lambda>n. (if n = 2 then Some (Sentinel Canceled) else None, n)) (0 :: nat) = ((1, Some (Sentinel Canceled)), 2) \<and>
   Retry 5 0 (\<lambda>n. ((1 :: nat, None), n)) None (\<lambda>n. (None, n)) (0 :: nat) = ((5, Some Plain), 0)"
proof -
  let ?op = "\<lambda>n. if n < 2 then ((0 :: nat, Some Plain), n + 1) else ((7, None), n :: nat)"
  let ?op2 = "\<lambda>n. if n < 2 then ((n, Some (RpcError (int n))), n + 1) else ((7, None), n :: nat)"
  let ?stop = "\<lambda>n :: nat. (if n = 2 then Some (Sentinel Canceled) else None, n)"
  note last_attempt = retry_exact [THEN conjunct1, THEN mp, THEN iffD2]
  have "before_attempt ?op None (\<lambda>n. (None, n)) 2 0 = Some 2" by (simp add: numeral_2_eq_2)
  then have "Retry 0 3 ?op None (\<lambda>n. (None, n)) 0 = ((7, None), 2)"
    by (intro retry_exact [THEN conjunct2, THEN conjunct1, THEN iffD2] exI [of _ 2]) simp
  moreover have "Retry 5 2 ?op2 None (\<lambda>n. (None, n)) 0 = ((1, Some (RpcError 1)), 2)"
    by (rule last_attempt, simp) (intro exI [of _ 1], simp)
  moreover have "Retry 5 3 ?op2 None ?stop 0 = ((1, Some (Sentinel Canceled)), 2)"
    by (rule last_attempt, simp) (intro exI [of _ 1], simp)
  moreover have "Retry 5 0 (\<lambda>n. ((1 :: nat, None), n)) None (\<lambda>n. (None, n)) (0 :: nat) = ((5, Some Plain), 0)"
    by (rule retry_exact [THEN conjunct2, THEN conjunct2, THEN mp]) simp
  ultimately show ?thesis by (intro conjI)
qed

text \<open>
  C23. Classification of a failed RPC lookup. The state is never valid, and it is invalid exactly
  when the error carries \<open>ErrInvalidInput\<close>: no cancellation, deadline or network error is in it,
  and it is go-ethereum's not-found, an HTTP status 400 or 404, or, in the absence of an HTTP
  status, one of the four JSON-RPC codes for a bad request.
\<close>

theorem fetch_error_state_exact:
  "fst (MapFetchErrorToState opr err) \<noteq> TeeSampleValid \<and>
   (fst (MapFetchErrorToState opr err) = TeeSampleInvalid \<longleftrightarrow>
      errors_Is (snd (MapFetchErrorToState opr err)) ErrInvalidInput) \<and>
   (fst (MapFetchErrorToState opr err) = TeeSampleInvalid \<longleftrightarrow>
      \<not> errors_Is err DeadlineExceeded \<and> \<not> errors_Is err Canceled \<and> errors_As as_NetError err = None \<and>
      (errors_Is err EthereumNotFound \<or>
       errors_As as_RpcHTTPError err \<in> {Some 400, Some 404} \<or>
       errors_As as_RpcHTTPError err = None \<and>
       errors_As as_RpcError err \<in> {Some (-32600), Some (-32601), Some (-32602), Some (-32700)}))"
  by (auto simp: MapFetchErrorToState_def MapTransportError_def ClassifyHTTPStatus_def invalidRPCCodes_def Let_def
      split: option.splits)

end
