(* ===== verification/Url_Validation.thy ===== *)
theory Url_Validation
  imports Go_Strings
begin

text \<open>
  \<open>internal/attestation/teeavailabilitycheck/verifier/url_validation.go\<close>: validation of the URLs the
  verifier is asked to contact, and the choice of the IP address the connection is pinned to.

  The address arithmetic of \<open>net/netip\<close> is modelled on machine words. The URL parser, the
  literal-IP parser and the DNS resolver are parameters, so the results hold whatever they
  answer; the resolver works over a state \<open>'w\<close> of the outside world.
\<close>

section \<open>Addresses\<close>

text \<open>\<open>net.IP\<close> is a byte slice of any length; \<open>netip.Addr\<close> is one of the two families.\<close>

type_synonym net_ip = bytes

datatype netip_addr = V4 "32 word" | V6 "128 word"

fun word_of_bytes :: "bytes \<Rightarrow> 'a::len word" where
  "word_of_bytes bs = fold (\<lambda>b acc. acc * 256 + ucast b) bs 0"

declare word_of_bytes.simps [simp del]

definition AddrFromSlice :: "net_ip \<Rightarrow> netip_addr option" where
  "AddrFromSlice ip =
     (if length ip = 4 then Some (V4 (word_of_bytes ip))
      else if length ip = 16 then Some (V6 (word_of_bytes ip))
      else None)"

fun addr_Unmap :: "netip_addr \<Rightarrow> netip_addr" where
  "addr_Unmap (V4 a) = V4 a"
| "addr_Unmap (V6 a) = (if drop_bit 32 a = 0xffff then V4 (ucast a) else V6 a)"

fun IsLinkLocalUnicast :: "netip_addr \<Rightarrow> bool" where
  "IsLinkLocalUnicast (V4 a) = (drop_bit 16 a = 0xa9fe)"
| "IsLinkLocalUnicast (V6 a) = (drop_bit 118 a = 0x3fa)"

fun IsLinkLocalMulticast :: "netip_addr \<Rightarrow> bool" where
  "IsLinkLocalMulticast (V4 a) = (drop_bit 8 a = 0xe00000)"
| "IsLinkLocalMulticast (V6 a) = (and (drop_bit 112 a) 0xff0f = 0xff02)"

fun IsMulticast :: "netip_addr \<Rightarrow> bool" where
  "IsMulticast (V4 a) = (drop_bit 28 a = 0xe)"
| "IsMulticast (V6 a) = (drop_bit 120 a = 0xff)"

fun IsUnspecified :: "netip_addr \<Rightarrow> bool" where
  "IsUnspecified (V4 a) = (a = 0)"
| "IsUnspecified (V6 a) = (a = 0)"

fun IsLoopback :: "netip_addr \<Rightarrow> bool" where
  "IsLoopback (V4 a) = (drop_bit 24 a = 127)"
| "IsLoopback (V6 a) = (a = 1)"

fun IsPrivate :: "netip_addr \<Rightarrow> bool" where
  "IsPrivate (V4 a) = (drop_bit 24 a = 10 \<or> drop_bit 20 a = 0xac1 \<or> drop_bit 16 a = 0xc0a8)"
| "IsPrivate (V6 a) = (drop_bit 121 a = 0x7e)"

definition IPv6Loopback :: netip_addr where "IPv6Loopback = V6 1"

datatype netip_prefix = Prefix4 "32 word" nat | Prefix6 "128 word" nat

fun prefix_Contains :: "netip_prefix \<Rightarrow> netip_addr \<Rightarrow> bool" where
  "prefix_Contains (Prefix4 p n) (V4 a) = (drop_bit (32 - n) a = drop_bit (32 - n) p)"
| "prefix_Contains (Prefix6 p n) (V6 a) = (drop_bit (128 - n) a = drop_bit (128 - n) p)"
| "prefix_Contains _ _ = False"

definition blockedIPPrefixes :: "netip_prefix list" where
  "blockedIPPrefixes =
     [Prefix4 0 8,
      Prefix4 0x64400000 10,
      Prefix4 0xc6120000 15,
      Prefix6 0x20010db8000000000000000000000000 32,
      Prefix6 0x01000000000000000000000000000000 64,
      Prefix6 0x20020000000000000000000000000000 16,
      Prefix6 0x20010000000000000000000000000000 32,
      Prefix6 0x0064ff9b000000000000000000000000 96,
      Prefix6 0xfd000ec2000000000000000000000254 128,
      Prefix6 0xfec00000000000000000000000000000 10]"

definition ipv4CompatPrefix :: netip_prefix where "ipv4CompatPrefix = Prefix6 0 96"

definition isDangerousIP :: "net_ip \<Rightarrow> bool" where
  "isDangerousIP ip =
     (case AddrFromSlice ip of
        None \<Rightarrow> True
      | Some addr0 \<Rightarrow>
          (let addr = addr_Unmap addr0
           in if IsLinkLocalUnicast addr \<or> IsLinkLocalMulticast addr \<or> IsMulticast addr \<or> IsUnspecified addr
              then True
              else if prefix_Contains ipv4CompatPrefix addr \<and> addr \<noteq> IPv6Loopback then True
              else list_ex (\<lambda>prefix. prefix_Contains prefix addr) blockedIPPrefixes))"

text \<open>The second conversion cannot fail after \<open>isDangerousIP\<close> accepted the slice.\<close>

definition isPrivateOrLocalIP :: "net_ip \<Rightarrow> bool" where
  "isPrivateOrLocalIP ip =
     (if isDangerousIP ip then True
      else case AddrFromSlice ip of
             None \<Rightarrow> False
           | Some addr \<Rightarrow> IsLoopback (addr_Unmap addr) \<or> IsPrivate (addr_Unmap addr))"

section \<open>URLs\<close>

text \<open>
  A parsed URL (\<open>url.URL\<close>, without the fields the code does not read) and its methods
  \<open>Hostname\<close> and \<open>Port\<close>, which split the host at its last colon when only digits follow it
  and drop the brackets of an IPv6 literal (the parser rejects a host that is a lone bracket).
\<close>

record parsed_url =
  url_Scheme :: string
  url_Host :: string
  url_has_User :: bool



definition strip_brackets :: "string \<Rightarrow> string" where
  "strip_brackets h =
     (if strings_HasPrefix h ''['' \<and> strings_HasSuffix h '']'' then butlast (tl h) else h)"

definition splitHostPort :: "string \<Rightarrow> string \<times> string" where
  "splitHostPort hostPort =
     (let port = rev (takeWhile (\<lambda>c. c \<noteq> CHR '':'') (rev hostPort))
      in if CHR '':'' \<in> set hostPort \<and> list_all (\<lambda>c. digit_value c \<noteq> None) port
         then (strip_brackets (take (length hostPort - length port - 1) hostPort), port)
         else (strip_brackets hostPort, ''''))"

definition url_Hostname :: "parsed_url \<Rightarrow> string" where
  "url_Hostname u = fst (splitHostPort (url_Host u))"

definition url_Port :: "parsed_url \<Rightarrow> string" where
  "url_Port u = snd (splitHostPort (url_Host u))"

record 'w net_lib =
  url_Parse :: "string \<Rightarrow> parsed_url result"
  net_ParseIP :: "string \<Rightarrow> net_ip option"
  LookupIPAddr :: "string \<Rightarrow> 'w \<Rightarrow> net_ip list result \<times> 'w"
  IP_String :: "net_ip \<Rightarrow> string"

record ResolvedURL =
  ru_Scheme :: string
  ru_Host :: string
  ru_Hostname :: string
  ru_Port :: string
  ru_IP :: net_ip

definition maxURLLength :: nat where "maxURLLength = 2048"

abbreviation ip_check :: "bool \<Rightarrow> net_ip \<Rightarrow> bool" where
  "ip_check allowPrivateNetworks \<equiv> (if allowPrivateNetworks then isDangerousIP else isPrivateOrLocalIP)"

definition pin_url :: "parsed_url \<Rightarrow> net_ip \<Rightarrow> ResolvedURL" where
  "pin_url u ip = \<lparr>ru_Scheme = url_Scheme u, ru_Host = url_Host u, ru_Hostname = url_Hostname u,
     ru_Port = url_Port u, ru_IP = ip\<rparr>"

definition checkURLHost :: "'w net_lib \<Rightarrow> string \<Rightarrow> bool \<Rightarrow> (parsed_url \<times> string) result" where
  "checkURLHost nl rawURL allowPrivateNetworks =
     (if length rawURL > maxURLLength then Inl (tag ErrURLValidation)
      else rbind (map_error (tag_with ErrURLValidation) (url_Parse nl rawURL)) (\<lambda>u.
      rbind (ensure (url_Scheme u = ''http'' \<or> url_Scheme u = ''https'') (tag ErrURLValidation)) (\<lambda>_.
      rbind (ensure (url_Host u \<noteq> '''') (tag ErrURLValidation)) (\<lambda>_.
      rbind (ensure (\<not> url_has_User u) (tag ErrURLValidation)) (\<lambda>_.
      let host = strings_TrimSuffix (strings_ToLower (url_Hostname u)) ''.''
      in rbind (ensure (host \<noteq> '''') (tag ErrURLValidation)) (\<lambda>_.
         rbind (ensure (allowPrivateNetworks \<or> \<not> (host = ''localhost'' \<or> strings_HasSuffix host ''.localhost''))
                  (tag ErrURLValidation)) (\<lambda>_.
         Inr (u, host))))))))"

definition resolveExternalURL :: "'w net_lib \<Rightarrow> string \<Rightarrow> bool \<Rightarrow> ('w, goerr, ResolvedURL) io" where
  "resolveExternalURL nl rawURL allowPrivateNetworks =
     io_bind (io_lift (checkURLHost nl rawURL allowPrivateNetworks)) (\<lambda>(u, host).
     case net_ParseIP nl host of
       Some ip \<Rightarrow>
         if ip_check allowPrivateNetworks ip then io_lift (Inl (tag ErrURLValidation))
         else io_return (pin_url u ip)
     | None \<Rightarrow>
         io_bind (io_map_error (tag_with ErrURLValidation) (LookupIPAddr nl host)) (\<lambda>resolvedIPs.
         case resolvedIPs of
           [] \<Rightarrow> io_lift (Inl (tag ErrURLValidation))
         | first # _ \<Rightarrow>
             if list_ex (ip_check allowPrivateNetworks) resolvedIPs then io_lift (Inl (tag ErrURLValidation))
             else io_return (pin_url u first)))"

definition JoinHostPort :: "string \<Rightarrow> string \<Rightarrow> string" where
  "JoinHostPort host port =
     (if CHR '':'' \<in> set host then ''['' @ host @ '']:'' @ port else host @ '':'' @ port)"

definition BuildPinnedAddr :: "'w net_lib \<Rightarrow> ResolvedURL \<Rightarrow> string \<times> string \<times> string" where
  "BuildPinnedAddr nl resolved =
     (let port = (if ru_Port resolved = '''' then (if ru_Scheme resolved = ''https'' then ''443'' else ''80'')
                  else ru_Port resolved)
      in (JoinHostPort (IP_String nl (ru_IP resolved)) port, ru_Host resolved, ru_Hostname resolved))"

section \<open>Lemmas\<close>

lemma drop_bit_word_iff: "drop_bit k (a :: 'a::len word) = c \<longleftrightarrow> uint a div 2 ^ k = uint c"
proof -
  have "drop_bit k a = c \<longleftrightarrow> uint (drop_bit k a) = uint c" by (rule word_uint_eq_iff)
  also have "uint (drop_bit k a) = uint a div 2 ^ k"
    by (simp only: unsigned_drop_bit_eq) (simp add: drop_bit_eq_div take_bit_int_eq_self)
  finally show ?thesis .
qed

lemma strict_contains_permissive: "isDangerousIP ip \<Longrightarrow> isPrivateOrLocalIP ip"
  by (simp add: isPrivateOrLocalIP_def)

lemma resolve_InrD:
  assumes "resolveExternalURL nl rawURL allow w = (Inr r, w')"
  shows "\<not> ip_check allow (ru_IP r) \<and>
    (\<exists>u host. checkURLHost nl rawURL allow = Inr (u, host) \<and> r = pin_url u (ru_IP r) \<and>
       (net_ParseIP nl host = Some (ru_IP r) \<or>
        net_ParseIP nl host = None \<and>
        (\<exists>ips. LookupIPAddr nl host w = (Inr (ru_IP r # ips), w') \<and>
           (\<forall>ip \<in> set ips. \<not> ip_check allow ip))))"
proof -
  from assms obtain u host where u: "checkURLHost nl rawURL allow = Inr (u, host)"
    by (auto simp: resolveExternalURL_def io_simps)
  show ?thesis
  proof (cases "net_ParseIP nl host")
    case (Some ip)
    with assms u show ?thesis
      by (auto simp: resolveExternalURL_def io_simps pin_url_def split: if_splits)
  next
    case None
    with assms u obtain xs s where look: "LookupIPAddr nl host w = (Inr xs, s)"
      and rest: "(case xs of [] \<Rightarrow> io_lift (Inl (tag ErrURLValidation))
         | first # _ \<Rightarrow> if list_ex (ip_check allow) xs then io_lift (Inl (tag ErrURLValidation))
             else io_return (pin_url u first)) s = (Inr r, w')"
      unfolding resolveExternalURL_def by (auto simp: io_simps)
    from rest obtain ip ips where xs: "xs = ip # ips" by (cases xs) auto
    from rest have "\<not> list_ex (ip_check allow) xs" "r = pin_url u ip" "s = w'"
      unfolding xs by (auto split: if_splits)
    with None u look show ?thesis
      unfolding xs by (auto simp: pin_url_def list_ex_iff)
  qed
qed

text \<open>The value of a byte slice, and the prefix tests on it.\<close>

lemma uint_byte_cast: "LENGTH('a::len) \<ge> 8 \<Longrightarrow> uint (ucast (b :: u8) :: 'a word) = uint b"
proof -
  assume "LENGTH('a) \<ge> 8"
  then have "(2 :: int) ^ 8 \<le> 2 ^ LENGTH('a)" by (intro power_increasing) simp_all
  moreover have "0 \<le> uint b \<and> uint b < 2 ^ 8" using uint_lt2p [of b] by simp
  ultimately show ?thesis
    by (simp add: unsigned_ucast_eq take_bit_int_eq_self_iff)
qed

fun bval_acc :: "int \<Rightarrow> bytes \<Rightarrow> int" where
  "bval_acc n [] = n"
| "bval_acc n (b # bs) = bval_acc (n * 256 + uint b) bs"

abbreviation bval :: "bytes \<Rightarrow> int" where "bval \<equiv> bval_acc 0"

lemma byte_bounds: "0 \<le> uint (b :: u8)" "uint (b :: u8) < 256"
  using uint_lt2p [of b] by simp_all

lemma bval_acc_shift: "bval_acc n bs = n * 256 ^ length bs + bval bs"
proof (induction bs arbitrary: n)
  case (Cons b bs)
  have "bval_acc n (b # bs) = (n * 256 + uint b) * 256 ^ length bs + bval bs"
    by (simp add: Cons.IH [of "n * 256 + uint b"])
  also have "\<dots> = n * 256 ^ length (b # bs) + (uint b * 256 ^ length bs + bval bs)"
    by (simp add: distrib_right)
  also have "uint b * 256 ^ length bs + bval bs = bval (b # bs)"
    by (simp add: Cons.IH [of "uint b"])
  finally show ?case .
qed simp

lemma bval_append: "bval (xs @ ys) = bval xs * 256 ^ length ys + bval ys"
proof -
  have "bval_acc n (xs @ ys) = bval_acc (bval_acc n xs) ys" for n
    by (induction xs arbitrary: n) simp_all
  then show ?thesis by (simp add: bval_acc_shift [of "bval xs" ys])
qed

lemma bval_bounds: "0 \<le> bval bs \<and> bval bs < 256 ^ length bs"
proof (induction bs rule: rev_induct)
  case (snoc b bs)
  then show ?case using byte_bounds [of b] by (simp add: bval_append)
qed simp

lemma bval_div: "bval (xs @ ys) div 256 ^ length ys = bval xs"
  using bval_bounds [of ys] by (simp add: bval_append)

lemma bval_inject: "length xs = length ys \<Longrightarrow> bval xs = bval ys \<longleftrightarrow> xs = ys"
proof (induction xs ys rule: rev_induct2)
  case (4 x xs y ys)
  then have len: "length xs = length ys" by simp
  have "bval xs = bval ys \<and> uint x = uint y" if "bval (xs @ [x]) = bval (ys @ [y])"
  proof -
    have "bval xs * 256 + uint x = bval ys * 256 + uint y" using that by (simp add: bval_append)
    moreover from this have "bval xs = bval ys"
      using byte_bounds [of x] byte_bounds [of y] by linarith
    ultimately show ?thesis by simp
  qed
  then show ?case using 4 len by (auto simp: bval_append word_uint_eq_iff)
qed auto

lemma uint_word_of_bytes:
  assumes "8 * length bs \<le> LENGTH('a::len)"
  shows "uint (word_of_bytes bs :: 'a word) = bval bs"
  using assms
proof (induction bs rule: rev_induct)
  case (snoc b bs)
  then have "8 \<le> LENGTH('a)" "8 * length bs \<le> LENGTH('a)" by simp_all
  then have IH: "uint (word_of_bytes bs :: 'a word) = bval bs" "uint (ucast b :: 'a word) = uint b"
    using snoc.IH by (simp_all add: uint_byte_cast)
  have "(256 :: int) ^ length (bs @ [b]) \<le> 2 ^ LENGTH('a)"
  proof -
    have "(256 :: int) ^ length (bs @ [b]) = 2 ^ (8 * length (bs @ [b]))"
      by (simp only: power_mult) simp
    also have "\<dots> \<le> 2 ^ LENGTH('a)" using snoc.prems by (intro power_increasing) simp_all
    finally show ?thesis .
  qed
  with bval_bounds [of "bs @ [b]"] have bd: "0 \<le> bval (bs @ [b])" "bval (bs @ [b]) < 2 ^ LENGTH('a)"
    by linarith+
  have "word_of_bytes (bs @ [b]) = (word_of_bytes bs * 256 + ucast b :: 'a word)"
    by (simp add: word_of_bytes.simps)
  also have "\<dots> = of_int (uint (word_of_bytes bs :: 'a word)) * 256 + of_int (uint (ucast b :: 'a word))"
    by simp
  also have "\<dots> = of_int (bval (bs @ [b]))" unfolding IH by (simp add: bval_append)
  finally have "word_of_bytes (bs @ [b]) = (of_int (bval (bs @ [b])) :: 'a word)" .
  then show ?case using bd by (simp add: uint_word_of_int_eq take_bit_int_eq_self)
qed (simp add: word_of_bytes.simps)

text \<open>A prefix test on a slice: the bytes that the prefix covers, then the bits of the last one.\<close>

lemma prefix_bits:
  assumes "8 * length (xs @ ys) \<le> LENGTH('a::len)" and "k = 8 * length ys + j"
  shows "drop_bit k (word_of_bytes (xs @ ys) :: 'a word) = c \<longleftrightarrow> bval xs div 2 ^ j = uint c"
proof -
  have "(2 :: int) ^ k = 256 ^ length ys * 2 ^ j"
    unfolding assms(2) power_add power_mult by simp
  then show ?thesis
    using assms(1) by (simp add: drop_bit_word_iff uint_word_of_bytes zdiv_zmult2_eq bval_div)
qed


definition blocked_v4 :: "u8 \<Rightarrow> u8 \<Rightarrow> bool" where
  "blocked_v4 a b \<longleftrightarrow> a = 0 \<or> a = 100 \<and> 64 \<le> b \<and> b \<le> 127 \<or> a = 169 \<and> b = 254 \<or>
     a = 198 \<and> (b = 18 \<or> b = 19) \<or> 224 \<le> a \<and> a \<le> 239"

definition private_v4 :: "u8 \<Rightarrow> u8 \<Rightarrow> bool" where
  "private_v4 a b \<longleftrightarrow> a = 127 \<or> a = 10 \<or> a = 172 \<and> 16 \<le> b \<and> b \<le> 31 \<or> a = 192 \<and> b = 168"

lemma div_iff_interval: "0 < k \<Longrightarrow> n div k = q \<longleftrightarrow> q * k \<le> n \<and> n < (q + 1) * (k :: int)"
proof -
  assume k: "0 < k"
  have n: "n div k * k + n mod k = n" by (rule div_mult_mod_eq)
  have m: "0 \<le> n mod k" "n mod k < k" using k by simp_all
  show ?thesis
  proof
    assume "n div k = q"
    then show "q * k \<le> n \<and> n < (q + 1) * k" using n m by (simp add: distrib_right)
  next
    assume "q * k \<le> n \<and> n < (q + 1) * k"
    then show "n div k = q"
      by (intro int_div_pos_eq [of _ _ _ "n - k * q"]) (simp_all add: algebra_simps)
  qed
qed

lemma byte_pair:
  fixes x y p q r :: int
  assumes "0 \<le> y" "y < 256" "0 \<le> q" "q < r" "r \<le> 256"
  shows "p * 256 + q \<le> x * 256 + y \<and> x * 256 + y < p * 256 + r \<longleftrightarrow> x = p \<and> q \<le> y \<and> y < r"
proof -
  have "x = p" if "p * 256 + q \<le> x * 256 + y \<and> x * 256 + y < p * 256 + r"
    using that assms by linarith
  then show ?thesis by auto
qed

lemmas uint_pair =
  byte_pair [OF byte_bounds, of 254 255 169]
  byte_pair [OF byte_bounds, of 64 128 100]
  byte_pair [OF byte_bounds, of 18 20 198]
  byte_pair [OF byte_bounds, of 16 32 172]
  byte_pair [OF byte_bounds, of 168 169 192]

lemma v4_prefix:
  fixes c' :: "32 word"
  assumes "xs @ ys = [a, b, c, d]" and "k = 8 * length ys + j"
  shows "drop_bit k (word_of_bytes [a, b, c, d]) = c' \<longleftrightarrow>
    uint c' * 2 ^ j \<le> bval xs \<and> bval xs < (uint c' + 1) * 2 ^ j"
proof -
  have "length xs + length ys = 4" using arg_cong [OF assms(1), of length] by simp
  then show ?thesis
    using prefix_bits [of xs ys k j c'] assms div_iff_interval [of "2 ^ j" "bval xs" "uint c'"] by simp
qed

lemmas v4_bits =
  v4_prefix [of "[a]" "[b, c, d]" a b c d 28 4]
  v4_prefix [of "[a]" "[b, c, d]" a b c d 24 0]
  v4_prefix [of "[a, b]" "[c, d]" a b c d 22 6]
  v4_prefix [of "[a, b]" "[c, d]" a b c d 20 4]
  v4_prefix [of "[a, b]" "[c, d]" a b c d 17 1]
  v4_prefix [of "[a, b]" "[c, d]" a b c d 16 0]
  v4_prefix [of "[a, b, c]" "[d]" a b c d 8 0]
  v4_prefix [of "[a, b, c, d]" "[]" a b c d 0 0] for a b c d

lemma isDangerousIP_disj:
  "AddrFromSlice ip = Some addr0 \<Longrightarrow> addr = addr_Unmap addr0 \<Longrightarrow> isDangerousIP ip \<longleftrightarrow>
     IsLinkLocalUnicast addr \<or> IsLinkLocalMulticast addr \<or> IsMulticast addr \<or> IsUnspecified addr \<or>
     prefix_Contains ipv4CompatPrefix addr \<and> addr \<noteq> IPv6Loopback \<or>
     list_ex (\<lambda>prefix. prefix_Contains prefix addr) blockedIPPrefixes"
  by (simp add: isDangerousIP_def Let_def) blast

lemma dangerous_V4:
  assumes "AddrFromSlice ip = Some addr" and "addr_Unmap addr = V4 (word_of_bytes [a, b, c, d])"
  shows "isDangerousIP ip \<longleftrightarrow> blocked_v4 a b"
proof -
  note bd = byte_bounds [of a] byte_bounds [of b] byte_bounds [of c] byte_bounds [of d]
  have zero: "uint a < 1" if "word_of_bytes [a, b, c, d] = (0 :: 32 word)"
  proof -
    have "16777216 * uint a + 65536 * uint b + uint c * 256 + uint d < 1"
      using that v4_bits(8) [of a b c d 0] by simp
    then show ?thesis using bd by linarith
  qed
  have mc: "224 \<le> uint a \<and> uint a < 240" if "14680064 \<le> 65536 * uint a + uint b * 256 + uint c \<and>
    65536 * uint a + uint b * 256 + uint c < 14680065" using that bd by linarith
  have "isDangerousIP ip \<longleftrightarrow> uint a < 1 \<or> 224 \<le> uint a \<and> uint a < 240 \<or>
     uint a = 169 \<and> 254 \<le> uint b \<and> uint b < 255 \<or> uint a = 100 \<and> 64 \<le> uint b \<and> uint b < 128 \<or>
     uint a = 198 \<and> 18 \<le> uint b \<and> uint b < 20"
    unfolding isDangerousIP_disj [OF assms(1) assms(2) [symmetric]] blockedIPPrefixes_def ipv4CompatPrefix_def
    using zero mc by (simp add: v4_bits uint_pair [simplified]) blast
  also have "\<dots> \<longleftrightarrow> blocked_v4 a b"
    unfolding blocked_v4_def word_uint_eq_iff word_le_def by (simp, insert bd, presburger)
  finally show ?thesis .
qed

lemma dangerous_v4: "isDangerousIP [a, b, c, d] \<longleftrightarrow> blocked_v4 a b"
  by (rule dangerous_V4 [of _ "V4 (word_of_bytes [a, b, c, d])" a b c d]) (simp_all add: AddrFromSlice_def)

lemma private_v4:
  "IsLoopback (V4 (word_of_bytes [a, b, c, d])) \<or> IsPrivate (V4 (word_of_bytes [a, b, c, d])) \<longleftrightarrow>
     private_v4 a b"
    unfolding private_v4_def
      word_uint_eq_iff [of a] word_uint_eq_iff [of b] word_le_def [of _ a] word_le_def [of _ b]
      word_le_def [of a] word_le_def [of b]
  by (simp add: v4_bits uint_pair [simplified]) auto

text \<open>The 16-byte slices.\<close>

definition v4_mapped_prefix :: bytes where
  "v4_mapped_prefix = [0, 0, 0, 0, 0, 0, 0, 0, 0, 0, 255, 255]"

definition blocked_v6 :: "bytes \<Rightarrow> bool" where
  "blocked_v6 ip \<longleftrightarrow> ip ! 0 = 0xff \<or> ip ! 0 = 0xfe \<and> 0x80 \<le> ip ! 1 \<or>
     take 12 ip = replicate 12 0 \<and> ip \<noteq> replicate 15 0 @ [1] \<or>
     take 2 ip = [0x20, 0x02] \<or> take 4 ip = [0x20, 0x01, 0, 0] \<or> take 4 ip = [0x20, 0x01, 0x0d, 0xb8] \<or>
     take 8 ip = [1, 0, 0, 0, 0, 0, 0, 0] \<or> take 12 ip = [0, 0x64, 0xff, 0x9b, 0, 0, 0, 0, 0, 0, 0, 0] \<or>
     ip = [0xfd, 0, 0x0e, 0xc2, 0, 0, 0, 0, 0, 0, 0, 0, 0, 0, 0x02, 0x54]"

definition private_v6 :: "bytes \<Rightarrow> bool" where
  "private_v6 ip \<longleftrightarrow> ip = replicate 15 0 @ [1] \<or> ip ! 0 = 0xfc \<or> ip ! 0 = 0xfd"

lemma take_bits:
  fixes c :: "128 word"
  assumes "length ip = 16" and "n \<le> 16" and "k = 8 * (16 - n) + j"
  shows "drop_bit k (word_of_bytes ip) = c \<longleftrightarrow> bval (take n ip) div 2 ^ j = uint c"
  using prefix_bits [of "take n ip" "drop n ip" k j c] assms by simp

lemma take_bits_eq:
  fixes c :: "128 word"
  assumes "length ip = 16" and "n \<le> 16" and "k = 8 * (16 - n)" and "uint c = bval bs" and "length bs = n"
  shows "drop_bit k (word_of_bytes ip) = c \<longleftrightarrow> take n ip = bs"
  using take_bits [of ip n k 0 c] bval_inject [of "take n ip" bs] assms by simp


lemma take_bits_interval:
  fixes c :: "128 word"
  assumes "length ip = 16" and "n \<le> 16" and "k = 8 * (16 - n) + j"
  shows "drop_bit k (word_of_bytes ip) = c \<longleftrightarrow>
    uint c * 2 ^ j \<le> bval (take n ip) \<and> bval (take n ip) < (uint c + 1) * 2 ^ j"
  using take_bits [OF assms, of c] div_iff_interval [of "2 ^ j" "bval (take n ip)" "uint c"] by simp

lemma word_of_bytes_eq:
  fixes c :: "128 word"
  assumes "length ip = 16" and "uint c = bval bs" and "length bs = 16"
  shows "word_of_bytes ip = c \<longleftrightarrow> ip = bs"
  using take_bits_eq [of ip 16 0 c bs] assms by simp


lemma v6_bits:
  assumes "length ip = 16"
  shows "drop_bit 120 (word_of_bytes ip :: 128 word) = 0xff \<longleftrightarrow> ip ! 0 = 0xff"
    "drop_bit 121 (word_of_bytes ip :: 128 word) = 0x7e \<longleftrightarrow> ip ! 0 = 0xfc \<or> ip ! 0 = 0xfd"
    "drop_bit 118 (word_of_bytes ip :: 128 word) = 0x3fa \<longleftrightarrow> ip ! 0 = 0xfe \<and> 0x80 \<le> ip ! 1 \<and> ip ! 1 < 0xc0"
    "drop_bit 118 (word_of_bytes ip :: 128 word) = 0x3fb \<longleftrightarrow> ip ! 0 = 0xfe \<and> 0xc0 \<le> ip ! 1"
proof -
  have t: "take 1 ip = [ip ! 0]" "take 2 ip = [ip ! 0, ip ! 1]"
    using assms by (cases ip; cases "tl ip"; simp)+
  note bd = byte_bounds [of "ip ! 0"] byte_bounds [of "ip ! 1"]
  show "drop_bit 120 (word_of_bytes ip :: 128 word) = 0xff \<longleftrightarrow> ip ! 0 = 0xff"
    using take_bits_eq [of ip 1 120 "0xff" "[0xff]"] t assms by simp
  show "drop_bit 121 (word_of_bytes ip :: 128 word) = 0x7e \<longleftrightarrow> ip ! 0 = 0xfc \<or> ip ! 0 = 0xfd"
    using take_bits_interval [of ip 1 121 1 "0x7e"] t assms bd by (auto simp: word_uint_eq_iff)
  show "drop_bit 118 (word_of_bytes ip :: 128 word) = 0x3fa \<longleftrightarrow> ip ! 0 = 0xfe \<and> 0x80 \<le> ip ! 1 \<and> ip ! 1 < 0xc0"
    using take_bits_interval [of ip 2 118 6 "0x3fa"] t assms bd byte_pair [OF bd(3,4), of 128 192 254 "uint (ip ! 0)"]
    by (simp add: word_uint_eq_iff word_le_def word_less_def)
  show "drop_bit 118 (word_of_bytes ip :: 128 word) = 0x3fb \<longleftrightarrow> ip ! 0 = 0xfe \<and> 0xc0 \<le> ip ! 1"
    using take_bits_interval [of ip 2 118 6 "0x3fb"] t assms bd byte_pair [OF bd(3,4), of 192 256 254 "uint (ip ! 0)"]
    by (simp add: word_uint_eq_iff word_le_def word_less_def)
qed

lemma bval_zeros: "bval (replicate n 0) = 0"
  by (induction n) simp_all

lemma v6_prefixes:
  assumes "length ip = 16"
  shows "drop_bit 32 (word_of_bytes ip :: 128 word) = 0xffff \<longleftrightarrow> take 12 ip = v4_mapped_prefix"
    "drop_bit 32 (word_of_bytes ip :: 128 word) = 0 \<longleftrightarrow> take 12 ip = replicate 12 0"
    "drop_bit 32 (word_of_bytes ip :: 128 word) = 0x0064ff9b0000000000000000 \<longleftrightarrow>
       take 12 ip = [0, 0x64, 0xff, 0x9b, 0, 0, 0, 0, 0, 0, 0, 0]"
    "drop_bit 64 (word_of_bytes ip :: 128 word) = 0x0100000000000000 \<longleftrightarrow> take 8 ip = [1, 0, 0, 0, 0, 0, 0, 0]"
    "drop_bit 96 (word_of_bytes ip :: 128 word) = 0x20010000 \<longleftrightarrow> take 4 ip = [0x20, 0x01, 0, 0]"
    "drop_bit 96 (word_of_bytes ip :: 128 word) = 0x20010db8 \<longleftrightarrow> take 4 ip = [0x20, 0x01, 0x0d, 0xb8]"
    "drop_bit 112 (word_of_bytes ip :: 128 word) = 0x2002 \<longleftrightarrow> take 2 ip = [0x20, 0x02]"
    "word_of_bytes ip = (0xfd000ec2000000000000000000000254 :: 128 word) \<longleftrightarrow>
       ip = [0xfd, 0, 0x0e, 0xc2, 0, 0, 0, 0, 0, 0, 0, 0, 0, 0, 0x02, 0x54]"
    "word_of_bytes ip = (1 :: 128 word) \<longleftrightarrow> ip = replicate 15 0 @ [1]"
    "word_of_bytes ip = (0 :: 128 word) \<longleftrightarrow> ip = replicate 16 0"
  using assms unfolding v4_mapped_prefix_def
  by (rule take_bits_eq word_of_bytes_eq; simp add: bval_zeros bval_append)+


lemma unmap_mapped:
  assumes "length ip = 16" and "take 12 ip = v4_mapped_prefix"
  shows "addr_Unmap (V6 (word_of_bytes ip)) = V4 (word_of_bytes (drop 12 ip))"
proof -
  have "bval ip = bval (take 12 ip) * 256 ^ 4 + bval (drop 12 ip)"
    using bval_append [of "take 12 ip" "drop 12 ip"] assms(1) by simp
  also have "bval (take 12 ip) = 0xffff" unfolding assms(2) by (simp add: v4_mapped_prefix_def)
  finally have "bval ip = 0xffff * 2 ^ 32 + bval (drop 12 ip)" by simp
  moreover have "(0xffff * 2 ^ 32 + bval (drop 12 ip)) mod 2 ^ 32 = bval (drop 12 ip)"
    unfolding mod_mult_self3 using bval_bounds [of "drop 12 ip"] assms(1) by simp
  ultimately have "uint (ucast (word_of_bytes ip :: 128 word) :: 32 word) = bval (drop 12 ip)"
    using assms by (simp add: unsigned_ucast_eq uint_word_of_bytes take_bit_eq_mod)
  then have "ucast (word_of_bytes ip :: 128 word) = (word_of_bytes (drop 12 ip) :: 32 word)"
    using assms by (simp add: word_uint_eq_iff uint_word_of_bytes)
  then show ?thesis using assms v6_prefixes(1) by simp
qed

lemma v6_contains:
  assumes "length ip = 16"
  shows "list_ex (\<lambda>prefix. prefix_Contains prefix (V6 (word_of_bytes ip))) blockedIPPrefixes \<longleftrightarrow>
     take 4 ip = [0x20, 0x01, 0x0d, 0xb8] \<or> take 8 ip = [1, 0, 0, 0, 0, 0, 0, 0] \<or>
     take 2 ip = [0x20, 0x02] \<or> take 4 ip = [0x20, 0x01, 0, 0] \<or>
     take 12 ip = [0, 0x64, 0xff, 0x9b, 0, 0, 0, 0, 0, 0, 0, 0] \<or>
     ip = [0xfd, 0, 0x0e, 0xc2, 0, 0, 0, 0, 0, 0, 0, 0, 0, 0, 0x02, 0x54] \<or>
     ip ! 0 = 0xfe \<and> 0xc0 \<le> ip ! 1"
  by (simp add: blockedIPPrefixes_def v6_prefixes [OF assms] v6_bits [OF assms])


lemma unmap_v6:
  "length ip = 16 \<Longrightarrow> take 12 ip \<noteq> v4_mapped_prefix \<Longrightarrow>
     addr_Unmap (V6 (word_of_bytes ip)) = V6 (word_of_bytes ip)"
  using v6_prefixes(1) by simp

lemma slice16: "length ip = 16 \<Longrightarrow> AddrFromSlice ip = Some (V6 (word_of_bytes ip))"
  by (simp add: AddrFromSlice_def)

lemma multicast_v6_scope:
  assumes "length ip = 16" and "IsLinkLocalMulticast (V6 (word_of_bytes ip))"
  shows "ip ! 0 = 0xff"
proof -
  have m: "(255 :: 128 word) = mask 8" by (simp add: mask_eq_exp_minus_1)
  have "drop_bit 8 (drop_bit 112 (word_of_bytes ip :: 128 word)) =
      drop_bit 8 (and (drop_bit 112 (word_of_bytes ip :: 128 word)) 0xff0f)"
    by (rule bit_word_eqI) (auto simp: bit_simps m dest: bit_imp_le_length)
  also have "\<dots> = 0xff" using assms(2) by simp
  finally show ?thesis using v6_bits(1) [OF assms(1)] by (simp add: drop_bit_drop_bit)
qed

lemma dangerous_v6:
  assumes len: "length ip = 16" and "take 12 ip \<noteq> v4_mapped_prefix"
  shows "isDangerousIP ip \<longleftrightarrow> blocked_v6 ip"
proof -
  let ?a = "V6 (word_of_bytes ip)"
  have zero: "take 12 ip = replicate 12 0 \<and> ip \<noteq> replicate 15 0 @ [1]" if "word_of_bytes ip = (0 :: 128 word)"
    using that by (simp add: v6_prefixes(10) [OF len]) (simp add: numeral_eq_Suc)
  have "isDangerousIP ip \<longleftrightarrow> IsLinkLocalUnicast ?a \<or> IsLinkLocalMulticast ?a \<or> IsMulticast ?a \<or>
     IsUnspecified ?a \<or> prefix_Contains ipv4CompatPrefix ?a \<and> ?a \<noteq> IPv6Loopback \<or>
     list_ex (\<lambda>prefix. prefix_Contains prefix ?a) blockedIPPrefixes"
    using isDangerousIP_disj [OF slice16 [OF len] unmap_v6 [OF assms, symmetric]] .
  also have "\<dots> \<longleftrightarrow> blocked_v6 ip"
    unfolding v6_contains [OF len] blocked_v6_def ipv4CompatPrefix_def IPv6Loopback_def
    using zero multicast_v6_scope [OF len] order.trans [of 128 192 "ip ! 1"]
    by (auto simp: v6_prefixes [OF len] v6_bits [OF len] simp del: IsLinkLocalMulticast.simps)
  finally show ?thesis .
qed


section \<open>Properties\<close>

text \<open>
  C6. The address filter is exactly the documented set of ranges, written on the bytes of the
  slice and independently of the \<open>netip\<close> arithmetic: an IPv4 address is judged by its first
  two bytes, in 4-byte form or as the 16-byte IPv4-mapped form alike; any other 16-byte slice by
  its IPv6 prefix; a slice of any other length is refused. Strict mode adds loopback and the
  private ranges.
\<close>

theorem address_filter_exact:
  "(\<forall>a b c d.
      (isDangerousIP [a, b, c, d] \<longleftrightarrow> blocked_v4 a b) \<and>
      (isPrivateOrLocalIP [a, b, c, d] \<longleftrightarrow> blocked_v4 a b \<or> private_v4 a b) \<and>
      (isDangerousIP (v4_mapped_prefix @ [a, b, c, d]) \<longleftrightarrow> blocked_v4 a b) \<and>
      (isPrivateOrLocalIP (v4_mapped_prefix @ [a, b, c, d]) \<longleftrightarrow> blocked_v4 a b \<or> private_v4 a b)) \<and>
   (\<forall>ip. length ip = 16 \<and> take 12 ip \<noteq> v4_mapped_prefix \<longrightarrow>
      (isDangerousIP ip \<longleftrightarrow> blocked_v6 ip) \<and>
      (isPrivateOrLocalIP ip \<longleftrightarrow> blocked_v6 ip \<or> private_v6 ip)) \<and>
   (\<forall>ip. length ip \<noteq> 4 \<and> length ip \<noteq> 16 \<longrightarrow> isDangerousIP ip)"
proof (intro conjI allI impI)
  fix a b c d :: u8
  let ?m = "v4_mapped_prefix @ [a, b, c, d]"
  have len: "length ?m = 16" "take 12 ?m = v4_mapped_prefix" "drop 12 ?m = [a, b, c, d]"
    by (simp_all add: v4_mapped_prefix_def)
  note unm = unmap_mapped [OF len(1,2), unfolded len(3)]
  show "isDangerousIP [a, b, c, d] \<longleftrightarrow> blocked_v4 a b" by (rule dangerous_v4)
  show "isPrivateOrLocalIP [a, b, c, d] \<longleftrightarrow> blocked_v4 a b \<or> private_v4 a b"
    unfolding isPrivateOrLocalIP_def dangerous_v4 private_v4 [of a b c d, symmetric]
    by (simp add: AddrFromSlice_def)
  show d: "isDangerousIP ?m \<longleftrightarrow> blocked_v4 a b"
    by (rule dangerous_V4 [OF slice16 [OF len(1)] unm])
  show "isPrivateOrLocalIP ?m \<longleftrightarrow> blocked_v4 a b \<or> private_v4 a b"
    unfolding isPrivateOrLocalIP_def d private_v4 [of a b c d, symmetric] slice16 [OF len(1)] option.case unm by simp
next
  fix ip :: bytes
  assume "length ip = 16 \<and> take 12 ip \<noteq> v4_mapped_prefix"
  then have len: "length ip = 16" and nm: "take 12 ip \<noteq> v4_mapped_prefix" by simp_all
  show "isDangerousIP ip \<longleftrightarrow> blocked_v6 ip" by (rule dangerous_v6 [OF len nm])
  show "isPrivateOrLocalIP ip \<longleftrightarrow> blocked_v6 ip \<or> private_v6 ip"
    unfolding isPrivateOrLocalIP_def dangerous_v6 [OF len nm] slice16 [OF len] option.case unmap_v6 [OF len nm]
    by (simp add: private_v6_def v6_bits [OF len] v6_prefixes [OF len])
next
  fix ip :: bytes
  assume "length ip \<noteq> 4 \<and> length ip \<noteq> 16"
  then show "isDangerousIP ip" by (simp add: isDangerousIP_def AddrFromSlice_def)
qed

lemma twelve_zeros: "replicate 12 0 = [0, 0, 0, 0, 0, 0, 0, 0, 0, 0, 0, 0 :: u8]"
  by (simp add: numeral_eq_Suc)

text \<open>The cloud metadata address in three spellings, a public address, and a malformed slice.\<close>

theorem address_filter_exact_witness:
  "isDangerousIP [169, 254, 169, 254] \<and>
   isDangerousIP (v4_mapped_prefix @ [169, 254, 169, 254]) \<and>
   isDangerousIP [0, 0, 0, 0, 0, 0, 0, 0, 0, 0, 0, 0, 169, 254, 169, 254] \<and>
   \<not> isPrivateOrLocalIP [8, 8, 8, 8] \<and> isPrivateOrLocalIP [10, 0, 0, 1] \<and> \<not> isDangerousIP [10, 0, 0, 1] \<and>
   isDangerousIP [1, 2, 3]"
  using conjunct1 [OF address_filter_exact, rule_format, of 169 254 169 254]
    conjunct1 [OF address_filter_exact, rule_format, of 8 8 8 8]
    conjunct1 [OF address_filter_exact, rule_format, of 10 0 0 1]
    conjunct1 [OF conjunct2 [OF address_filter_exact], rule_format,
      of "[0, 0, 0, 0, 0, 0, 0, 0, 0, 0, 0, 0, 169, 254, 169, 254]"]
    conjunct2 [OF conjunct2 [OF address_filter_exact], rule_format, of "[1, 2, 3]"]
  by (simp add: blocked_v4_def private_v4_def blocked_v6_def v4_mapped_prefix_def twelve_zeros)

text \<open>
  C7. A URL that validation accepts is at most 2048 bytes, has an http or https scheme, no user
  information and a non-empty host that is not a local name in strict mode, and the address the
  connection is pinned to passed the filter. When the host is a name, that address is the first DNS
  answer and every other answer passed the filter too, so a mixed answer cannot smuggle in a
  blocked one.
\<close>

theorem accepted_url_is_safe:
  assumes "resolveExternalURL nl rawURL allow w = (Inr r, w')"
  shows "length rawURL \<le> 2048 \<and> ru_Scheme r \<in> {''http'', ''https''} \<and> ru_Host r \<noteq> '''' \<and>
    \<not> isDangerousIP (ru_IP r) \<and> (\<not> allow \<longrightarrow> \<not> isPrivateOrLocalIP (ru_IP r)) \<and>
    (\<exists>u host. url_Parse nl rawURL = Inr u \<and> \<not> url_has_User u \<and>
       host = strings_TrimSuffix (strings_ToLower (ru_Hostname r)) ''.'' \<and> host \<noteq> '''' \<and>
       (\<not> allow \<longrightarrow> host \<noteq> ''localhost'' \<and> \<not> strings_HasSuffix host ''.localhost'') \<and>
       (net_ParseIP nl host = Some (ru_IP r) \<or>
        net_ParseIP nl host = None \<and>
        (\<exists>ips. LookupIPAddr nl host w = (Inr (ru_IP r # ips), w') \<and>
           (\<forall>ip \<in> set ips. \<not> isDangerousIP ip \<and> (\<not> allow \<longrightarrow> \<not> isPrivateOrLocalIP ip)))))"
proof -
  from resolve_InrD [OF assms] obtain u host
    where ok: "\<not> ip_check allow (ru_IP r)" and u: "checkURLHost nl rawURL allow = Inr (u, host)"
      and r: "r = pin_url u (ru_IP r)"
      and ip: "net_ParseIP nl host = Some (ru_IP r) \<or> net_ParseIP nl host = None \<and>
        (\<exists>ips. LookupIPAddr nl host w = (Inr (ru_IP r # ips), w') \<and> (\<forall>ip \<in> set ips. \<not> ip_check allow ip))"
    by blast
  have fields: "ru_Scheme r = url_Scheme u" "ru_Host r = url_Host u" "ru_Hostname r = url_Hostname u"
    by (subst r, simp add: pin_url_def)+
  have "length rawURL \<le> 2048 \<and> url_Scheme u \<in> {''http'', ''https''} \<and> url_Host u \<noteq> '''' \<and>
      url_Parse nl rawURL = Inr u \<and> \<not> url_has_User u \<and>
      host = strings_TrimSuffix (strings_ToLower (url_Hostname u)) ''.'' \<and> host \<noteq> '''' \<and>
      (\<not> allow \<longrightarrow> host \<noteq> ''localhost'' \<and> \<not> strings_HasSuffix host ''.localhost'')"
    using u by (auto simp: checkURLHost_def maxURLLength_def Let_def result_simps split: if_splits)
  moreover have "\<not> isDangerousIP x \<and> (\<not> allow \<longrightarrow> \<not> isPrivateOrLocalIP x)" if "\<not> ip_check allow x" for x
    using that strict_contains_permissive by (auto split: if_splits)
  ultimately show ?thesis using ok ip unfolding fields by blast
qed

definition sample_net :: "unit net_lib" where
  "sample_net =
     \<lparr>url_Parse = (\<lambda>s. if s = ''https://tee.example:8443'' then
         Inr \<lparr>url_Scheme = ''https'', url_Host = ''tee.example:8443'', url_has_User = False\<rparr> else Inl Plain),
      net_ParseIP = (\<lambda>_. None),
      LookupIPAddr = (\<lambda>h w. (if h = ''tee.example'' then Inr [[8, 8, 8, 8], [9, 9, 9, 9]] else Inl (DNSError True False), w)),
      IP_String = (\<lambda>ip. concat (map (\<lambda>b. decimal_digits (unat b)) ip))\<rparr>"

lemma sample_resolves:
  "resolveExternalURL sample_net ''https://tee.example:8443'' False () =
     (Inr \<lparr>ru_Scheme = ''https'', ru_Host = ''tee.example:8443'', ru_Hostname = ''tee.example'',
        ru_Port = ''8443'', ru_IP = [8, 8, 8, 8]\<rparr>, ())"
proof -
  have "\<not> isPrivateOrLocalIP [8, 8, 8, 8] \<and> \<not> isPrivateOrLocalIP [9, 9, 9, 9]"
    unfolding isPrivateOrLocalIP_def dangerous_v4 AddrFromSlice_def
    using private_v4 [of 8 8 8 8] private_v4 [of 9 9 9 9]
    by (simp add: blocked_v4_def private_v4_def)
  then show ?thesis
    by (simp add: resolveExternalURL_def checkURLHost_def sample_net_def maxURLLength_def url_Hostname_def
        url_Port_def splitHostPort_def strip_brackets_def strings_HasPrefix_def strings_HasSuffix_def
        strings_TrimSuffix_def lower_char_def digit_value_def io_simps pin_url_def)
qed

theorem accepted_url_is_safe_witness:
  "\<exists>r. resolveExternalURL sample_net ''https://tee.example:8443'' False () = (Inr r, ()) \<and>
     ru_IP r = [8, 8, 8, 8] \<and> ru_Scheme r \<in> {''http'', ''https''} \<and> \<not> isDangerousIP (ru_IP r)"
  using accepted_url_is_safe [OF sample_resolves] sample_resolves by simp

end
