(* ===== verification/X509.thy ===== *)
theory X509
  imports Go_Strings
begin

text \<open>
  The part of \<open>crypto/x509\<close> and \<open>encoding/pem\<close> the code uses. Certificates and revocation
  lists are records of the fields it reads; parsing and signature checking are parameters,
  collected in the record \<open>x509_lib\<close>.
\<close>

record x509_Certificate =
  cert_Raw :: bytes
  cert_RawSubject :: bytes
  cert_NotBefore :: instant
  cert_NotAfter :: instant
  cert_CRLDistributionPoints :: "string list"

text \<open>\<open>NextUpdate\<close> is \<open>None\<close> for Go's zero time.\<close>

record x509_RevocationList =
  rl_Raw :: bytes
  rl_RawIssuer :: bytes
  rl_NextUpdate :: "instant option"

record x509_lib =
  pem_Decode :: "bytes \<Rightarrow> bytes option"
  x509_ParseCertificate :: "bytes \<Rightarrow> x509_Certificate result"
  x509_ParseRevocationList :: "bytes \<Rightarrow> x509_RevocationList result"
  crl_CheckSignatureFrom :: "x509_RevocationList \<Rightarrow> x509_Certificate \<Rightarrow> unit result"
  cert_CheckSignatureFrom :: "x509_Certificate \<Rightarrow> x509_Certificate \<Rightarrow> unit result"

text \<open>\<open>(*x509.Certificate).Equal\<close> compares the raw encodings.\<close>

definition cert_Equal :: "x509_Certificate \<Rightarrow> x509_Certificate \<Rightarrow> bool" where
  "cert_Equal a b = (cert_Raw a = cert_Raw b)"

text \<open>A concrete instance for examples: the encoding is the identity and every signature verifies.\<close>

definition sample_x509 :: x509_lib where
  "sample_x509 =
     \<lparr>pem_Decode = (\<lambda>b. Some b),
      x509_ParseCertificate = (\<lambda>b. Inr \<lparr>cert_Raw = b, cert_RawSubject = b, cert_NotBefore = 0,
        cert_NotAfter = 10 ^ 18, cert_CRLDistributionPoints = []\<rparr>),
      x509_ParseRevocationList = (\<lambda>b. Inr \<lparr>rl_Raw = b, rl_RawIssuer = b, rl_NextUpdate = Some (10 ^ 18)\<rparr>),
      crl_CheckSignatureFrom = (\<lambda>l c. Inr ()),
      cert_CheckSignatureFrom = (\<lambda>a b. Inr ())\<rparr>"

end
