(* ===== verification/Crl_Cache.thy ===== *)
theory Crl_Cache
  imports Fetcher Url_Validation X509
begin

text \<open>
  \<open>internal/attestation/teeavailabilitycheck/verifier/crl_cache.go\<close>: the cache of certificate
  revocation lists, the fetch that fills it, and the validation of the certificate chain that
  precedes every fetch.

  The map of entries is an association list with distinct keys; the order of the list stands for
  the iteration order of the Go map, about which nothing is assumed. The network, the clock and the
  caller's context live in a state \<open>'w\<close> of the outside world. A fetch that several callers
  share (singleflight) is the function \<open>flightFetch\<close>; what each caller does with its result, whoever
  ran it, is \<open>deliverShared\<close>. The two goroutines of \<open>FetchCRLsForToken\<close> run one after the other here.
\<close>

section \<open>State\<close>

definition crlFetchTimeout :: duration where "crlFetchTimeout = 2 * second_ns"
definition crlMaxEntries :: nat where "crlMaxEntries = 100"
definition crlMaxCacheTTL :: duration where "crlMaxCacheTTL = 4 * hour_ns"

record crlEntry =
  ce_crl :: x509_RevocationList
  ce_fetchedAt :: instant

record 'w CRLCache =
  cc_entries :: "(string \<times> crlEntry) list"
  cc_world :: 'w

record 'w crl_env =
  ce_http :: "'w http_lib"
  ce_net :: "'w net_lib"
  ce_clock :: "'w \<Rightarrow> instant \<times> 'w"
  ce_ctx :: "'w \<Rightarrow> goerr option"
  ce_x509 :: x509_lib
  ce_sha256 :: "bytes \<Rightarrow> bytes"

definition NewCRLCache :: "'w \<Rightarrow> 'w CRLCache" where
  "NewCRLCache w = \<lparr>cc_entries = [], cc_world = w\<rparr>"

text \<open>Actions of the outside world, and \<open>time.Now\<close>, over the state of the cache.\<close>

definition on_world :: "('w, 'e, 'a) io \<Rightarrow> ('w CRLCache, 'e, 'a) io" where
  "on_world m = (\<lambda>c. case m (cc_world c) of (r, w) \<Rightarrow> (r, c\<lparr>cc_world := w\<rparr>))"

definition time_Now :: "'w crl_env \<Rightarrow> ('w CRLCache, goerr, instant) io" where
  "time_Now env = on_world (\<lambda>w. case ce_clock env w of (t, w') \<Rightarrow> (Inr t, w'))"

section \<open>Keys, issuers and freshness\<close>

definition crlCacheKey :: "'w crl_env \<Rightarrow> string \<Rightarrow> x509_Certificate \<Rightarrow> string" where
  "crlCacheKey env url issuer = url @ ''|'' @ hex_EncodeToString (ce_sha256 env (cert_Raw issuer))"

definition verifyCRLIssuer :: "'w crl_env \<Rightarrow> x509_RevocationList \<Rightarrow> x509_Certificate \<Rightarrow> unit result" where
  "verifyCRLIssuer env crl issuer =
     (if rl_RawIssuer crl \<noteq> cert_RawSubject issuer then Inl Plain
      else crl_CheckSignatureFrom (ce_x509 env) crl issuer)"

definition stale_at :: "instant \<Rightarrow> crlEntry \<Rightarrow> bool" where
  "stale_at now entry =
     (if now > ce_fetchedAt entry + crlMaxCacheTTL then True
      else case rl_NextUpdate (ce_crl entry) of None \<Rightarrow> True | Some t \<Rightarrow> now > t)"

definition isEntryStale :: "'w crl_env \<Rightarrow> crlEntry \<Rightarrow> ('w CRLCache, goerr, bool) io" where
  "isEntryStale env entry = io_bind (time_Now env) (\<lambda>now. io_return (stale_at now entry))"

definition cachedFresh ::
  "'w crl_env \<Rightarrow> string \<Rightarrow> x509_Certificate \<Rightarrow> ('w CRLCache, goerr, x509_RevocationList option) io" where
  "cachedFresh env key issuer =
     io_bind (io_get cc_entries) (\<lambda>entries.
     case map_of entries key of
       None \<Rightarrow> io_return None
     | Some entry \<Rightarrow>
         io_bind (isEntryStale env entry) (\<lambda>stale.
         if stale then io_return None
         else io_lift (rbind (map_error wrap1 (verifyCRLIssuer env (ce_crl entry) issuer))
                (\<lambda>_. Inr (Some (ce_crl entry))))))"

section \<open>Eviction\<close>

text \<open>The loop of \<open>evictStaleEntries\<close> reads the clock once per entry.\<close>

fun evict_stale_loop ::
  "'w crl_env \<Rightarrow> (string \<times> crlEntry) list \<Rightarrow> ('w CRLCache, goerr, (string \<times> crlEntry) list) io" where
  "evict_stale_loop env [] = io_return []"
| "evict_stale_loop env ((key, entry) # rest) =
     io_bind (isEntryStale env entry) (\<lambda>stale.
     io_bind (evict_stale_loop env rest) (\<lambda>kept.
     io_return (if stale then kept else (key, entry) # kept)))"

definition evictStaleEntries :: "'w crl_env \<Rightarrow> ('w CRLCache, goerr, unit) io" where
  "evictStaleEntries env =
     io_bind (io_get cc_entries) (\<lambda>entries.
     io_bind (evict_stale_loop env entries) (\<lambda>kept.
     io_modify (\<lambda>c. c\<lparr>cc_entries := kept\<rparr>)))"

text \<open>The oldest entry seen so far, as the loop of \<open>evictOldestEntry\<close> keeps it.\<close>

fun oldest_entry :: "(string \<times> instant) option \<Rightarrow> (string \<times> crlEntry) list \<Rightarrow> (string \<times> instant) option" where
  "oldest_entry found [] = found"
| "oldest_entry None ((key, entry) # rest) = oldest_entry (Some (key, ce_fetchedAt entry)) rest"
| "oldest_entry (Some (oldestKey, oldestTime)) ((key, entry) # rest) =
     (if ce_fetchedAt entry < oldestTime then oldest_entry (Some (key, ce_fetchedAt entry)) rest
      else oldest_entry (Some (oldestKey, oldestTime)) rest)"

definition evictOldestEntry :: "'w CRLCache \<Rightarrow> 'w CRLCache" where
  "evictOldestEntry c =
     (case oldest_entry None (cc_entries c) of
        None \<Rightarrow> c
      | Some (key, _) \<Rightarrow> c\<lparr>cc_entries := AList.delete key (cc_entries c)\<rparr>)"

text \<open>The critical section that stores a fetched list; a full cache makes room for a new key first.\<close>

definition makeRoom :: "'w crl_env \<Rightarrow> string \<Rightarrow> ('w CRLCache, goerr, unit) io" where
  "makeRoom env key =
     io_bind (io_get cc_entries) (\<lambda>entries.
     if map_of entries key = None \<and> length entries \<ge> crlMaxEntries
     then io_bind (evictStaleEntries env) (\<lambda>_.
          io_modify (\<lambda>c. if length (cc_entries c) \<ge> crlMaxEntries then evictOldestEntry c else c))
     else io_return ())"

definition storeCRL :: "'w crl_env \<Rightarrow> string \<Rightarrow> x509_RevocationList \<Rightarrow> ('w CRLCache, goerr, unit) io" where
  "storeCRL env key crl =
     io_bind (makeRoom env key) (\<lambda>_.
     io_bind (time_Now env) (\<lambda>now.
     io_modify (\<lambda>c. c\<lparr>cc_entries := AList.update key \<lparr>ce_crl = crl, ce_fetchedAt = now\<rparr> (cc_entries c)\<rparr>)))"

section \<open>Fetching\<close>

definition fetchCRLBytes :: "'w crl_env \<Rightarrow> string \<Rightarrow> duration \<Rightarrow> ('w, goerr, bytes) io" where
  "fetchCRLBytes env url timeout =
     io_bind (io_map_error wrap1 (resolveExternalURL (ce_net env) url False)) (\<lambda>resolved.
     case BuildPinnedAddr (ce_net env) resolved of
       (dialAddr, hostHeader, serverName) \<Rightarrow>
         FetchBytesPinned (ce_http env) url timeout dialAddr hostHeader serverName)"

definition isTransientFetchError :: "goerr \<Rightarrow> bool" where
  "isTransientFetchError err =
     (if errors_Is err ErrRedirect \<or> errors_Is err ErrNotFound \<or> errors_Is err ErrResponseTooLarge then False
      else case errors_As as_HTTPStatusError err of
             Some code \<Rightarrow> code \<ge> 500 \<and> code < 600 \<or> code = 408 \<or> code = 429
           | None \<Rightarrow>
               (case errors_As as_DNSError err of
                  Some (isTemporary, isTimeout) \<Rightarrow> isTemporary \<or> isTimeout
                | None \<Rightarrow> errors_Is err ErrHTTPFetch \<or> errors_Is err DeadlineExceeded \<or> errors_Is err Canceled))"

text \<open>The body of the shared fetch, from the bytes to the list that may be stored.\<close>

definition parseFetchedCRL :: "'w crl_env \<Rightarrow> x509_Certificate \<Rightarrow> bytes \<Rightarrow> x509_RevocationList result" where
  "parseFetchedCRL env issuer data =
     (let der = (case pem_Decode (ce_x509 env) data of Some block \<Rightarrow> block | None \<Rightarrow> data)
      in rbind (map_error wrap1 (x509_ParseRevocationList (ce_x509 env) der)) (\<lambda>crl.
         rbind (map_error wrap1 (verifyCRLIssuer env crl issuer)) (\<lambda>_.
         if rl_NextUpdate crl = None then Inl Plain else Inr crl)))"

definition crlFetchError :: "goerr \<Rightarrow> goerr" where
  "crlFetchError err =
     (if isTransientFetchError err then tag_with ErrTEERevocationUnavailable err else wrap1 err)"

definition flightFetch ::
  "'w crl_env \<Rightarrow> string \<Rightarrow> string \<Rightarrow> x509_Certificate \<Rightarrow> ('w CRLCache, goerr, x509_RevocationList) io" where
  "flightFetch env key url issuer =
     io_bind (cachedFresh env key issuer) (\<lambda>hit.
     case hit of
       Some crl \<Rightarrow> io_return crl
     | None \<Rightarrow>
         io_bind (io_map_error crlFetchError (on_world (fetchCRLBytes env url crlFetchTimeout))) (\<lambda>data.
         io_bind (io_lift (parseFetchedCRL env issuer data)) (\<lambda>crl.
         io_bind (storeCRL env key crl) (\<lambda>_.
         io_return crl))))"

definition deliverShared ::
  "'w crl_env \<Rightarrow> x509_Certificate \<Rightarrow> x509_RevocationList result \<Rightarrow> x509_RevocationList result" where
  "deliverShared env issuer shared =
     rbind shared (\<lambda>crl. rbind (map_error wrap1 (verifyCRLIssuer env crl issuer)) (\<lambda>_. Inr crl))"

text \<open>
  The \<open>select\<close> of \<open>getOrFetchCRL\<close>, then the function. \<open>ce_ctx\<close> says which branch the select takes: when it takes the
  context's, the shared fetch still completes and fills the cache, and the caller gets the context's error. (With both ready Go
  may take either, so a context that has ended may show as \<open>None\<close> here.)
\<close>

definition awaitShared ::
  "'w crl_env \<Rightarrow> string \<Rightarrow> string \<Rightarrow> x509_Certificate \<Rightarrow> ('w CRLCache, goerr, x509_RevocationList) io" where
  "awaitShared env key url issuer = (\<lambda>c.
     case flightFetch env key url issuer c of
       (shared, c') \<Rightarrow>
         (case ce_ctx env (cc_world c) of
            Some err \<Rightarrow> (Inl err, c')
          | None \<Rightarrow> (deliverShared env issuer shared, c')))"

definition getOrFetchCRL ::
  "'w crl_env \<Rightarrow> string \<Rightarrow> x509_Certificate option \<Rightarrow> ('w CRLCache, goerr, x509_RevocationList) io" where
  "getOrFetchCRL env url issuer_opt =
     (case issuer_opt of
        None \<Rightarrow> io_lift (Inl Plain)
      | Some issuer \<Rightarrow>
          (let key = crlCacheKey env url issuer
           in io_bind (cachedFresh env key issuer) (\<lambda>hit.
              case hit of
                Some crl \<Rightarrow> io_return crl
              | None \<Rightarrow> awaitShared env key url issuer)))"

section \<open>Chains and tokens\<close>

text \<open>The loop of \<open>fetchFirstCRL\<close> with the errors collected so far, then the function.\<close>

fun first_crl_loop ::
  "'w crl_env \<Rightarrow> x509_Certificate option \<Rightarrow> goerr list \<Rightarrow> string list \<Rightarrow> ('w CRLCache, goerr, x509_RevocationList) io" where
  "first_crl_loop env issuer errs [] = io_lift (Inl (wrap1 (Wrap errs)))"
| "first_crl_loop env issuer errs (url # urls) =
     (\<lambda>c. case getOrFetchCRL env url issuer c of
        (Inr crl, c') \<Rightarrow> (Inr crl, c')
      | (Inl err, c') \<Rightarrow> first_crl_loop env issuer (errs @ [wrap1 err]) urls c')"

definition fetchFirstCRL ::
  "'w crl_env \<Rightarrow> string list \<Rightarrow> x509_Certificate option \<Rightarrow> ('w CRLCache, goerr, x509_RevocationList option) io" where
  "fetchFirstCRL env distributionPoints issuer =
     (if distributionPoints = [] then io_return None
      else io_bind (first_crl_loop env issuer [] distributionPoints) (\<lambda>crl. io_return (Some crl)))"

definition checkCertValidity :: "x509_Certificate \<Rightarrow> instant \<Rightarrow> unit result" where
  "checkCertValidity cert now =
     (if now < cert_NotBefore cert then Inl Plain
      else if now > cert_NotAfter cert then Inl Plain
      else Inr ())"

definition validateX5CChain ::
  "'w crl_env \<Rightarrow> x509_Certificate \<Rightarrow> x509_Certificate \<Rightarrow> x509_Certificate \<Rightarrow> ('w CRLCache, goerr, unit) io" where
  "validateX5CChain env root intermediate leaf =
     io_bind (time_Now env) (\<lambda>now. io_lift (
       rbind (checkCertValidity root now) (\<lambda>_.
       rbind (checkCertValidity intermediate now) (\<lambda>_.
       rbind (checkCertValidity leaf now) (\<lambda>_.
       rbind (map_error wrap1 (cert_CheckSignatureFrom (ce_x509 env) intermediate root)) (\<lambda>_.
       map_error wrap1 (cert_CheckSignatureFrom (ce_x509 env) leaf intermediate)))))))"

text \<open>The x5c header of a parsed token, and the parts of package googlecloud that read it.\<close>

datatype 'x x5c_header = X5cMissing | X5cNotSlice | X5cSlice 'x

record x5c_certs =
  x5c_Leaf :: x509_Certificate
  x5c_Intermediate :: x509_Certificate
  x5c_Root :: x509_Certificate

record 'x token_lib =
  ParsePKITokenUnverified :: "string \<Rightarrow> 'x x5c_header result"
  ExtractCertificatesFromX5CHeader :: "'x \<Rightarrow> x5c_certs result"

definition tokenCerts :: "'x token_lib \<Rightarrow> string \<Rightarrow> x509_Certificate option \<Rightarrow> x5c_certs result" where
  "tokenCerts gl attestationToken expectedRoot =
     rbind (map_error wrap1 (ParsePKITokenUnverified gl attestationToken)) (\<lambda>x5cs.
     case x5cs of
       X5cMissing \<Rightarrow> Inl Plain
     | X5cNotSlice \<Rightarrow> Inl Plain
     | X5cSlice x5cHeaders \<Rightarrow>
         rbind (map_error wrap1 (ExtractCertificatesFromX5CHeader gl x5cHeaders)) (\<lambda>certs.
         case expectedRoot of
           Some root \<Rightarrow> if \<not> cert_Equal root (x5c_Root certs) then Inl Plain else Inr certs
         | None \<Rightarrow> Inr certs))"

definition FetchCRLsForToken ::
  "'w crl_env \<Rightarrow> 'x token_lib \<Rightarrow> string \<Rightarrow> x509_Certificate option \<Rightarrow>
   ('w CRLCache, goerr, x509_RevocationList option \<times> x509_RevocationList option) io" where
  "FetchCRLsForToken env gl attestationToken expectedRoot =
     io_bind (io_lift (tokenCerts gl attestationToken expectedRoot)) (\<lambda>certs.
     io_bind (io_map_error wrap1
       (validateX5CChain env (x5c_Root certs) (x5c_Intermediate certs) (x5c_Leaf certs))) (\<lambda>_ c.
     case fetchFirstCRL env (cert_CRLDistributionPoints (x5c_Leaf certs)) (Some (x5c_Intermediate certs)) c of
       (leafRes, c1) \<Rightarrow>
     (case fetchFirstCRL env (cert_CRLDistributionPoints (x5c_Intermediate certs)) (Some (x5c_Root certs)) c1 of
       (intermediateRes, c2) \<Rightarrow>
         (rbind leafRes (\<lambda>leafCRL. rbind intermediateRes (\<lambda>intermediateCRL.
            Inr (leafCRL, intermediateCRL))), c2))))"

definition CRLCache_Close :: "'w CRLCache \<Rightarrow> 'w CRLCache" where
  "CRLCache_Close c = c\<lparr>cc_entries := []\<rparr>"

section \<open>Lemmas\<close>

text \<open>What the actions that only read the cache keep.\<close>

definition keeps_entries :: "('w CRLCache, 'e, 'a) io \<Rightarrow> bool" where
  "keeps_entries m \<longleftrightarrow> (\<forall>c. cc_entries (snd (m c)) = cc_entries c)"

lemma keeps_entriesD: "keeps_entries m \<Longrightarrow> m c = (r, c') \<Longrightarrow> cc_entries c' = cc_entries c"
  by (metis keeps_entries_def snd_conv)

lemma keeps_basic [simp, intro]:
  "keeps_entries (io_return x)" "keeps_entries (io_lift r)" "keeps_entries (io_get f)" "keeps_entries (on_world n)"
  by (simp_all add: keeps_entries_def on_world_def split: prod.splits)

lemma keeps_bind [intro]:
  assumes "keeps_entries m" and "\<And>x. keeps_entries (f x)"
  shows "keeps_entries (io_bind m f)"
  unfolding keeps_entries_def
proof
  fix c
  show "cc_entries (snd (io_bind m f c)) = cc_entries c"
  proof (cases "m c")
    case (Pair r c')
    then have "cc_entries c' = cc_entries c" using assms(1) by (metis keeps_entries_def snd_conv)
    then show ?thesis
      using assms(2) Pair by (cases r) (simp_all add: io_bind_def keeps_entries_def)
  qed
qed

lemma keeps_map_error [intro]: "keeps_entries m \<Longrightarrow> keeps_entries (io_map_error g m)"
  by (simp add: keeps_entries_def io_map_error_apply)

lemma keeps_reads [simp]:
  "keeps_entries (time_Now env)" "keeps_entries (isEntryStale env e)" "keeps_entries (cachedFresh env key issuer)"
proof -
  show *: "keeps_entries (time_Now env)" by (simp add: time_Now_def)
  then show "keeps_entries (isEntryStale env e)" for e by (auto simp: isEntryStale_def)
  then show "keeps_entries (cachedFresh env key issuer)"
    unfolding cachedFresh_def by (intro keeps_bind) (auto split: option.splits)
qed

lemma time_Now_total: "\<exists>t c'. time_Now env c = (Inr t, c')"
  by (simp add: time_Now_def on_world_def split: prod.splits)

lemma isEntryStale_total: "\<exists>t c'. isEntryStale env e c = (Inr (stale_at t e), c')"
proof -
  obtain t c' where "time_Now env c = (Inr t, c')" using time_Now_total by blast
  then show ?thesis by (auto simp: isEntryStale_def io_bind_Inr)
qed

lemma evict_stale_loop_facts:
  "\<exists>kept c'. evict_stale_loop env entries c = (Inr kept, c') \<and> cc_entries c' = cc_entries c \<and>
     subseq kept entries"
proof (induction env entries arbitrary: c rule: evict_stale_loop.induct)
  case (2 env key entry rest)
  obtain t c1 where 1: "isEntryStale env entry c = (Inr (stale_at t entry), c1)"
    using isEntryStale_total by blast
  obtain kept c2 where "evict_stale_loop env rest c1 = (Inr kept, c2)" "cc_entries c2 = cc_entries c1" "subseq kept rest"
    using 2 by blast
  with 1 keeps_entriesD [OF keeps_reads(2) 1] show ?case by (auto simp: io_bind_Inr)
qed simp

lemma oldest_entry_mem:
  "oldest_entry found entries = Some (k, t) \<Longrightarrow> found = Some (k, t) \<or> k \<in> fst ` set entries"
  by (induction found entries rule: oldest_entry.induct) (auto split: if_splits)

lemma oldest_entry_Some: "entries \<noteq> [] \<or> found \<noteq> None \<Longrightarrow> oldest_entry found entries \<noteq> None"
  by (induction found entries rule: oldest_entry.induct) auto

lemma length_delete_less: "k \<in> fst ` set xs \<Longrightarrow> length (AList.delete k xs) < length xs"
  by (auto simp: AList.delete_eq intro: length_filter_less)

definition crl_entry_ok :: "'w crl_env \<Rightarrow> string \<Rightarrow> crlEntry \<Rightarrow> bool" where
  "crl_entry_ok env key e \<longleftrightarrow> rl_NextUpdate (ce_crl e) \<noteq> None \<and>
     (\<exists>url issuer. key = crlCacheKey env url issuer \<and> verifyCRLIssuer env (ce_crl e) issuer = Inr ())"

definition crl_inv :: "'w crl_env \<Rightarrow> 'w CRLCache \<Rightarrow> bool" where
  "crl_inv env c \<longleftrightarrow> distinct (map fst (cc_entries c)) \<and> length (cc_entries c) \<le> crlMaxEntries \<and>
     (\<forall>(key, e) \<in> set (cc_entries c). crl_entry_ok env key e)"

lemma crl_inv_entries: "crl_inv env c \<Longrightarrow> cc_entries c' = cc_entries c \<Longrightarrow> crl_inv env c'"
  by (simp add: crl_inv_def)

lemma crl_inv_subseq:
  assumes "crl_inv env c" and "subseq (cc_entries c') (cc_entries c)"
  shows "crl_inv env c'"
proof -
  have "subseq (map fst (cc_entries c')) (map fst (cc_entries c))" using assms(2) by (rule subseq_map)
  then have "distinct (map fst (cc_entries c'))"
    using assms(1) distinct_nthsI unfolding subseq_conv_nths crl_inv_def by metis
  moreover have "set (cc_entries c') \<subseteq> set (cc_entries c)"
    using assms(2) unfolding subseq_conv_nths by (auto dest: in_set_nthsD)
  moreover have "length (cc_entries c') \<le> length (cc_entries c)" using assms(2) by (rule list_emb_length)
  ultimately show ?thesis
    using assms(1) by (auto simp: crl_inv_def)
qed

lemma crl_inv_keeps: "keeps_entries m \<Longrightarrow> preserves (crl_inv env) m"
  by (simp add: keeps_entries_def preserves_def crl_inv_def)

lemma evictOldest_subseq: "subseq (cc_entries (evictOldestEntry c)) (cc_entries c)"
  by (auto simp: evictOldestEntry_def AList.delete_eq split: option.splits)

lemma evictOldest_length:
  assumes "cc_entries c \<noteq> []"
  shows "length (cc_entries (evictOldestEntry c)) < length (cc_entries c)"
proof -
  from assms obtain k t where o: "oldest_entry None (cc_entries c) = Some (k, t)"
    using oldest_entry_Some [of "cc_entries c" None] by auto
  from oldest_entry_mem [OF this] show ?thesis
    by (simp add: evictOldestEntry_def o length_delete_less)
qed


lemma crl_inv_evictStale: "preserves (crl_inv env) (evictStaleEntries env)"
  unfolding preserves_def
proof (intro allI impI)
  fix c assume inv: "crl_inv env c"
  obtain kept c' where "evict_stale_loop env (cc_entries c) c = (Inr kept, c')" "cc_entries c' = cc_entries c"
    "subseq kept (cc_entries c)" using evict_stale_loop_facts by blast
  then show "crl_inv env (snd (evictStaleEntries env c))"
    using crl_inv_subseq [OF inv, of "c'\<lparr>cc_entries := kept\<rparr>"] by (simp add: evictStaleEntries_def io_bind_Inr)
qed

lemma evictStale_total: "\<exists>c'. evictStaleEntries env c = (Inr (), c')"
proof -
  obtain kept c' where "evict_stale_loop env (cc_entries c) c = (Inr kept, c')"
    using evict_stale_loop_facts by blast
  then show ?thesis by (simp add: evictStaleEntries_def io_bind_Inr)
qed

text \<open>Making room: the key is present or the cache is below its bound afterwards.\<close>

lemma make_room:
  assumes "crl_inv env c"
  shows "\<exists>c'. makeRoom env key c = (Inr (), c') \<and> crl_inv env c' \<and>
    (map_of (cc_entries c') key = None \<longrightarrow> length (cc_entries c') < crlMaxEntries)"
proof (cases "map_of (cc_entries c) key = None \<and> length (cc_entries c) \<ge> crlMaxEntries")
  case True
  obtain c1 where c1: "evictStaleEntries env c = (Inr (), c1)" using evictStale_total by blast
  have inv1: "crl_inv env c1" using preservesD [OF crl_inv_evictStale assms c1] .
  let ?c2 = "if length (cc_entries c1) \<ge> crlMaxEntries then evictOldestEntry c1 else c1"
  have "crl_inv env ?c2" using inv1 crl_inv_subseq [OF inv1 evictOldest_subseq] by simp
  moreover have "length (cc_entries ?c2) < crlMaxEntries"
  proof (cases "length (cc_entries c1) \<ge> crlMaxEntries")
    case full: True
    then have "cc_entries c1 \<noteq> []" by (auto simp: crlMaxEntries_def)
    with evictOldest_length [OF this] inv1 full show ?thesis by (simp add: crl_inv_def)
  qed simp
  ultimately show ?thesis using True c1 by (simp add: makeRoom_def io_bind_Inr)
next
  case False
  with assms show ?thesis by (auto simp: makeRoom_def)
qed

lemma crl_inv_update:
  assumes "crl_inv env c" and "map_of (cc_entries c) key = None \<longrightarrow> length (cc_entries c) < crlMaxEntries"
    and "crl_entry_ok env key e"
  shows "crl_inv env (c\<lparr>cc_entries := AList.update key e (cc_entries c)\<rparr>)"
proof -
  have "length (AList.update key e xs) = (if map_of xs key = None then Suc (length xs) else length xs)"
    for xs :: "(string \<times> crlEntry) list"
    by (induction xs) (auto split: if_splits)
  moreover have "set (AList.update key e xs) \<subseteq> insert (key, e) (set xs)" for xs :: "(string \<times> crlEntry) list"
    by (induction xs) auto
  moreover have "distinct (map fst (AList.update key e (cc_entries c)))"
    using assms(1) by (simp add: crl_inv_def distinct_update)
  moreover have "\<forall>(k, x) \<in> insert (key, e) (set (cc_entries c)). crl_entry_ok env k x"
    using assms(1,3) by (auto simp: crl_inv_def)
  ultimately show ?thesis
    using assms(1,2) unfolding crl_inv_def by (simp add: Suc_le_eq) blast
qed

lemma storeCRL_facts:
  assumes "crl_inv env c" and "rl_NextUpdate crl \<noteq> None" and "key = crlCacheKey env url issuer"
    and "verifyCRLIssuer env crl issuer = Inr ()"
  shows "\<exists>c'. storeCRL env key crl c = (Inr (), c') \<and> crl_inv env c' \<and>
    (\<exists>t. map_of (cc_entries c') key = Some \<lparr>ce_crl = crl, ce_fetchedAt = t\<rparr>)"
proof -
  from make_room [OF assms(1), of key]
  obtain c1 where c1: "makeRoom env key c = (Inr (), c1)" and inv1: "crl_inv env c1"
    and room: "map_of (cc_entries c1) key = None \<longrightarrow> length (cc_entries c1) < crlMaxEntries"
    by (elim exE conjE)
  obtain t c2 where c2: "time_Now env c1 = (Inr t, c2)" using time_Now_total by blast
  have same: "cc_entries c2 = cc_entries c1" using keeps_entriesD [OF keeps_reads(1) c2] .
  have ok: "crl_entry_ok env key \<lparr>ce_crl = crl, ce_fetchedAt = t\<rparr>"
    using assms(2-4) by (auto simp: crl_entry_ok_def)
  have "crl_inv env (c2\<lparr>cc_entries := AList.update key \<lparr>ce_crl = crl, ce_fetchedAt = t\<rparr> (cc_entries c2)\<rparr>)"
    using crl_inv_update [OF crl_inv_entries [OF inv1 same] _ ok] room same by simp
  then show ?thesis
    using c1 c2 by (simp add: storeCRL_def io_bind_Inr update_conv)
qed


lemma parseFetchedCRL_InrD:
  "parseFetchedCRL env issuer data = Inr crl \<Longrightarrow> verifyCRLIssuer env crl issuer = Inr () \<and> rl_NextUpdate crl \<noteq> None"
  by (auto simp: parseFetchedCRL_def Let_def result_simps split: if_splits option.splits)

lemma cachedFresh_SomeD:
  assumes "cachedFresh env key issuer c = (Inr (Some crl), c')"
  shows "\<exists>e t. map_of (cc_entries c) key = Some e \<and> ce_crl e = crl \<and> \<not> stale_at t e \<and>
    fst (time_Now env c) = Inr t \<and> verifyCRLIssuer env crl issuer = Inr ()"
proof -
  from assms obtain e where e: "map_of (cc_entries c) key = Some e"
    by (auto simp: cachedFresh_def io_simps split: option.splits)
  obtain t c1 where t: "time_Now env c = (Inr t, c1)" using time_Now_total by blast
  then have "isEntryStale env e c = (Inr (stale_at t e), c1)" by (simp add: isEntryStale_def io_bind_Inr)
  with assms e t show ?thesis
    by (auto simp: cachedFresh_def io_simps result_simps split: if_splits)
qed

lemma flightFetch_facts:
  assumes "crl_inv env c" and "key = crlCacheKey env url issuer" and "flightFetch env key url issuer c = (r, c')"
  shows "crl_inv env c' \<and> (\<forall>crl. r = Inr crl \<longrightarrow> verifyCRLIssuer env crl issuer = Inr () \<and>
    (\<exists>e. map_of (cc_entries c') key = Some e \<and> ce_crl e = crl))"
proof -
  obtain h c1 where h: "cachedFresh env key issuer c = (h, c1)" by (cases "cachedFresh env key issuer c")
  have e1: "cc_entries c1 = cc_entries c" using keeps_entriesD [OF keeps_reads(3) h] .
  have inv1: "crl_inv env c1" using crl_inv_entries [OF assms(1) e1] .
  show ?thesis
  proof (cases h)
    case (Inl e)
    with h inv1 assms(3) show ?thesis by (auto simp: flightFetch_def io_bind_Inl)
  next
    case (Inr hit)
    show ?thesis
    proof (cases hit)
      case (Some crl)
      then have "verifyCRLIssuer env crl issuer = Inr () \<and> (\<exists>e. map_of (cc_entries c) key = Some e \<and> ce_crl e = crl)"
        using cachedFresh_SomeD [of env key issuer c crl c1] h Inr by auto
      with h Inr Some inv1 e1 assms(3) show ?thesis by (auto simp: flightFetch_def io_bind_Inr)
    next
      case None
      obtain d c2 where d: "io_map_error crlFetchError (on_world (fetchCRLBytes env url crlFetchTimeout)) c1 = (d, c2)"
        by fastforce
      have "keeps_entries (io_map_error crlFetchError (on_world (fetchCRLBytes env url crlFetchTimeout)))" by auto
      from keeps_entriesD [OF this d] inv1 have inv2: "crl_inv env c2" by (simp add: crl_inv_entries)
      show ?thesis
      proof (cases d)
        case (Inl e)
        with h Inr None d inv2 assms(3) show ?thesis by (auto simp: flightFetch_def io_bind_Inr io_bind_Inl)
      next
        case data: (Inr data)
        show ?thesis
        proof (cases "parseFetchedCRL env issuer data")
          case (Inl e)
          with h Inr None d data inv2 assms(3) show ?thesis by (auto simp: flightFetch_def io_bind_Inr)
        next
          case crl: (Inr crl)
          note ok = parseFetchedCRL_InrD [OF crl]
          from storeCRL_facts [OF inv2 _ assms(2), of crl] ok obtain c3 t where
            "storeCRL env key crl c2 = (Inr (), c3)" "crl_inv env c3"
            "map_of (cc_entries c3) key = Some \<lparr>ce_crl = crl, ce_fetchedAt = t\<rparr>" by auto
          with h Inr None d data crl ok assms(3) show ?thesis by (auto simp: flightFetch_def io_bind_Inr)
        qed
      qed
    qed
  qed
qed


lemma deliverShared_InrD:
  "deliverShared env issuer shared = Inr crl \<Longrightarrow> shared = Inr crl \<and> verifyCRLIssuer env crl issuer = Inr ()"
  by (auto simp: deliverShared_def result_simps)

lemma awaitShared_InrD:
  assumes "awaitShared env key url issuer c = (Inr crl, c')"
  shows "flightFetch env key url issuer c = (Inr crl, c') \<and> verifyCRLIssuer env crl issuer = Inr ()"
  using assms deliverShared_InrD
  by (cases "flightFetch env key url issuer c") (auto simp: awaitShared_def split: option.splits)

lemma getOrFetchCRL_cases:
  assumes "getOrFetchCRL env url issuer_opt c = (Inr crl, c')"
  shows "\<exists>issuer key. issuer_opt = Some issuer \<and> key = crlCacheKey env url issuer \<and>
    (cachedFresh env key issuer c = (Inr (Some crl), c') \<or>
     (\<exists>c1. cachedFresh env key issuer c = (Inr None, c1) \<and> awaitShared env key url issuer c1 = (Inr crl, c')))"
proof -
  from assms obtain issuer where i: "issuer_opt = Some issuer"
    by (auto simp: getOrFetchCRL_def split: option.splits)
  let ?key = "crlCacheKey env url issuer"
  obtain h c1 where h: "cachedFresh env ?key issuer c = (h, c1)" by fastforce
  with assms i obtain hit where "h = Inr hit" by (cases h) (auto simp: getOrFetchCRL_def Let_def io_bind_Inl)
  with assms i h show ?thesis
    by (cases hit) (auto simp: getOrFetchCRL_def Let_def io_bind_Inr)
qed

lemma getOrFetchCRL_InrD:
  assumes "getOrFetchCRL env url issuer_opt c = (Inr crl, c')"
  shows "\<exists>issuer. issuer_opt = Some issuer \<and> verifyCRLIssuer env crl issuer = Inr ()"
  using getOrFetchCRL_cases [OF assms] by (auto dest: cachedFresh_SomeD awaitShared_InrD)

lemma getOrFetchCRL_inv: "preserves (crl_inv env) (getOrFetchCRL env url issuer_opt)"
proof (cases issuer_opt)
  case (Some issuer)
  let ?key = "crlCacheKey env url issuer"
  have a: "preserves (crl_inv env) (awaitShared env ?key url issuer)"
    using flightFetch_facts [of env _ ?key url issuer]
    by (auto simp: preserves_def awaitShared_def split: prod.splits option.splits)
  have k: "preserves (crl_inv env) (cachedFresh env ?key issuer)" by (simp add: crl_inv_keeps)
  show ?thesis
    unfolding getOrFetchCRL_def Some option.case Let_def
    by (rule preserves_bind [OF k]) (auto simp: a split: option.splits)
qed (simp add: getOrFetchCRL_def)

lemma first_crl_loop_inv: "preserves (crl_inv env) (first_crl_loop env issuer errs urls)"
proof (induction urls arbitrary: errs)
  case (Cons url urls)
  show ?case
    unfolding preserves_def
  proof (intro allI impI)
    fix c assume c: "crl_inv env c"
    obtain r c' where r: "getOrFetchCRL env url issuer c = (r, c')" by fastforce
    with preservesD [OF getOrFetchCRL_inv c r] Cons show "crl_inv env (snd (first_crl_loop env issuer errs (url # urls) c))"
      by (cases r) (auto simp: preserves_def)
  qed
qed simp

lemma first_crl_loop_InrD:
  "first_crl_loop env issuer_opt errs urls c = (Inr crl, c') \<Longrightarrow>
     \<exists>issuer. issuer_opt = Some issuer \<and> verifyCRLIssuer env crl issuer = Inr ()"
  by (induction urls arbitrary: errs c) (auto split: prod.splits sum.splits dest: getOrFetchCRL_InrD)

lemma fetchFirstCRL_inv: "preserves (crl_inv env) (fetchFirstCRL env dps issuer)"
  unfolding fetchFirstCRL_def by (auto intro: preserves_bind first_crl_loop_inv)

lemma fetchFirstCRL_InrD:
  assumes "fetchFirstCRL env dps (Some issuer) c = (Inr r, c')"
  shows "(r = None \<longleftrightarrow> dps = []) \<and> (\<forall>crl. r = Some crl \<longrightarrow> verifyCRLIssuer env crl issuer = Inr ())"
  using assms by (auto simp: fetchFirstCRL_def io_simps split: if_splits dest: first_crl_loop_InrD)

lemma verifyCRLIssuer_ok_iff:
  "verifyCRLIssuer env crl issuer = Inr () \<longleftrightarrow>
     rl_RawIssuer crl = cert_RawSubject issuer \<and> crl_CheckSignatureFrom (ce_x509 env) crl issuer = Inr ()"
  by (simp add: verifyCRLIssuer_def)

text \<open>The chain check and the token: what is known when they succeed.\<close>

lemma checkCertValidity_ok_iff:
  "checkCertValidity cert now = Inr () \<longleftrightarrow> cert_NotBefore cert \<le> now \<and> now \<le> cert_NotAfter cert"
  by (auto simp: checkCertValidity_def)

definition chain_valid_at :: "'w crl_env \<Rightarrow> instant \<Rightarrow> x5c_certs \<Rightarrow> bool" where
  "chain_valid_at env now certs \<longleftrightarrow>
     (\<forall>cert \<in> {x5c_Root certs, x5c_Intermediate certs, x5c_Leaf certs}.
        cert_NotBefore cert \<le> now \<and> now \<le> cert_NotAfter cert) \<and>
     cert_CheckSignatureFrom (ce_x509 env) (x5c_Intermediate certs) (x5c_Root certs) = Inr () \<and>
     cert_CheckSignatureFrom (ce_x509 env) (x5c_Leaf certs) (x5c_Intermediate certs) = Inr ()"

lemma validateX5CChain_InrD:
  assumes "validateX5CChain env (x5c_Root certs) (x5c_Intermediate certs) (x5c_Leaf certs) c = (Inr u, c')"
  shows "\<exists>now. fst (time_Now env c) = Inr now \<and> chain_valid_at env now certs \<and> cc_entries c' = cc_entries c"
proof -
  obtain now c1 where t: "time_Now env c = (Inr now, c1)" using time_Now_total by blast
  with assms keeps_entriesD [OF keeps_reads(1) t] show ?thesis
    by (auto simp: validateX5CChain_def io_simps result_simps chain_valid_at_def checkCertValidity_ok_iff)
qed

lemma FetchCRLsForToken_InrD:
  assumes "FetchCRLsForToken env gl token root c = (Inr (leafCRL, interCRL), c')"
  shows "\<exists>certs now. tokenCerts gl token root = Inr certs \<and> fst (time_Now env c) = Inr now \<and>
    chain_valid_at env now certs \<and>
    (leafCRL = None \<longleftrightarrow> cert_CRLDistributionPoints (x5c_Leaf certs) = []) \<and>
    (interCRL = None \<longleftrightarrow> cert_CRLDistributionPoints (x5c_Intermediate certs) = []) \<and>
    (\<forall>crl. leafCRL = Some crl \<longrightarrow> verifyCRLIssuer env crl (x5c_Intermediate certs) = Inr ()) \<and>
    (\<forall>crl. interCRL = Some crl \<longrightarrow> verifyCRLIssuer env crl (x5c_Root certs) = Inr ())"
proof -
  from assms obtain certs where certs: "tokenCerts gl token root = Inr certs"
    by (auto simp: FetchCRLsForToken_def io_simps)
  with assms obtain u c1 where v: "validateX5CChain env (x5c_Root certs) (x5c_Intermediate certs) (x5c_Leaf certs) c = (Inr u, c1)"
    by (auto simp: FetchCRLsForToken_def io_simps)
  obtain l c2 where l: "fetchFirstCRL env (cert_CRLDistributionPoints (x5c_Leaf certs)) (Some (x5c_Intermediate certs)) c1 = (l, c2)"
    by fastforce
  obtain i c3 where i: "fetchFirstCRL env (cert_CRLDistributionPoints (x5c_Intermediate certs)) (Some (x5c_Root certs)) c2 = (i, c3)"
    by fastforce
  from assms certs v l i have "l = Inr leafCRL" "i = Inr interCRL"
    by (auto simp: FetchCRLsForToken_def io_simps result_simps)
  with l i have "(leafCRL = None \<longleftrightarrow> cert_CRLDistributionPoints (x5c_Leaf certs) = []) \<and>
      (\<forall>crl. leafCRL = Some crl \<longrightarrow> verifyCRLIssuer env crl (x5c_Intermediate certs) = Inr ())"
    "(interCRL = None \<longleftrightarrow> cert_CRLDistributionPoints (x5c_Intermediate certs) = []) \<and>
      (\<forall>crl. interCRL = Some crl \<longrightarrow> verifyCRLIssuer env crl (x5c_Root certs) = Inr ())"
    by (intro fetchFirstCRL_InrD; simp)+
  with validateX5CChain_InrD [OF v] certs show ?thesis by metis
qed


section \<open>Interleavings\<close>

text \<open>
  The cache under concurrent use: the sections that write it run under its lock, in any order, and
  the outside world changes at any moment. A flight stores only what it has parsed and verified for
  the issuer whose key it holds.
\<close>

inductive crl_reachable :: "'w crl_env \<Rightarrow> 'w CRLCache \<Rightarrow> bool" for env where
  new_cache: "crl_reachable env (NewCRLCache w)"
| store: "crl_reachable env c \<Longrightarrow> parseFetchedCRL env issuer data = Inr crl \<Longrightarrow>
    storeCRL env (crlCacheKey env url issuer) crl c = (r, c') \<Longrightarrow> crl_reachable env c'"
| close: "crl_reachable env c \<Longrightarrow> crl_reachable env (CRLCache_Close c)"
| world: "crl_reachable env c \<Longrightarrow> crl_reachable env (c\<lparr>cc_world := w\<rparr>)"

lemma crl_reachable_inv: "crl_reachable env c \<Longrightarrow> crl_inv env c"
proof (induction rule: crl_reachable.induct)
  case (store c issuer data crl url r c')
  from storeCRL_facts [of env c crl "crlCacheKey env url issuer" url issuer] store.IH parseFetchedCRL_InrD [OF store.hyps(2)] store.hyps(3)
  show ?case by auto
qed (auto simp: crl_inv_def NewCRLCache_def CRLCache_Close_def)

text \<open>
  The code takes no other steps: a whole flight, from its second look into the cache to the store, and a whole call of \<open>getOrFetchCRL\<close> are made of them.
\<close>

lemma crl_reachable_keeps:
  assumes "crl_reachable env c" and "cc_entries c' = cc_entries c"
  shows "crl_reachable env c'"
proof -
  have "c' = c\<lparr>cc_world := cc_world c'\<rparr>" using assms(2) by (cases c; cases c') simp
  then show ?thesis using crl_reachable.world [OF assms(1), of "cc_world c'"] by simp
qed

lemma keeps_reachable: "keeps_entries m \<Longrightarrow> preserves (crl_reachable env) m"
  by (auto simp: keeps_entries_def preserves_def intro: crl_reachable_keeps)

lemma flightFetch_reachable: "preserves (crl_reachable env) (flightFetch env (crlCacheKey env url issuer) url issuer)"
proof -
  have store: "preserves (crl_reachable env) (io_bind (io_lift (parseFetchedCRL env issuer data)) (\<lambda>crl.
      io_bind (storeCRL env (crlCacheKey env url issuer) crl) (\<lambda>_. io_return crl)))" for data
  proof (cases "parseFetchedCRL env issuer data")
    case (Inr crl)
    have "preserves (crl_reachable env) (storeCRL env (crlCacheKey env url issuer) crl)"
      unfolding preserves_def using crl_reachable.store [OF _ Inr] by (metis prod.collapse)
    then have "preserves (crl_reachable env) (io_bind (storeCRL env (crlCacheKey env url issuer) crl) (\<lambda>_. io_return crl))"
      by (rule preserves_bind) simp
    with Inr show ?thesis by (simp add: preserves_def io_bind_def)
  qed (simp add: preserves_def io_bind_def)
  have look: "preserves (crl_reachable env) (cachedFresh env (crlCacheKey env url issuer) issuer)"
    and fetch: "preserves (crl_reachable env) (io_map_error crlFetchError (on_world (fetchCRLBytes env url crlFetchTimeout)))"
    by (auto intro: keeps_reachable)
  show ?thesis
    unfolding flightFetch_def by (rule preserves_bind [OF look]) (auto split: option.splits intro!: preserves_bind [OF fetch] store)
qed

lemma getOrFetchCRL_reachable: "preserves (crl_reachable env) (getOrFetchCRL env url issuer_opt)"
proof (cases issuer_opt)
  case (Some issuer)
  let ?key = "crlCacheKey env url issuer"
  have await: "preserves (crl_reachable env) (awaitShared env ?key url issuer)"
    using flightFetch_reachable [of env url issuer]
    by (auto simp: preserves_def awaitShared_def split: prod.splits option.splits)
  have look: "preserves (crl_reachable env) (cachedFresh env ?key issuer)" by (simp add: keeps_reachable)
  show ?thesis
    unfolding getOrFetchCRL_def Some option.case Let_def
    by (rule preserves_bind [OF look]) (auto simp: await split: option.splits)
qed (simp add: getOrFetchCRL_def preserves_def)

section \<open>Properties\<close>

text \<open>
  C24. The cache stays bounded and honest. In every state reached by concurrent stores, closes and
  changes of the outside world it has at most 100 entries with distinct keys, and the list
  under a key was issued and signed by an issuer certificate that the key names and has a
  validity horizon.
\<close>

theorem crl_cache_invariant:
  assumes "crl_reachable env c"
  shows "length (cc_entries c) \<le> 100 \<and> distinct (map fst (cc_entries c)) \<and>
    (\<forall>(key, e) \<in> set (cc_entries c). rl_NextUpdate (ce_crl e) \<noteq> None \<and>
       (\<exists>url issuer. key = crlCacheKey env url issuer \<and> rl_RawIssuer (ce_crl e) = cert_RawSubject issuer \<and>
          crl_CheckSignatureFrom (ce_x509 env) (ce_crl e) issuer = Inr ()))"
  using crl_reachable_inv [OF assms]
  by (auto simp: crl_inv_def crl_entry_ok_def crlMaxEntries_def verifyCRLIssuer_ok_iff)

text \<open>
  C25. An answer of the cache is always a list that the issuer of this caller vouches for, and it is
  fresh: it comes from an entry stored at most four hours ago whose next update has not passed, or
  it was fetched by this call or a shared one and parsed and verified, and is then in the
  cache. Without an issuer there is no answer.
\<close>

theorem crl_answer_verified:
  assumes "crl_inv env c" and "getOrFetchCRL env url issuer_opt c = (Inr crl, c')"
  shows "crl_inv env c' \<and> (\<exists>issuer. issuer_opt = Some issuer \<and> rl_RawIssuer crl = cert_RawSubject issuer \<and>
    crl_CheckSignatureFrom (ce_x509 env) crl issuer = Inr () \<and>
    ((\<exists>e t next. map_of (cc_entries c) (crlCacheKey env url issuer) = Some e \<and> ce_crl e = crl \<and>
        fst (time_Now env c) = Inr t \<and> t \<le> ce_fetchedAt e + 14400000000000 \<and>
        rl_NextUpdate crl = Some next \<and> t \<le> next) \<or>
     (\<exists>e. map_of (cc_entries c') (crlCacheKey env url issuer) = Some e \<and> ce_crl e = crl)))"
proof -
  from getOrFetchCRL_cases [OF assms(2)] obtain issuer where i: "issuer_opt = Some issuer"
    and cs: "cachedFresh env (crlCacheKey env url issuer) issuer c = (Inr (Some crl), c') \<or>
      (\<exists>c1. cachedFresh env (crlCacheKey env url issuer) issuer c = (Inr None, c1) \<and>
         awaitShared env (crlCacheKey env url issuer) url issuer c1 = (Inr crl, c'))" by blast
  have v: "verifyCRLIssuer env crl issuer = Inr ()" using getOrFetchCRL_InrD [OF assms(2)] i by simp
  have inv: "crl_inv env c'" using preservesD [OF getOrFetchCRL_inv assms(1,2)] .
  from cs show ?thesis
  proof
    assume "cachedFresh env (crlCacheKey env url issuer) issuer c = (Inr (Some crl), c')"
    from cachedFresh_SomeD [OF this] obtain e t where
      "map_of (cc_entries c) (crlCacheKey env url issuer) = Some e" "ce_crl e = crl" "\<not> stale_at t e"
      "fst (time_Now env c) = Inr t" by blast
    then show ?thesis using i v inv
      by (auto simp: verifyCRLIssuer_ok_iff stale_at_def crlMaxCacheTTL_def split: if_splits option.splits)
  next
    assume "\<exists>c1. cachedFresh env (crlCacheKey env url issuer) issuer c = (Inr None, c1) \<and>
      awaitShared env (crlCacheKey env url issuer) url issuer c1 = (Inr crl, c')"
    then obtain c1 where c1: "cachedFresh env (crlCacheKey env url issuer) issuer c = (Inr None, c1)"
      and a: "awaitShared env (crlCacheKey env url issuer) url issuer c1 = (Inr crl, c')" by blast
    have "crl_inv env c1" using crl_inv_entries [OF assms(1) keeps_entriesD [OF keeps_reads(3) c1]] .
    from flightFetch_facts [OF this refl conjunct1 [OF awaitShared_InrD [OF a]]] i v inv
    show ?thesis by (auto simp: verifyCRLIssuer_ok_iff)
  qed
qed

definition transport_retryable :: "goerr \<Rightarrow> bool" where
  "transport_retryable e =
     (case errors_As as_DNSError e of Some (isTemporary, isTimeout) \<Rightarrow> isTemporary \<or> isTimeout | None \<Rightarrow> True)"

fun outcome_retryable :: "http_outcome \<Rightarrow> bool" where
  "outcome_retryable (TransportError e) = transport_retryable e"
| "outcome_retryable RedirectAnswer = False"
| "outcome_retryable (Reply code body err) =
     (if code = 200 then length body \<le> 2097152 \<and> (case err of Some e \<Rightarrow> transport_retryable e | None \<Rightarrow> False)
      else 500 \<le> code \<and> code < 600 \<or> code = 408 \<or> code = 429)"

lemma transient_status:
  "isTransientFetchError (HTTPStatusError code) \<longleftrightarrow> 500 \<le> code \<and> code < 600 \<or> code = 408 \<or> code = 429"
  "\<not> isTransientFetchError (Sentinel ErrNotFound)" "\<not> isTransientFetchError (tag ErrResponseTooLarge)"
  by (simp_all add: isTransientFetchError_def)

lemma transient_transport:
  assumes "foreign_error e"
  shows "isTransientFetchError (Wrap [url_Error e, Sentinel ErrHTTPFetch]) \<longleftrightarrow> transport_retryable e"
    "isTransientFetchError (Wrap [e, Sentinel ErrHTTPFetch]) \<longleftrightarrow> transport_retryable e"
  using assms
  by (auto simp: isTransientFetchError_def transport_retryable_def url_Error_def foreign_not_own foreign_no_status
      split: option.splits)
text \<open>
  After a successful resolution a failure counts as
  transient exactly for a transport failure or an interrupted body (unless it is a permanent DNS
  error), and for the statuses 5xx, 408 and 429; a refused redirect, a 404, any other status and an
  oversized body are permanent. The errors of other packages carry no sentinel of this program.
\<close>

lemma exchange_transient:
  assumes "resolveExternalURL (ce_net env) url False w = (Inr resolved, w1)"
    and "NewRequest (ce_http env) url = Inr ()"
    and "BuildPinnedAddr (ce_net env) resolved = (addr, host, sni)"
    and "client_Do (ce_http env) \<lparr>hr_URL = url, hr_Timeout = t, hr_dialAddr = addr, hr_Host = host,
      hr_ServerName = sni\<rparr> w1 = (outcome, w2)"
    and "outcome_foreign outcome" and "fetchCRLBytes env url t w = (Inl err, w')"
  shows "isTransientFetchError err \<longleftrightarrow> outcome_retryable outcome"
proof -
  have e: "FetchBytesPinned (ce_http env) url t addr host sni w1 = (Inl err, w')"
    using assms(1,3,6) by (simp add: fetchCRLBytes_def io_map_error_def io_bind_def)
  show ?thesis
  proof (cases outcome)
    case (TransportError e)
    with e assms(2,4,5) show ?thesis by (auto simp: FetchBytesPinned_def transient_transport)
  next
    case RedirectAnswer
    with e assms(2,4) show ?thesis
      by (auto simp: FetchBytesPinned_def isTransientFetchError_def url_Error_def)
  next
    case (Reply code body berr)
    with e assms(2,4) have "readResponse code body berr = Inl err" by (simp add: FetchBytesPinned_def)
    with Reply assms(5) show ?thesis
      by (cases "maxResponseSize < length body"; cases berr)
         (auto simp: readResponse_def ReadAllLimited_def Suc_le_eq maxResponseSize_def transient_transport
           transient_status split: if_splits)
  qed
qed


text \<open>
  C27. No certificate of a token can make the verifier contact an address before the chain is
  checked. When the token cannot be read, its root is not the trusted one, or the chain is
  expired or not signed, the call fails with a result and a state that do not depend on the
  network at all. When it succeeds, root, intermediate and leaf were within their validity and signed
  in order, and a list is missing only for a certificate that names no distribution point.
\<close>

theorem crl_chain_before_network:
  "((\<exists>e. tokenCerts gl token root = Inl e) \<or>
    (\<exists>certs e. tokenCerts gl token root = Inr certs \<and>
       fst (validateX5CChain env (x5c_Root certs) (x5c_Intermediate certs) (x5c_Leaf certs) c) = Inl e) \<longrightarrow>
      FetchCRLsForToken (env\<lparr>ce_http := h, ce_net := n\<rparr>) gl token root c = FetchCRLsForToken env gl token root c \<and>
      (\<exists>e c'. FetchCRLsForToken env gl token root c = (Inl e, c') \<and> cc_entries c' = cc_entries c)) \<and>
   (FetchCRLsForToken env gl token (Some trusted) c = (Inr (l, i), c') \<longrightarrow>
      (\<exists>certs now. tokenCerts gl token (Some trusted) = Inr certs \<and> cert_Equal trusted (x5c_Root certs) \<and>
         fst (time_Now env c) = Inr now \<and> chain_valid_at env now certs \<and>
         (l = None \<longrightarrow> cert_CRLDistributionPoints (x5c_Leaf certs) = []) \<and>
         (i = None \<longrightarrow> cert_CRLDistributionPoints (x5c_Intermediate certs) = [])))"
proof (rule conjI; rule impI)
  assume "(\<exists>e. tokenCerts gl token root = Inl e) \<or>
    (\<exists>certs e. tokenCerts gl token root = Inr certs \<and>
       fst (validateX5CChain env (x5c_Root certs) (x5c_Intermediate certs) (x5c_Leaf certs) c) = Inl e)"
  then consider (tok) e where "tokenCerts gl token root = Inl e"
    | (chain) certs e c1 where "tokenCerts gl token root = Inr certs"
      "validateX5CChain env (x5c_Root certs) (x5c_Intermediate certs) (x5c_Leaf certs) c = (Inl e, c1)"
    by (metis prod.collapse)
  then show "FetchCRLsForToken (env\<lparr>ce_http := h, ce_net := n\<rparr>) gl token root c = FetchCRLsForToken env gl token root c \<and>
      (\<exists>e c'. FetchCRLsForToken env gl token root c = (Inl e, c') \<and> cc_entries c' = cc_entries c)"
  proof cases
    case tok
    then show ?thesis by (simp add: FetchCRLsForToken_def)
  next
    case chain
    have same: "validateX5CChain (env\<lparr>ce_http := h, ce_net := n\<rparr>) a b d = validateX5CChain env a b d" for a b d
      by (simp add: validateX5CChain_def time_Now_def)
    have "keeps_entries (validateX5CChain env (x5c_Root certs) (x5c_Intermediate certs) (x5c_Leaf certs))"
      unfolding validateX5CChain_def by (intro keeps_bind) simp_all
    from keeps_entriesD [OF this chain(2)] chain same show ?thesis
      by (simp add: FetchCRLsForToken_def io_bind_def io_map_error_def)
  qed
next
  assume ok: "FetchCRLsForToken env gl token (Some trusted) c = (Inr (l, i), c')"
  from FetchCRLsForToken_InrD [OF ok] obtain certs now where certs: "tokenCerts gl token (Some trusted) = Inr certs"
    "fst (time_Now env c) = Inr now" "chain_valid_at env now certs"
    "l = None \<longrightarrow> cert_CRLDistributionPoints (x5c_Leaf certs) = []"
    "i = None \<longrightarrow> cert_CRLDistributionPoints (x5c_Intermediate certs) = []" by blast
  from certs(1) obtain hdr where "ParsePKITokenUnverified gl token = Inr hdr"
    by (auto simp: tokenCerts_def result_simps)
  with certs(1) have "cert_Equal trusted (x5c_Root certs)"
    by (cases hdr) (auto simp: tokenCerts_def result_simps split: if_splits)
  with certs show "\<exists>certs now. tokenCerts gl token (Some trusted) = Inr certs \<and> cert_Equal trusted (x5c_Root certs) \<and>
         fst (time_Now env c) = Inr now \<and> chain_valid_at env now certs \<and>
         (l = None \<longrightarrow> cert_CRLDistributionPoints (x5c_Leaf certs) = []) \<and>
         (i = None \<longrightarrow> cert_CRLDistributionPoints (x5c_Intermediate certs) = [])" by blast
qed

section \<open>A concrete instance\<close>

definition sample_http :: "http_outcome \<Rightarrow> unit http_lib" where
  "sample_http out = \<lparr>NewRequest = (\<lambda>_. Inr ()), client_Do = (\<lambda>_ w. (out, w))\<rparr>"

definition sample_crl_env :: "http_outcome \<Rightarrow> unit crl_env" where
  "sample_crl_env out =
     \<lparr>ce_http = sample_http out, ce_net = sample_net, ce_clock = (\<lambda>w. (5, w)), ce_ctx = (\<lambda>_. None),
      ce_x509 = sample_x509, ce_sha256 = id\<rparr>"

definition sample_issuer :: x509_Certificate where
  "sample_issuer = \<lparr>cert_Raw = [1], cert_RawSubject = [7], cert_NotBefore = 0, cert_NotAfter = 10 ^ 18,
     cert_CRLDistributionPoints = []\<rparr>"

definition sample_crl :: x509_RevocationList where
  "sample_crl = \<lparr>rl_Raw = [7], rl_RawIssuer = [7], rl_NextUpdate = Some (10 ^ 18)\<rparr>"

lemma sample_parse: "parseFetchedCRL (sample_crl_env out) sample_issuer [7] = Inr sample_crl"
  by (simp add: parseFetchedCRL_def sample_crl_env_def sample_x509_def verifyCRLIssuer_def sample_issuer_def sample_crl_def Let_def)

lemma sample_store:
  "storeCRL (sample_crl_env out) key sample_crl (NewCRLCache ()) =
     (Inr (), \<lparr>cc_entries = [(key, \<lparr>ce_crl = sample_crl, ce_fetchedAt = 5\<rparr>)], cc_world = ()\<rparr>)"
  by (simp add: storeCRL_def makeRoom_def NewCRLCache_def time_Now_def on_world_def sample_crl_env_def io_bind_def crlMaxEntries_def)

lemma sample_fetch:
  "fetchCRLBytes (sample_crl_env out) ''https://tee.example:8443'' t () =
     (case out of TransportError e \<Rightarrow> Inl (Wrap [url_Error e, Sentinel ErrHTTPFetch])
      | RedirectAnswer \<Rightarrow> Inl (Wrap [url_Error (Sentinel ErrRedirect), Sentinel ErrHTTPFetch])
      | Reply code body err \<Rightarrow> readResponse code body err, ())"
  using sample_resolves
  by (cases out) (simp_all add: fetchCRLBytes_def sample_crl_env_def io_map_error_def io_bind_def BuildPinnedAddr_def
      Let_def FetchBytesPinned_def sample_http_def)

lemma sample_get:
  "getOrFetchCRL (sample_crl_env (Reply 200 [7] None)) ''https://tee.example:8443'' (Some sample_issuer) (NewCRLCache ()) =
     (Inr sample_crl, \<lparr>cc_entries = [(crlCacheKey (sample_crl_env (Reply 200 [7] None)) ''https://tee.example:8443'' sample_issuer,
        \<lparr>ce_crl = sample_crl, ce_fetchedAt = 5\<rparr>)], cc_world = ()\<rparr>)"
proof -
  let ?env = "sample_crl_env (Reply 200 [7] None)"
  let ?key = "crlCacheKey ?env ''https://tee.example:8443'' sample_issuer"
  have miss: "cachedFresh ?env ?key sample_issuer (NewCRLCache ()) = (Inr None, NewCRLCache ())"
    by (simp add: cachedFresh_def NewCRLCache_def)
  have data: "on_world (fetchCRLBytes ?env ''https://tee.example:8443'' crlFetchTimeout) (NewCRLCache ()) = (Inr [7], NewCRLCache ())"
    by (simp add: on_world_def NewCRLCache_def sample_fetch readResponse_ok_iff maxResponseSize_def)
  have "verifyCRLIssuer ?env sample_crl sample_issuer = Inr ()"
    using parseFetchedCRL_InrD [OF sample_parse] by blast
  moreover have "ce_ctx ?env w = None" for w by (simp add: sample_crl_env_def)
  ultimately show ?thesis
    using miss data sample_parse sample_store
    by (simp add: getOrFetchCRL_def Let_def io_bind_Inr awaitShared_def flightFetch_def io_map_error_def io_bind_def
        deliverShared_def)
qed


theorem crl_cache_invariant_witness:
  "\<exists>c. crl_reachable (sample_crl_env RedirectAnswer) c \<and> length (cc_entries c) = 1 \<and> distinct (map fst (cc_entries c)) \<and>
     (\<forall>(key, e) \<in> set (cc_entries c). rl_NextUpdate (ce_crl e) \<noteq> None)"
proof -
  let ?env = "sample_crl_env RedirectAnswer"
  let ?c = "\<lparr>cc_entries = [(crlCacheKey ?env ''u'' sample_issuer, \<lparr>ce_crl = sample_crl, ce_fetchedAt = 5\<rparr>)], cc_world = ()\<rparr>"
  have r: "crl_reachable ?env ?c"
    by (rule crl_reachable.store [OF crl_reachable.new_cache sample_parse sample_store])
  from crl_cache_invariant [OF r] have "\<forall>(key, e) \<in> set (cc_entries ?c). rl_NextUpdate (ce_crl e) \<noteq> None" by blast
  with r show ?thesis by (intro exI [of _ ?c]) simp
qed

theorem crl_answer_verified_witness:
  "\<exists>c'. getOrFetchCRL (sample_crl_env (Reply 200 [7] None)) ''https://tee.example:8443'' (Some sample_issuer)
      (NewCRLCache ()) = (Inr sample_crl, c') \<and> crl_inv (sample_crl_env (Reply 200 [7] None)) c' \<and>
     rl_RawIssuer sample_crl = cert_RawSubject sample_issuer"
proof -
  have "crl_inv (sample_crl_env (Reply 200 [7] None)) (NewCRLCache ())"
    by (simp add: crl_inv_def NewCRLCache_def)
  from crl_answer_verified [OF this sample_get] sample_get show ?thesis by auto
qed

definition sample_token_lib :: "x5c_certs token_lib" where
  "sample_token_lib = \<lparr>ParsePKITokenUnverified = (\<lambda>_. Inr (X5cSlice \<lparr>x5c_Leaf = sample_issuer,
     x5c_Intermediate = sample_issuer\<lparr>cert_NotAfter := 4\<rparr>, x5c_Root = sample_issuer\<rparr>)),
     ExtractCertificatesFromX5CHeader = Inr\<rparr>"

text \<open>An intermediate that expired at instant 4, seen at instant 5.\<close>

theorem crl_chain_before_network_witness:
  "\<exists>e c'. FetchCRLsForToken (sample_crl_env RedirectAnswer) sample_token_lib ''t'' (Some sample_issuer) (NewCRLCache ()) = (Inl e, c') \<and>
     FetchCRLsForToken ((sample_crl_env RedirectAnswer)\<lparr>ce_http := sample_http (Reply 200 [7] None), ce_net := sample_net\<rparr>)
       sample_token_lib ''t'' (Some sample_issuer) (NewCRLCache ()) = (Inl e, c')"
proof -
  let ?certs = "\<lparr>x5c_Leaf = sample_issuer, x5c_Intermediate = sample_issuer\<lparr>cert_NotAfter := 4\<rparr>, x5c_Root = sample_issuer\<rparr>"
  let ?env = "sample_crl_env RedirectAnswer"
  have t: "tokenCerts sample_token_lib ''t'' (Some sample_issuer) = Inr ?certs"
    by (simp add: tokenCerts_def sample_token_lib_def cert_Equal_def)
  have v: "fst (validateX5CChain ?env (x5c_Root ?certs) (x5c_Intermediate ?certs) (x5c_Leaf ?certs) (NewCRLCache ())) = Inl Plain"
    by (simp add: validateX5CChain_def time_Now_def on_world_def sample_crl_env_def NewCRLCache_def io_bind_def
        checkCertValidity_def sample_issuer_def)
  have "\<exists>certs e. tokenCerts sample_token_lib ''t'' (Some sample_issuer) = Inr certs \<and>
      fst (validateX5CChain ?env (x5c_Root certs) (x5c_Intermediate certs) (x5c_Leaf certs) (NewCRLCache ())) = Inl e"
    by (intro exI conjI) (rule t, rule v)
  from mp [OF conjunct1 [OF crl_chain_before_network], OF disjI2, OF this,
      of sample_net "sample_http (Reply 200 [7] None)"] show ?thesis by auto
qed

end
