(* ===== verification/Drops.thy ===== *)
theory Drops
  imports Go_Strings
begin

text \<open>
  \<open>internal/attestation/pmwpaymentstatus/helper\<close>: XRP amounts in drops and account
  addresses. A \<open>*big.Int\<close> is an \<open>int\<close>, and an \<open>int option\<close> where the code tests it for
  \<open>nil\<close>. The XRPL address codec is a parameter.
\<close>

section \<open>Drops\<close>

definition MaxXRPDrops :: u64 where
  "MaxXRPDrops = 100000000000 * 1000000"

definition maxDropsDigits :: nat where
  "maxDropsDigits = 25"

text \<open>\<open>(*big.Int).IsUint64\<close> and \<open>(*big.Int).Uint64\<close>.\<close>

definition bigint_IsUint64 :: "int \<Rightarrow> bool" where
  "bigint_IsUint64 v = (0 \<le> v \<and> v < 2 ^ 64)"

definition bigint_Uint64 :: "int \<Rightarrow> u64" where
  "bigint_Uint64 v = word_of_int v"

definition ExceedsMaxXRPDrops :: "int option \<Rightarrow> bool" where
  "ExceedsMaxXRPDrops v =
     (case v of
        None \<Rightarrow> True
      | Some v \<Rightarrow> \<not> bigint_IsUint64 v \<or> bigint_Uint64 v > MaxXRPDrops)"

definition ParseNonNegativeBigInt :: "string \<Rightarrow> int result" where
  "ParseNonNegativeBigInt s =
     (if length s > maxDropsDigits then Inl Plain
      else (case bigint_SetString10 s of
              None \<Rightarrow> Inl Plain
            | Some i \<Rightarrow> if i < 0 then Inl Plain else Inr i))"

section \<open>Addresses\<close>

text \<open>The XRPL address codec: validity of an X-address, and its decoding.\<close>

record address_codec =
  IsValidXAddress :: "string \<Rightarrow> bool"
  XAddressToClassicAddress :: "string \<Rightarrow> string result"

definition NormalizeAddress :: "address_codec \<Rightarrow> string \<Rightarrow> string result" where
  "NormalizeAddress codec addr =
     (if \<not> IsValidXAddress codec addr then Inr addr
      else XAddressToClassicAddress codec addr)"

section \<open>Lemmas\<close>

lemma uint_MaxXRPDrops [simp]: "uint MaxXRPDrops = 10 ^ 17"
  by (simp add: MaxXRPDrops_def)

text \<open>The test is the interval \<open>[0, 10^17]\<close>: a negative value is refused as well.\<close>

lemma ExceedsMaxXRPDrops_iff:
  "\<not> ExceedsMaxXRPDrops v \<longleftrightarrow> (\<exists>i. v = Some i \<and> 0 \<le> i \<and> i \<le> 10 ^ 17)"
proof (cases v)
  case None
  then show ?thesis by (simp add: ExceedsMaxXRPDrops_def)
next
  case (Some i)
  have "uint (word_of_int i :: u64) = i" if "0 \<le> i" "i < 2 ^ 64"
    using that by (simp add: word_of_int_inverse)
  then have "MaxXRPDrops < word_of_int i \<longleftrightarrow> 10 ^ 17 < i" if "0 \<le> i" "i < 2 ^ 64"
    using that by (simp add: word_less_def)
  with Some show ?thesis
    by (auto simp: ExceedsMaxXRPDrops_def bigint_IsUint64_def bigint_Uint64_def)
qed

lemma ExceedsMaxXRPDrops_Some:
  "\<not> ExceedsMaxXRPDrops (Some i) \<longleftrightarrow> 0 \<le> i \<and> i \<le> 10 ^ 17"
  by (simp add: ExceedsMaxXRPDrops_iff)

lemma SetString10_bound: "bigint_SetString10 s = Some i \<Longrightarrow> \<bar>i\<bar> < 10 ^ length s"
proof -
  assume *: "bigint_SetString10 s = Some i"
  from * obtain t n where "decimal_value t = Some n" "\<bar>i\<bar> = int n" "length t \<le> length s"
    by (auto simp: bigint_SetString10_def split: list.splits if_splits)
  then have "n < 10 ^ length t" and "(10::nat) ^ length t \<le> 10 ^ length s"
    by (auto dest: decimal_value_bound)
  then have "n < 10 ^ length s" by linarith
  then have "int n < int (10 ^ length s)" by (simp only: of_nat_less_iff)
  with \<open>\<bar>i\<bar> = int n\<close> show ?thesis by simp
qed

lemma ParseNonNegativeBigInt_InrD:
  "ParseNonNegativeBigInt s = Inr i \<Longrightarrow>
     0 \<le> i \<and> i < 10 ^ 25 \<and> length s \<le> 25 \<and> bigint_SetString10 s = Some i"
proof -
  assume "ParseNonNegativeBigInt s = Inr i"
  then have *: "length s \<le> 25" "bigint_SetString10 s = Some i" "0 \<le> i"
    by (auto simp: ParseNonNegativeBigInt_def maxDropsDigits_def split: if_splits option.splits)
  then have "i < 10 ^ length s" using SetString10_bound [of s i] by simp
  also have "(10::int) ^ length s \<le> 10 ^ 25" by (rule power_increasing) (use * in auto)
  finally show ?thesis using * by simp
qed

text \<open>
  The errors of the parser carry no sentinel.
\<close>

lemma ParseNonNegativeBigInt_InlD: "ParseNonNegativeBigInt s = Inl e \<Longrightarrow> e = Plain"
  by (auto simp: ParseNonNegativeBigInt_def split: if_splits option.splits)

lemma ParseNonNegativeBigInt_digits:
  assumes "n < 10 ^ 25"
  shows "ParseNonNegativeBigInt (decimal_digits n) = Inr (int n)"
proof -
  have "length (decimal_digits n) \<le> 25"
    by (rule length_decimal_digits) (use assms in auto)
  then show ?thesis
    by (simp add: ParseNonNegativeBigInt_def maxDropsDigits_def SetString10_digits)
qed

end
