(* ===== verification/Instruction.thy ===== *)
theory Instruction
  imports Drops
begin

text \<open>
  \<open>internal/attestation/pmwpaymentstatus/instruction\<close>,
  \<open>internal/attestation/pmwfeeproof/instruction\<close> and \<open>helper/abi.go\<close>: the instruction
  identifier of a payment and the decoding of the \<open>TeeInstructionsSent\<close> event.

  go-ethereum and go-flare-common are parameters: the record \<open>tee_lib\<close> holds the functions of
  those packages the code calls, the record \<open>abi_def\<close> the two operations it uses of a parsed
  \<open>abi.ABI\<close>.
\<close>

section \<open>Data\<close>

datatype op_command = Pay | Reissue

text \<open>\<open>payments.ITeePaymentsPaymentInstructionMessage\<close>.\<close>

record pay_message =
  msg_SourceId :: hash
  msg_SenderAddress :: string
  msg_PaymentId :: u64
  msg_Nonce :: u64
  msg_RecipientAddress :: string
  msg_TokenId :: bytes
  msg_Amount :: "int option"
  msg_MaxFee :: "int option"
  msg_PaymentReference :: hash

text \<open>\<open>instructions.InstructionsTeeInstructionsSent\<close>, the event's wrapper.\<close>

record event_data =
  ev_OpType :: hash
  ev_OpCommand :: hash
  ev_Message :: bytes

text \<open>\<open>types.Log\<close> of go-ethereum, and \<open>database.Log\<close>, a row of the C-chain indexer.\<close>

record chain_log =
  cl_Topics :: "hash list"
  cl_Data :: bytes

record db_log =
  dl_Address :: string
  dl_Topic0 :: string
  dl_Topic1 :: string
  dl_Topic2 :: string
  dl_Data :: string
  dl_BlockNumber :: u64
  dl_LogIndex :: u64
  dl_Timestamp :: u64

text \<open>The ABI types of \<open>helper/abi.go\<close> and the values packed at them.\<close>

datatype abi_type = Bytes32Type | Uint64Type | StringType

datatype abi_value = VBytes32 hash | VUint64 u64 | VString string

fun abi_value_type :: "abi_value \<Rightarrow> abi_type" where
  "abi_value_type (VBytes32 _) = Bytes32Type"
| "abi_value_type (VUint64 _) = Uint64Type"
| "abi_value_type (VString _) = StringType"

record tee_lib =
  op_string :: "op_command \<Rightarrow> string"
  StringToCommonHash :: "string \<Rightarrow> hash result"
  abi_Pack :: "abi_type list \<Rightarrow> abi_value list \<Rightarrow> bytes result"
  Keccak256Hash :: "bytes \<Rightarrow> hash"
  structs_DecodeTo :: "op_command \<Rightarrow> bytes \<Rightarrow> pay_message result"
  Hash_Hex :: "hash \<Rightarrow> string"
  Address_Hex :: "address \<Rightarrow> string"
  ConvertDatabaseLogToChainLog :: "db_log \<Rightarrow> chain_log result"
  Hex32StringToCommonHash :: "string \<Rightarrow> hash result"

record abi_def =
  abi_EventID :: "string \<Rightarrow> hash option"
  abi_UnpackIntoInterface :: "string \<Rightarrow> bytes \<Rightarrow> event_data result"

section \<open>Instruction identifiers\<close>

definition instruction_args :: "abi_type list" where
  "instruction_args =
     [Bytes32Type, Bytes32Type, Bytes32Type, StringType, Uint64Type, Uint64Type]"

definition GenerateInstructionID ::
  "tee_lib \<Rightarrow> hash \<Rightarrow> hash \<Rightarrow> string \<Rightarrow> u64 \<Rightarrow> hash result" where
  "GenerateInstructionID lib opType sourceID accountAddress paymentId =
     rbind (map_error wrap1 (StringToCommonHash lib (op_string lib Pay))) (\<lambda>PAY.
     rbind (map_error wrap1 (abi_Pack lib instruction_args
              [VBytes32 opType, VBytes32 PAY, VBytes32 sourceID, VString accountAddress,
               VUint64 paymentId, VUint64 0])) (\<lambda>packed.
     Inr (Keccak256Hash lib packed)))"

text \<open>\<open>GeneratePayInstructionID\<close> is an alias.\<close>

abbreviation GeneratePayInstructionID ::
  "tee_lib \<Rightarrow> hash \<Rightarrow> hash \<Rightarrow> string \<Rightarrow> u64 \<Rightarrow> hash result" where
  "GeneratePayInstructionID \<equiv> GenerateInstructionID"

definition GenerateReissueInstructionID ::
  "tee_lib \<Rightarrow> hash \<Rightarrow> hash \<Rightarrow> string \<Rightarrow> u64 \<Rightarrow> u64 \<Rightarrow> hash result" where
  "GenerateReissueInstructionID lib opType sourceID accountAddress paymentId reissueNumber =
     rbind (map_error wrap1 (StringToCommonHash lib (op_string lib Reissue))) (\<lambda>reissue.
     rbind (map_error wrap1 (abi_Pack lib instruction_args
              [VBytes32 opType, VBytes32 reissue, VBytes32 sourceID, VString accountAddress,
               VUint64 paymentId, VUint64 reissueNumber])) (\<lambda>packed.
     Inr (Keccak256Hash lib packed)))"

section \<open>The TeeInstructionsSent event\<close>

definition EventNameTeeInstructionsSent :: string where
  "EventNameTeeInstructionsSent = ''TeeInstructionsSent''"

definition TeeInstructionsSentEventSignature :: "tee_lib \<Rightarrow> abi_def \<Rightarrow> string result" where
  "TeeInstructionsSentEventSignature lib abiDef =
     (case abi_EventID abiDef EventNameTeeInstructionsSent of
        None \<Rightarrow> Inl Plain
      | Some ID \<Rightarrow> Inr (Hash_Hex lib ID))"

definition maxEventDataSize :: nat where
  "maxEventDataSize = 2 ^ 20"

definition abiDecodeEventData :: "abi_def \<Rightarrow> string \<Rightarrow> bytes \<Rightarrow> event_data result" where
  "abiDecodeEventData abiObj eventName data =
     map_error wrap1 (abi_UnpackIntoInterface abiObj eventName data)"

definition decodeInstructionEnvelope ::
  "tee_lib \<Rightarrow> chain_log \<Rightarrow> abi_def \<Rightarrow> op_command \<Rightarrow> hash \<Rightarrow> bytes result" where
  "decodeInstructionEnvelope lib log teeABI command expectedOpType =
     rbind (ensure (\<not> length (cl_Data log) > maxEventDataSize) (tag ErrDataSource)) (\<lambda>_.
     rbind (map_error (tag_with ErrDataSource)
              (abiDecodeEventData teeABI EventNameTeeInstructionsSent (cl_Data log))) (\<lambda>eventData.
     rbind (ensure (ev_OpType eventData = expectedOpType) (tag ErrDatabase)) (\<lambda>_.
     rbind (map_error wrap1 (StringToCommonHash lib (op_string lib command))) (\<lambda>expectedOpCommand.
     rbind (ensure (ev_OpCommand eventData = expectedOpCommand) (tag ErrDatabase)) (\<lambda>_.
     Inr (ev_Message eventData))))))"

definition DecodeTeeInstructionsSentEventData ::
  "tee_lib \<Rightarrow> chain_log \<Rightarrow> abi_def \<Rightarrow> op_command \<Rightarrow> hash \<Rightarrow> pay_message result" where
  "DecodeTeeInstructionsSentEventData lib log teeABI command expectedOpType =
     rbind (decodeInstructionEnvelope lib log teeABI command expectedOpType) (\<lambda>messageData.
     map_error (tag_with ErrDataSource) (structs_DecodeTo lib command messageData))"

section \<open>Consistency of a decoded event with the request\<close>

definition CheckInstructionConsistency ::
  "pay_message \<Rightarrow> hash \<Rightarrow> string \<Rightarrow> u64 \<Rightarrow> unit result" where
  "CheckInstructionConsistency msg sourceID senderAddress paymentId =
     rbind (ensure (msg_SourceId msg = sourceID) (tag ErrDatabase)) (\<lambda>_.
     rbind (ensure (msg_SenderAddress msg = senderAddress) (tag ErrDatabase)) (\<lambda>_.
     ensure (msg_PaymentId msg = paymentId) (tag ErrDatabase)))"

section \<open>What the libraries are relied on for\<close>

text \<open>
  ABI encoding at fixed argument types is injective, and the two command names have
  different 32-byte encodings.
\<close>

definition pack_injective :: "tee_lib \<Rightarrow> bool" where
  "pack_injective lib \<longleftrightarrow>
     (\<forall>vs ws b. map abi_value_type vs = instruction_args \<longrightarrow> map abi_value_type ws = instruction_args \<longrightarrow>
        abi_Pack lib instruction_args vs = Inr b \<longrightarrow> abi_Pack lib instruction_args ws = Inr b \<longrightarrow> vs = ws)"

definition commands_distinct :: "tee_lib \<Rightarrow> bool" where
  "commands_distinct lib \<longleftrightarrow>
     (\<forall>h. \<not> (StringToCommonHash lib (op_string lib Pay) = Inr h \<and>
              StringToCommonHash lib (op_string lib Reissue) = Inr h))"

text \<open>\<open>common.Hash.Hex\<close> prints 66 characters and is injective.\<close>

definition hex_ok :: "tee_lib \<Rightarrow> bool" where
  "hex_ok lib \<longleftrightarrow> (\<forall>h. length (Hash_Hex lib h) = 66) \<and> inj (Hash_Hex lib)"

text \<open>Two different byte strings with one Keccak-256 digest.\<close>

definition keccak_collision :: "tee_lib \<Rightarrow> bytes \<Rightarrow> bytes \<Rightarrow> bool" where
  "keccak_collision lib b c \<longleftrightarrow> b \<noteq> c \<and> Keccak256Hash lib b = Keccak256Hash lib c"

definition tee_lib_foreign :: "tee_lib \<Rightarrow> bool" where
  "tee_lib_foreign lib \<longleftrightarrow>
     (\<forall>s. foreign_result (StringToCommonHash lib s)) \<and>
     (\<forall>ts vs. foreign_result (abi_Pack lib ts vs)) \<and>
     (\<forall>c b. foreign_result (structs_DecodeTo lib c b)) \<and>
     (\<forall>l. foreign_result (ConvertDatabaseLogToChainLog lib l)) \<and>
     (\<forall>s. foreign_result (Hex32StringToCommonHash lib s))"

definition abi_def_foreign :: "abi_def \<Rightarrow> bool" where
  "abi_def_foreign a \<longleftrightarrow> (\<forall>n b. foreign_result (abi_UnpackIntoInterface a n b))"

section \<open>Lemmas\<close>

lemma GenerateInstructionID_InrD:
  "GenerateInstructionID lib op src acc n = Inr h \<Longrightarrow>
     \<exists>PAY b. StringToCommonHash lib (op_string lib Pay) = Inr PAY \<and>
       abi_Pack lib instruction_args
         [VBytes32 op, VBytes32 PAY, VBytes32 src, VString acc, VUint64 n, VUint64 0] = Inr b \<and>
       h = Keccak256Hash lib b"
  by (auto simp: GenerateInstructionID_def result_simps)

lemma GenerateReissueInstructionID_InrD:
  "GenerateReissueInstructionID lib op src acc n k = Inr h \<Longrightarrow>
     \<exists>R b. StringToCommonHash lib (op_string lib Reissue) = Inr R \<and>
       abi_Pack lib instruction_args
         [VBytes32 op, VBytes32 R, VBytes32 src, VString acc, VUint64 n, VUint64 k] = Inr b \<and>
       h = Keccak256Hash lib b"
  by (auto simp: GenerateReissueInstructionID_def result_simps)

text \<open>Equal digests of packed tuples come from equal tuples, or exhibit a collision.\<close>

lemma packed_eq:
  assumes "pack_injective lib"
    and "map abi_value_type vs = instruction_args" and "map abi_value_type ws = instruction_args"
    and "abi_Pack lib instruction_args vs = Inr b" and "abi_Pack lib instruction_args ws = Inr c"
    and "Keccak256Hash lib b = Keccak256Hash lib c"
  shows "vs = ws \<or> keccak_collision lib b c"
proof (cases "b = c")
  case True
  with assms show ?thesis unfolding pack_injective_def by blast
next
  case False
  with assms(6) show ?thesis by (simp add: keccak_collision_def)
qed

lemma decode_InrD:
  "DecodeTeeInstructionsSentEventData lib log teeABI command opType = Inr msg \<Longrightarrow>
     \<exists>ev h. length (cl_Data log) \<le> maxEventDataSize \<and>
       abi_UnpackIntoInterface teeABI EventNameTeeInstructionsSent (cl_Data log) = Inr ev \<and>
       ev_OpType ev = opType \<and> StringToCommonHash lib (op_string lib command) = Inr h \<and>
       ev_OpCommand ev = h \<and> structs_DecodeTo lib command (ev_Message ev) = Inr msg"
  by (auto simp: DecodeTeeInstructionsSentEventData_def decodeInstructionEnvelope_def
      abiDecodeEventData_def result_simps not_less)

lemma CheckInstructionConsistency_ok_iff:
  "CheckInstructionConsistency msg src sender n = Inr () \<longleftrightarrow>
     msg_SourceId msg = src \<and> msg_SenderAddress msg = sender \<and> msg_PaymentId msg = n"
  by (auto simp: CheckInstructionConsistency_def result_simps)

lemma CheckInstructionConsistency_InlD:
  "CheckInstructionConsistency msg src sender n = Inl e \<Longrightarrow> e = tag ErrDatabase"
  by (auto simp: CheckInstructionConsistency_def result_simps)

end
