(* ===== verification/Config.thy ===== *)
theory Config
  imports X509 Instruction
begin

text \<open>
  \<open>internal/config\<close>: the environment of a deployment, its validation, and the per-type
  configurations built from it. Environment variables are kept under the names of
  \<open>EnvConfig\<close>; a missing variable is the empty string.

  The attestation-type constants, the ABI tables and address parsing come from
  go-flare-common and go-ethereum; \<open>config_lib\<close> collects them. An \<open>abi.Argument\<close> is an opaque handle.
\<close>

section \<open>Names\<close>

datatype attestation_type =
    AvailabilityCheck | PMWMultisigAccountConfigured | PMWPaymentStatus | PMWFeeProof
  | OtherAttestationType string

type_synonym source_name = string
type_synonym abi_argument = nat

definition SourceTEE :: source_name where "SourceTEE = ''TEE''"
definition SourceXRP :: source_name where "SourceXRP = ''XRP''"
definition SourceTestXRP :: source_name where "SourceTestXRP = ''testXRP''"

definition DefaultTeeAudience :: string where
  "DefaultTeeAudience = ''https://sts.google.com''"

definition EnvSourceRPCURL :: string where "EnvSourceRPCURL = ''SOURCE_RPC_URL''"
definition EnvFlareRPCURL :: string where "EnvFlareRPCURL = ''FLARE_RPC_URL''"
definition EnvRelayContractAddress :: string where
  "EnvRelayContractAddress = ''RELAY_CONTRACT_ADDRESS''"
definition EnvFlareTeeManagerContractAddress :: string where
  "EnvFlareTeeManagerContractAddress = ''FLARE_TEE_MANAGER_CONTRACT_ADDRESS''"
definition EnvTeePaymentsContractAddress :: string where
  "EnvTeePaymentsContractAddress = ''TEE_PAYMENTS_CONTRACT_ADDRESS''"
definition EnvSourceDatabaseURL :: string where "EnvSourceDatabaseURL = ''SOURCE_DATABASE_URL''"
definition EnvCChainDatabaseURL :: string where "EnvCChainDatabaseURL = ''CCHAIN_DATABASE_URL''"

lemmas env_names = EnvSourceRPCURL_def EnvFlareRPCURL_def EnvRelayContractAddress_def
  EnvFlareTeeManagerContractAddress_def EnvTeePaymentsContractAddress_def EnvSourceDatabaseURL_def
  EnvCChainDatabaseURL_def

record config_lib =
  att_name :: "attestation_type \<Rightarrow> string"
  cfg_StringToCommonHash :: "string \<Rightarrow> hash result"
  fdc2_ABI :: "(string \<rightharpoonup> abi_argument list) result"
  instructions_ABI :: "abi_def result"
  IsHexAddress :: "string \<Rightarrow> bool"
  HexToAddress :: "string \<Rightarrow> address"
  cfg_x509 :: x509_lib
  rootCertBytes :: bytes

section \<open>Environment\<close>

record EnvConfig =
  env_SourceRPCURL :: string
  env_FlareRPCURL :: string
  env_RelayContractAddress :: string
  env_RelayCutoverContractAddress :: string
  env_RelayCutoverStartingRewardEpoch :: string
  env_FlareTeeManagerContractAddress :: string
  env_TeePaymentsContractAddress :: string
  env_SourceDatabaseURL :: string
  env_CChainDatabaseURL :: string
  env_AllowTeeDebug :: string
  env_DisableAttestationCheckE2E :: string
  env_AllowPrivateNetworks :: string
  env_TeeAudience :: string
  env_ChainID :: string
  env_DestinationChainURLSlug :: string
  env_SourceURLSlug :: string
  env_Port :: string
  env_APIKeys :: "string list"
  env_AttestationType :: attestation_type
  env_AttestationTypes :: "attestation_type list"
  env_SourceID :: source_name

definition ServedAttestationTypes :: "EnvConfig \<Rightarrow> attestation_type list" where
  "ServedAttestationTypes c =
     (if length (env_AttestationTypes c) > 0 then env_AttestationTypes c
      else if env_AttestationType c \<noteq> OtherAttestationType '''' then [env_AttestationType c]
      else [])"

definition SourceAttestationTypes :: "source_name \<rightharpoonup> attestation_type list" where
  "SourceAttestationTypes =
     [SourceTEE \<mapsto> [AvailabilityCheck],
      SourceXRP \<mapsto> [PMWMultisigAccountConfigured, PMWPaymentStatus, PMWFeeProof],
      SourceTestXRP \<mapsto> [PMWMultisigAccountConfigured, PMWPaymentStatus, PMWFeeProof]]"

definition AttestationTypesForSource :: "source_name \<Rightarrow> attestation_type list option" where
  "AttestationTypesForSource source = SourceAttestationTypes source"

section \<open>URL slugs\<close>

definition is_lower :: "char \<Rightarrow> bool" where
  "is_lower c = (let n = (of_char c :: nat) in 97 \<le> n \<and> n \<le> 122)"

definition is_slug_char :: "char \<Rightarrow> bool" where
  "is_slug_char c = (is_lower c \<or> digit_value c \<noteq> None \<or> c = CHR ''-'')"

text \<open>\<open>^[a-z][a-z0-9-]{0,31}$\<close>\<close>

definition urlSlugPattern :: "string \<Rightarrow> bool" where
  "urlSlugPattern s =
     (case s of [] \<Rightarrow> False | c # cs \<Rightarrow> is_lower c \<and> list_all is_slug_char cs \<and> length cs \<le> 31)"

definition DeploymentPrefix :: "string \<Rightarrow> string \<Rightarrow> string" where
  "DeploymentPrefix sourceSlug destinationSlug =
     ''/verifier/'' @ sourceSlug @ ''/'' @ destinationSlug"

definition SourceURLSlug :: "source_name \<Rightarrow> string \<Rightarrow> string result" where
  "SourceURLSlug source override =
     (if override = '''' then Inr (strings_ToLower source)
      else if \<not> urlSlugPattern override then Inl Plain
      else Inr override)"

definition ValidateDestinationChainURLSlug :: "string \<Rightarrow> unit result" where
  "ValidateDestinationChainURLSlug slug =
     (if slug = '''' then Inl Plain
      else if \<not> urlSlugPattern slug then Inl Plain
      else Inr ())"

section \<open>Shared configuration\<close>

record EncodedAndABI =
  enc_SourceID :: source_name
  enc_SourceIDEncoded :: hash
  enc_AttestationType :: attestation_type
  enc_AttestationTypeEncoded :: hash
  enc_Request :: abi_argument
  enc_Response :: abi_argument
  enc_DestinationChainSlug :: string
  enc_SourceURLSlug :: string

definition EncodeAttestationOrSourceName :: "config_lib \<Rightarrow> string \<Rightarrow> hash result" where
  "EncodeAttestationOrSourceName lib name =
     (if length name \<ge> 2 \<and> (take 2 name = ''0x'' \<or> take 2 name = ''0X'') then Inl Plain
      else cfg_StringToCommonHash lib name)"

fun abiStructNames :: "attestation_type \<Rightarrow> (string \<times> string) option" where
  "abiStructNames AvailabilityCheck =
     Some (''availabilityCheckRequestBodyStruct'', ''availabilityCheckResponseBodyStruct'')"
| "abiStructNames PMWMultisigAccountConfigured =
     Some (''pmwMultisigAccountConfiguredRequestBodyStruct'',
           ''pmwMultisigAccountConfiguredResponseBodyStruct'')"
| "abiStructNames PMWPaymentStatus =
     Some (''pmwPaymentStatusRequestBodyStruct'', ''pmwPaymentStatusResponseBodyStruct'')"
| "abiStructNames PMWFeeProof =
     Some (''pmwFeeProofRequestBodyStruct'', ''pmwFeeProofResponseBodyStruct'')"
| "abiStructNames (OtherAttestationType s) = None"

definition getABIArguments :: "config_lib \<Rightarrow> string \<Rightarrow> abi_argument result" where
  "getABIArguments lib structNeeded =
     rbind (map_error wrap1 (fdc2_ABI lib)) (\<lambda>methods.
     case methods structNeeded of
       None \<Rightarrow> Inl Plain
     | Some inputs \<Rightarrow> if length inputs \<noteq> 1 then Inl Plain else Inr (inputs ! 0))"

definition LoadEncodedAndABI :: "config_lib \<Rightarrow> EnvConfig \<Rightarrow> EncodedAndABI result" where
  "LoadEncodedAndABI lib env =
     (case abiStructNames (env_AttestationType env) of
        None \<Rightarrow> Inl Plain
      | Some (req, resp) \<Rightarrow>
          rbind (ValidateDestinationChainURLSlug (env_DestinationChainURLSlug env)) (\<lambda>_.
          rbind (SourceURLSlug (env_SourceID env) (env_SourceURLSlug env)) (\<lambda>sourceSlug.
          rbind (EncodeAttestationOrSourceName lib (env_SourceID env)) (\<lambda>sourceIDEnc.
          rbind (EncodeAttestationOrSourceName lib (att_name lib (env_AttestationType env)))
            (\<lambda>attestationTypeEnc.
          rbind (getABIArguments lib req) (\<lambda>requestABI.
          rbind (getABIArguments lib resp) (\<lambda>responseABI.
          Inr \<lparr>enc_SourceID = env_SourceID env, enc_SourceIDEncoded = sourceIDEnc,
               enc_AttestationType = env_AttestationType env,
               enc_AttestationTypeEncoded = attestationTypeEnc,
               enc_Request = requestABI, enc_Response = responseABI,
               enc_DestinationChainSlug = env_DestinationChainURLSlug env,
               enc_SourceURLSlug = sourceSlug\<rparr>)))))))"

fun env_field :: "EnvConfig \<Rightarrow> string \<Rightarrow> string option" where
  "env_field cfg field =
     (if field = EnvSourceRPCURL then Some (env_SourceRPCURL cfg)
      else if field = EnvFlareRPCURL then Some (env_FlareRPCURL cfg)
      else if field = EnvRelayContractAddress then Some (env_RelayContractAddress cfg)
      else if field = EnvFlareTeeManagerContractAddress then Some (env_FlareTeeManagerContractAddress cfg)
      else if field = EnvTeePaymentsContractAddress then Some (env_TeePaymentsContractAddress cfg)
      else if field = EnvSourceDatabaseURL then Some (env_SourceDatabaseURL cfg)
      else if field = EnvCChainDatabaseURL then Some (env_CChainDatabaseURL cfg)
      else None)"

definition CheckMissingFields :: "EnvConfig \<Rightarrow> string list \<Rightarrow> unit result" where
  "CheckMissingFields cfg names =
     (let missing = filter (\<lambda>field. env_field cfg field = Some '''') names
      in if length missing > 0 then Inl Plain else Inr ())"

definition parseContractAddress :: "config_lib \<Rightarrow> string \<Rightarrow> address result" where
  "parseContractAddress lib raw =
     (if \<not> IsHexAddress lib raw then Inl Plain
      else let addr = HexToAddress lib raw
           in if addr = 0 then Inl Plain else Inr addr)"

section \<open>Payment status, fee proof and multisig\<close>

text \<open>The two configurations that read the indexers have the same fields.\<close>

record PMWPaymentStatusConfig =
  pc_enc :: EncodedAndABI
  pc_SourceDatabaseURL :: string
  pc_CchainDatabaseURL :: string
  pc_FlareTeeManagerContractAddress :: address
  pc_TeePaymentsContractAddress :: address
  pc_FlareRPCURL :: string
  pc_ParsedTeeInstructionsABI :: abi_def

type_synonym PMWFeeProofConfig = PMWPaymentStatusConfig

definition BuildPMWPaymentStatusConfig ::
  "config_lib \<Rightarrow> EnvConfig \<Rightarrow> PMWPaymentStatusConfig result" where
  "BuildPMWPaymentStatusConfig lib env =
     rbind (CheckMissingFields env
              [EnvCChainDatabaseURL, EnvSourceDatabaseURL, EnvFlareTeeManagerContractAddress,
               EnvTeePaymentsContractAddress, EnvFlareRPCURL]) (\<lambda>_.
     rbind (parseContractAddress lib (env_FlareTeeManagerContractAddress env)) (\<lambda>flareTeeManagerAddr.
     rbind (parseContractAddress lib (env_TeePaymentsContractAddress env)) (\<lambda>teePaymentsAddr.
     rbind (LoadEncodedAndABI lib env) (\<lambda>commonConfig.
     rbind (map_error wrap1 (instructions_ABI lib)) (\<lambda>parsedTeeInstructionsABI.
     Inr \<lparr>pc_enc = commonConfig,
          pc_SourceDatabaseURL = env_SourceDatabaseURL env,
          pc_CchainDatabaseURL = env_CChainDatabaseURL env,
          pc_FlareTeeManagerContractAddress = flareTeeManagerAddr,
          pc_TeePaymentsContractAddress = teePaymentsAddr,
          pc_FlareRPCURL = env_FlareRPCURL env,
          pc_ParsedTeeInstructionsABI = parsedTeeInstructionsABI\<rparr>)))))"

definition BuildPMWFeeProofConfig ::
  "config_lib \<Rightarrow> EnvConfig \<Rightarrow> PMWFeeProofConfig result" where
  "BuildPMWFeeProofConfig lib env =
     rbind (CheckMissingFields env
              [EnvCChainDatabaseURL, EnvSourceDatabaseURL, EnvFlareTeeManagerContractAddress,
               EnvTeePaymentsContractAddress, EnvFlareRPCURL]) (\<lambda>_.
     rbind (parseContractAddress lib (env_FlareTeeManagerContractAddress env)) (\<lambda>flareTeeManagerAddr.
     rbind (parseContractAddress lib (env_TeePaymentsContractAddress env)) (\<lambda>teePaymentsAddr.
     rbind (LoadEncodedAndABI lib env) (\<lambda>commonConfig.
     rbind (map_error wrap1 (instructions_ABI lib)) (\<lambda>parsedTeeInstructionsABI.
     Inr \<lparr>pc_enc = commonConfig,
          pc_SourceDatabaseURL = env_SourceDatabaseURL env,
          pc_CchainDatabaseURL = env_CChainDatabaseURL env,
          pc_FlareTeeManagerContractAddress = flareTeeManagerAddr,
          pc_TeePaymentsContractAddress = teePaymentsAddr,
          pc_FlareRPCURL = env_FlareRPCURL env,
          pc_ParsedTeeInstructionsABI = parsedTeeInstructionsABI\<rparr>)))))"

record PMWMultisigAccountConfig =
  mc_enc :: EncodedAndABI
  mc_SourceRPCURL :: string

definition BuildPMWMultisigAccountConfiguredConfig ::
  "config_lib \<Rightarrow> EnvConfig \<Rightarrow> PMWMultisigAccountConfig result" where
  "BuildPMWMultisigAccountConfiguredConfig lib env =
     rbind (CheckMissingFields env [EnvSourceRPCURL]) (\<lambda>_.
     rbind (LoadEncodedAndABI lib env) (\<lambda>commonConfig.
     Inr \<lparr>mc_enc = commonConfig, mc_SourceRPCURL = env_SourceRPCURL env\<rparr>))"

section \<open>TEE availability check\<close>

record TeeAvailabilityCheckConfig =
  tc_enc :: EncodedAndABI
  tc_RelayContractAddress :: address
  tc_RelayCutoverContractAddress :: address
  tc_RelayCutoverStartingRewardEpoch :: u32
  tc_AllowTeeDebug :: bool
  tc_DisableAttestationCheckE2E :: bool
  tc_AllowPrivateNetworks :: bool
  tc_FlareRPCURL :: string
  tc_GoogleRootCertificate :: x509_Certificate
  tc_TeeAudience :: string
  tc_ChainID :: u64

definition parseRelayCutover ::
  "config_lib \<Rightarrow> EnvConfig \<Rightarrow> address \<Rightarrow> (address \<times> u32) result" where
  "parseRelayCutover lib env relayAddr =
     (if env_RelayCutoverContractAddress env = '''' \<and> env_RelayCutoverStartingRewardEpoch env = ''''
      then Inr (0, 0)
      else if env_RelayCutoverContractAddress env = '''' \<or> env_RelayCutoverStartingRewardEpoch env = ''''
      then Inl Plain
      else rbind (parseContractAddress lib (env_RelayCutoverContractAddress env)) (\<lambda>cutoverRelayAddr.
           if cutoverRelayAddr = relayAddr then Inl Plain
           else rbind (map_error wrap1
                        (strconv_ParseUint10 (env_RelayCutoverStartingRewardEpoch env) 24))
                (\<lambda>startingRewardEpoch.
                if startingRewardEpoch = 0 then Inl Plain
                else Inr (cutoverRelayAddr, word_of_nat startingRewardEpoch))))"

definition parseOptionalBool :: "string \<Rightarrow> bool result" where
  "parseOptionalBool val =
     (if val = '''' then Inr False else map_error wrap1 (strconv_ParseBool val))"

definition loadGoogleRootCertFromBytes :: "x509_lib \<Rightarrow> bytes \<Rightarrow> x509_Certificate result" where
  "loadGoogleRootCertFromBytes x data =
     (case pem_Decode x data of
        None \<Rightarrow> Inl Plain
      | Some block \<Rightarrow> map_error wrap1 (x509_ParseCertificate x block))"

definition LoadGoogleRootCert :: "config_lib \<Rightarrow> x509_Certificate result" where
  "LoadGoogleRootCert lib = loadGoogleRootCertFromBytes (cfg_x509 lib) (rootCertBytes lib)"

definition BuildTeeAvailabilityCheckConfig ::
  "config_lib \<Rightarrow> EnvConfig \<Rightarrow> TeeAvailabilityCheckConfig result" where
  "BuildTeeAvailabilityCheckConfig lib env =
     (if env_SourceID env \<noteq> SourceTEE then Inl Plain
      else
      rbind (CheckMissingFields env [EnvRelayContractAddress, EnvFlareRPCURL]) (\<lambda>_.
      rbind (parseContractAddress lib (env_RelayContractAddress env)) (\<lambda>relayAddr.
      rbind (parseRelayCutover lib env relayAddr) (\<lambda>(cutoverRelayAddr, cutoverStartingEpoch).
      rbind (LoadGoogleRootCert lib) (\<lambda>googleRootCert.
      rbind (LoadEncodedAndABI lib env) (\<lambda>commonConfig.
      rbind (parseOptionalBool (env_AllowTeeDebug env)) (\<lambda>allowTeeDebug.
      rbind (parseOptionalBool (env_DisableAttestationCheckE2E env)) (\<lambda>disableAttestationCheckE2E.
      rbind (parseOptionalBool (env_AllowPrivateNetworks env)) (\<lambda>allowPrivateNetworks.
      rbind (ensure (env_ChainID env \<noteq> '''') Plain) (\<lambda>_.
      rbind (map_error wrap1 (strconv_ParseUint10 (env_ChainID env) 64)) (\<lambda>chainID.
      rbind (ensure (chainID \<noteq> 0) Plain) (\<lambda>_.
      let teeAudience = (if env_TeeAudience env = '''' then DefaultTeeAudience else env_TeeAudience env)
      in Inr \<lparr>tc_enc = commonConfig,
              tc_RelayContractAddress = relayAddr,
              tc_RelayCutoverContractAddress = cutoverRelayAddr,
              tc_RelayCutoverStartingRewardEpoch = cutoverStartingEpoch,
              tc_AllowTeeDebug = allowTeeDebug,
              tc_DisableAttestationCheckE2E = disableAttestationCheckE2E,
              tc_AllowPrivateNetworks = allowPrivateNetworks,
              tc_FlareRPCURL = env_FlareRPCURL env,
              tc_GoogleRootCertificate = googleRootCert,
              tc_TeeAudience = teeAudience,
              tc_ChainID = word_of_nat chainID\<rparr>))))))))))))"

section \<open>Loading once\<close>

text \<open>
  Each \<open>Load...Config\<close> keeps the result of its first call in a package variable behind a
  \<open>sync.Once\<close>: \<open>None\<close> before the first call, then that result, error or not, for every
  later call and whatever environment it is given. The \<open>Clear...ForTest\<close> functions reset it.
\<close>

type_synonym 'c once = "'c result option"

definition once_Do :: "(EnvConfig \<Rightarrow> 'c result) \<Rightarrow> EnvConfig \<Rightarrow> 'c once \<Rightarrow> 'c result \<times> 'c once" where
  "once_Do build env s = (case s of Some r \<Rightarrow> (r, s) | None \<Rightarrow> (build env, Some (build env)))"

definition LoadPMWPaymentStatusConfig ::
  "config_lib \<Rightarrow> EnvConfig \<Rightarrow> PMWPaymentStatusConfig once \<Rightarrow> PMWPaymentStatusConfig result \<times> PMWPaymentStatusConfig once" where
  "LoadPMWPaymentStatusConfig lib = once_Do (BuildPMWPaymentStatusConfig lib)"

definition LoadPMWFeeProofConfig ::
  "config_lib \<Rightarrow> EnvConfig \<Rightarrow> PMWFeeProofConfig once \<Rightarrow> PMWFeeProofConfig result \<times> PMWFeeProofConfig once" where
  "LoadPMWFeeProofConfig lib = once_Do (BuildPMWFeeProofConfig lib)"

definition LoadPMWMultisigAccountConfiguredConfig ::
  "config_lib \<Rightarrow> EnvConfig \<Rightarrow> PMWMultisigAccountConfig once \<Rightarrow>
   PMWMultisigAccountConfig result \<times> PMWMultisigAccountConfig once" where
  "LoadPMWMultisigAccountConfiguredConfig lib = once_Do (BuildPMWMultisigAccountConfiguredConfig lib)"

definition LoadTeeAvailabilityCheckConfig ::
  "config_lib \<Rightarrow> EnvConfig \<Rightarrow> TeeAvailabilityCheckConfig once \<Rightarrow>
   TeeAvailabilityCheckConfig result \<times> TeeAvailabilityCheckConfig once" where
  "LoadTeeAvailabilityCheckConfig lib = once_Do (BuildTeeAvailabilityCheckConfig lib)"

definition ClearTeeAvailabilityCheckConfigForTest ::
  "TeeAvailabilityCheckConfig once \<Rightarrow> TeeAvailabilityCheckConfig once" where
  "ClearTeeAvailabilityCheckConfigForTest s = None"

section \<open>Lemmas\<close>

lemma parseContractAddress_ok_iff:
  "parseContractAddress lib raw = Inr a \<longleftrightarrow> IsHexAddress lib raw \<and> a = HexToAddress lib raw \<and> a \<noteq> 0"
  by (auto simp: parseContractAddress_def Let_def)

lemma CheckMissingFields_ok_iff:
  "CheckMissingFields cfg names = Inr () \<longleftrightarrow> (\<forall>f \<in> set names. env_field cfg f \<noteq> Some '''')"
  by (auto simp: CheckMissingFields_def Let_def filter_empty_conv)

definition true_words :: "string list" where
  "true_words = [''1'', ''t'', ''T'', ''TRUE'', ''true'', ''True'']"

lemma parseOptionalBool_ok: "parseOptionalBool v = Inr b \<Longrightarrow> b \<longleftrightarrow> v \<in> set true_words"
  by (auto simp: parseOptionalBool_def strconv_ParseBool_def true_words_def split: if_splits)

lemma urlSlug_chars: "urlSlugPattern s \<Longrightarrow> c \<in> set s \<Longrightarrow> is_slug_char c"
  by (cases s) (auto simp: urlSlugPattern_def is_slug_char_def list_all_iff)

lemma slug_no_slash: "urlSlugPattern s \<Longrightarrow> CHR ''/'' \<notin> set s"
  using urlSlug_chars [of s "CHR ''/''"]
  by (auto simp: is_slug_char_def is_lower_def digit_value_def)

lemma append_sep_inj: "c \<notin> set a \<Longrightarrow> c \<notin> set b \<Longrightarrow> a @ c # x = b @ c # y \<Longrightarrow> a = b \<and> x = y"
proof (induction a arbitrary: b)
  case Nil
  then show ?case by (cases b) auto
next
  case (Cons d a)
  then show ?case by (cases b) auto
qed

lemma slug_ok_iff: "ValidateDestinationChainURLSlug s = Inr () \<longleftrightarrow> urlSlugPattern s"
  by (cases s) (auto simp: ValidateDestinationChainURLSlug_def urlSlugPattern_def)

lemma LoadEncodedAndABI_InrD:
  "LoadEncodedAndABI lib env = Inr c \<Longrightarrow>
     urlSlugPattern (enc_DestinationChainSlug c) \<and> enc_SourceID c = env_SourceID env \<and>
     enc_AttestationType c = env_AttestationType env \<and>
     EncodeAttestationOrSourceName lib (env_SourceID env) = Inr (enc_SourceIDEncoded c) \<and>
     EncodeAttestationOrSourceName lib (att_name lib (env_AttestationType env)) =
       Inr (enc_AttestationTypeEncoded c) \<and>
     SourceURLSlug (env_SourceID env) (env_SourceURLSlug env) = Inr (enc_SourceURLSlug c)"
  by (auto simp: LoadEncodedAndABI_def result_simps slug_ok_iff split: option.splits)

lemma ParseUint10_nonzero_word:
  assumes "strconv_ParseUint10 s k = Inr n" and "k \<le> LENGTH('a::len)"
  shows "unat (word_of_nat n :: 'a word) = n"
proof -
  have "n < 2 ^ LENGTH('a)"
    using ParseUint10_range [OF assms(1)] assms(2)
    by (meson less_le_trans one_le_numeral power_increasing)
  then show ?thesis by (simp add: unat_of_nat)
qed

lemma ParseUint10_ok_iff:
  "strconv_ParseUint10 s k = Inr n \<longleftrightarrow> decimal_value s = Some n \<and> n < 2 ^ k"
  by (auto simp: strconv_ParseUint10_def split: option.splits)

lemma decimal_value_nonempty: "decimal_value s = Some v \<Longrightarrow> s \<noteq> ''''"
  by (auto simp: decimal_value_def)

section \<open>Properties\<close>

text \<open>
  C19. The Relay cutover is all or nothing. \<open>parseRelayCutover\<close> succeeds exactly when both
  settings are absent, giving no cutover, or both are present, the address is a valid
  non-zero one different from the current Relay and the epoch is a decimal number
  between 1 and \<open>2^24 - 1\<close>, which is kept without truncation.
\<close>

theorem relay_cutover_exact:
  "parseRelayCutover lib env relayAddr = Inr (a, e) \<longleftrightarrow>
     (env_RelayCutoverContractAddress env = '''' \<and> env_RelayCutoverStartingRewardEpoch env = '''' \<and>
      a = 0 \<and> e = 0) \<or>
     (env_RelayCutoverContractAddress env \<noteq> '''' \<and>
      IsHexAddress lib (env_RelayCutoverContractAddress env) \<and>
      a = HexToAddress lib (env_RelayCutoverContractAddress env) \<and> a \<noteq> 0 \<and> a \<noteq> relayAddr \<and>
      decimal_value (env_RelayCutoverStartingRewardEpoch env) = Some (unat e) \<and>
      1 \<le> unat e \<and> unat e < 2 ^ 24)"
proof (cases "env_RelayCutoverContractAddress env = '''' \<or> env_RelayCutoverStartingRewardEpoch env = ''''")
  case True
  then show ?thesis by (auto simp: parseRelayCutover_def dest: decimal_value_nonempty)
next
  case False
  let ?ep = "env_RelayCutoverStartingRewardEpoch env"
  have w: "(\<exists>n. strconv_ParseUint10 ?ep 24 = Inr n \<and> n \<noteq> 0 \<and> word_of_nat n = e) \<longleftrightarrow>
      decimal_value ?ep = Some (unat e) \<and> 1 \<le> unat e \<and> unat e < 2 ^ 24"
  proof
    assume "\<exists>n. strconv_ParseUint10 ?ep 24 = Inr n \<and> n \<noteq> 0 \<and> word_of_nat n = e"
    then obtain n where n: "strconv_ParseUint10 ?ep 24 = Inr n" "n \<noteq> 0" "word_of_nat n = e" by blast
    then have "unat e = n" using ParseUint10_nonzero_word [OF n(1), where 'a = 32] by simp
    with n show "decimal_value ?ep = Some (unat e) \<and> 1 \<le> unat e \<and> unat e < 2 ^ 24"
      unfolding ParseUint10_ok_iff by simp
  next
    assume "decimal_value ?ep = Some (unat e) \<and> 1 \<le> unat e \<and> unat e < 2 ^ 24"
    then show "\<exists>n. strconv_ParseUint10 ?ep 24 = Inr n \<and> n \<noteq> 0 \<and> word_of_nat n = e"
      unfolding ParseUint10_ok_iff by (intro exI [of _ "unat e"]) simp
  qed
  have "parseRelayCutover lib env relayAddr = Inr (a, e) \<longleftrightarrow>
      parseContractAddress lib (env_RelayCutoverContractAddress env) = Inr a \<and> a \<noteq> relayAddr \<and>
      (\<exists>n. strconv_ParseUint10 ?ep 24 = Inr n \<and> n \<noteq> 0 \<and> word_of_nat n = e)"
    using False by (auto simp: parseRelayCutover_def result_simps)
  with False show ?thesis unfolding w parseContractAddress_ok_iff by auto
qed

text \<open>
  C18. What a built TEE configuration guarantees. Every accepted environment names the TEE
  source and a non-zero relay address; the chain id is non-zero and is the decimal value of
  \<open>CHAIN_ID\<close>; a cutover address is present exactly when its epoch is non-zero; the
  audience is never empty; and the three test-only switches are off unless the variable
  holds one of the true values, so a typing error cannot switch one on.
\<close>

theorem tee_config_sound:
  assumes "BuildTeeAvailabilityCheckConfig lib env = Inr c"
  shows "env_SourceID env = SourceTEE \<and> tc_RelayContractAddress c \<noteq> 0 \<and>
    tc_ChainID c \<noteq> 0 \<and> decimal_value (env_ChainID env) = Some (unat (tc_ChainID c)) \<and>
    (tc_RelayCutoverContractAddress c = 0 \<longleftrightarrow> tc_RelayCutoverStartingRewardEpoch c = 0) \<and>
    tc_RelayCutoverContractAddress c \<noteq> tc_RelayContractAddress c \<and>
    tc_TeeAudience c \<noteq> '''' \<and>
    (tc_DisableAttestationCheckE2E c \<longleftrightarrow> env_DisableAttestationCheckE2E env \<in> set true_words) \<and>
    (tc_AllowTeeDebug c \<longleftrightarrow> env_AllowTeeDebug env \<in> set true_words) \<and>
    (tc_AllowPrivateNetworks c \<longleftrightarrow> env_AllowPrivateNetworks env \<in> set true_words)"
proof -
  from assms obtain r ca ce ch where
    src: "env_SourceID env = SourceTEE" and
    relay: "parseContractAddress lib (env_RelayContractAddress env) = Inr r" and
    cut: "parseRelayCutover lib env r = Inr (ca, ce)" and
    chain: "strconv_ParseUint10 (env_ChainID env) 64 = Inr ch" "ch \<noteq> 0" and
    debug: "parseOptionalBool (env_AllowTeeDebug env) = Inr (tc_AllowTeeDebug c)" and
    e2e: "parseOptionalBool (env_DisableAttestationCheckE2E env) = Inr (tc_DisableAttestationCheckE2E c)" and
    priv: "parseOptionalBool (env_AllowPrivateNetworks env) = Inr (tc_AllowPrivateNetworks c)" and
    flds: "tc_RelayContractAddress c = r" "tc_RelayCutoverContractAddress c = ca"
      "tc_RelayCutoverStartingRewardEpoch c = ce" "tc_ChainID c = word_of_nat ch"
      "tc_TeeAudience c = (if env_TeeAudience env = '''' then DefaultTeeAudience else env_TeeAudience env)"
    by (auto simp: BuildTeeAvailabilityCheckConfig_def result_simps Let_def split: if_splits prod.splits)
  have u: "unat (word_of_nat ch :: u64) = ch"
    using ParseUint10_nonzero_word [OF chain(1), where 'a = 64] by simp
  have r: "r \<noteq> 0" using relay by (auto simp: parseContractAddress_ok_iff)
  have "unat ce = n \<and> n \<noteq> 0" if "strconv_ParseUint10 s 24 = Inr n" "n \<noteq> 0" "ce = word_of_nat n" for s n
    using that ParseUint10_nonzero_word [OF that(1), where 'a = 32] by simp
  then have c: "(ca = 0 \<longleftrightarrow> ce = 0) \<and> ca \<noteq> r"
    using cut r by (force simp: parseRelayCutover_def result_simps parseContractAddress_ok_iff
        split: if_splits)
  show ?thesis
    using src chain u r c flds parseOptionalBool_ok [OF debug] parseOptionalBool_ok [OF e2e]
      parseOptionalBool_ok [OF priv] by (auto simp: DefaultTeeAudience_def ParseUint10_ok_iff)
qed

text \<open>
  Routes of different deployments do not collide. Two deployment prefixes built from
  slugs that pass the slug pattern are equal only if both slugs are.
\<close>

theorem deployment_prefix_injective:
  assumes "urlSlugPattern a" and "urlSlugPattern c" and "DeploymentPrefix a b = DeploymentPrefix c d"
  shows "a = c \<and> b = d"
  using append_sep_inj [OF slug_no_slash [OF assms(1)] slug_no_slash [OF assms(2)], of b d] assms(3)
  by (simp add: DeploymentPrefix_def)

theorem deployment_prefix_injective_witness:
  "urlSlugPattern ''testxrp'' \<and> DeploymentPrefix ''testxrp'' ''flare'' \<noteq> DeploymentPrefix ''testxrp'' ''songbird''"
  using deployment_prefix_injective [of "''testxrp''" "''testxrp''" "''flare''" "''songbird''"]
  by (auto simp: urlSlugPattern_def is_lower_def is_slug_char_def)

definition sample_config_lib :: config_lib where
  "sample_config_lib =
     \<lparr>att_name = (\<lambda>_. ''t''), cfg_StringToCommonHash = (\<lambda>s. Inr (word_of_nat (length s))),
      fdc2_ABI = Inr (\<lambda>m. Some [0]), instructions_ABI = Inl Plain,
      IsHexAddress = (\<lambda>s. s \<noteq> ''''), HexToAddress = (\<lambda>s. word_of_nat (length s)),
      cfg_x509 = sample_x509, rootCertBytes = [1]\<rparr>"

definition sample_env_config :: EnvConfig where
  "sample_env_config =
     \<lparr>env_SourceRPCURL = '''', env_FlareRPCURL = ''u'', env_RelayContractAddress = ''r'',
      env_RelayCutoverContractAddress = ''rr'', env_RelayCutoverStartingRewardEpoch = ''42'',
      env_FlareTeeManagerContractAddress = '''', env_TeePaymentsContractAddress = '''',
      env_SourceDatabaseURL = '''', env_CChainDatabaseURL = '''', env_AllowTeeDebug = ''false'',
      env_DisableAttestationCheckE2E = '''', env_AllowPrivateNetworks = ''1'', env_TeeAudience = '''',
      env_ChainID = ''14'', env_DestinationChainURLSlug = ''flr'', env_SourceURLSlug = '''',
      env_Port = '''', env_APIKeys = [], env_AttestationType = AvailabilityCheck,
      env_AttestationTypes = [], env_SourceID = ''TEE''\<rparr>"

lemma sample_tee_config: "\<exists>c. BuildTeeAvailabilityCheckConfig sample_config_lib sample_env_config = Inr c"
  by (simp add: BuildTeeAvailabilityCheckConfig_def sample_config_lib_def sample_env_config_def
      SourceTEE_def CheckMissingFields_def env_names parseContractAddress_def parseRelayCutover_def
      strconv_ParseUint10_def decimal_value_def digit_value_def LoadGoogleRootCert_def
      loadGoogleRootCertFromBytes_def sample_x509_def LoadEncodedAndABI_def SourceURLSlug_def
      ValidateDestinationChainURLSlug_def urlSlugPattern_def is_lower_def is_slug_char_def
      EncodeAttestationOrSourceName_def getABIArguments_def parseOptionalBool_def strconv_ParseBool_def)

theorem tee_config_sound_witness:
  "\<exists>c. BuildTeeAvailabilityCheckConfig sample_config_lib sample_env_config = Inr c \<and>
     unat (tc_ChainID c) = 14 \<and> tc_AllowPrivateNetworks c \<and> \<not> tc_AllowTeeDebug c"
proof -
  obtain c where c: "BuildTeeAvailabilityCheckConfig sample_config_lib sample_env_config = Inr c"
    using sample_tee_config by blast
  from tee_config_sound [OF c] have "unat (tc_ChainID c) = 14" "tc_AllowPrivateNetworks c"
    "\<not> tc_AllowTeeDebug c"
    by (simp_all add: sample_env_config_def true_words_def decimal_value_def digit_value_def)
  with c show ?thesis by blast
qed

end
