(* ===== verification/Tee_Verifier.thy ===== *)
theory Tee_Verifier
  imports Crl_Cache Config
begin

text \<open>
  \<open>internal/attestation/teeavailabilitycheck/verifier\<close>, files \<open>verifier.go\<close> and \<open>claims.go\<close>: the TEE
  availability check. The verifier fetches a TEE's answer to a challenge from its proxy, checks that it is
  bound to the request, validates the attestation token with its certificates and
  revocation lists, and compares the TEE's signing policies with the Relay contract.

  The message types of tee-node, signature recovery, token validation and JSON decoding are code
  outside this repository; \<open>tee_ext\<close> collects them. The two checks that \<open>Verify\<close> runs in
  parallel run one after the other here: both always run, and the error of the data
  verification wins, as in the code.
\<close>

section \<open>Messages\<close>

record tee_state =
  ts_SystemState :: bytes
  ts_SystemStateVersion :: hash
  ts_State :: bytes
  ts_StateVersion :: hash

record TeeInfo =
  ti_Challenge :: hash
  ti_PublicKey :: bytes
  ti_InitialSigningPolicyID :: u32
  ti_InitialSigningPolicyHash :: hash
  ti_LastSigningPolicyID :: u32
  ti_LastSigningPolicyHash :: hash
  ti_State :: tee_state
  ti_TeeTimestamp :: u64
  ti_ChainID :: u64

record TeeInfoResponse =
  tir_TeeInfo :: TeeInfo
  tir_Attestation :: string

text \<open>\<open>ActionResult\<close>, with the tag its hash covers next to the id, the data and the status.\<close>

record ActionResult =
  ar_ID :: hash
  ar_SubmissionTag :: string
  ar_Data :: bytes
  ar_Status :: u8
  ar_OPType :: hash
  ar_OPCommand :: hash

record ActionResponse =
  ap_Result :: ActionResult
  ap_Signature :: bytes
  ap_ProxySignature :: bytes

record TeeRequest =
  tq_TeeId :: address
  tq_TeeProxyId :: address
  tq_Url :: string
  tq_Challenge :: hash
  tq_InstructionId :: hash

record TeeResponse =
  tr_Status :: u8
  tr_TeeTimestamp :: u64
  tr_CodeHash :: hash
  tr_Platform :: hash
  tr_InitialSigningPolicyId :: u32
  tr_LastSigningPolicyId :: u32
  tr_State :: tee_state

record Policy =
  pol_Audience :: string
  pol_EATNonce :: string
  pol_AllowedDebugStatuses :: "string list"
  pol_Issuer :: string
  pol_AllowedHWModels :: "string list"
  pol_RequireSecBoot :: bool

text \<open>\<open>cl_SupportAttributes\<close> is \<open>None\<close> for a nil slice.\<close>

record GoogleTeeClaims =
  cl_SWName :: string
  cl_DebugStatus :: string
  cl_SupportAttributes :: "string list option"
  cl_ImageID :: string
  cl_HWModel :: string

datatype signing_domain = ProxyActionResult | TEEActionResult

record tee_ext =
  te_JoinPath :: "string \<Rightarrow> string list \<Rightarrow> string result"
  te_decode_ActionResponse :: "bytes \<Rightarrow> ActionResponse result"
  te_json_Valid :: "bytes \<Rightarrow> bool"
  te_decode_TeeInfoResponse :: "bytes \<Rightarrow> TeeInfoResponse result"
  te_ActionResult_Hash :: "ActionResult \<Rightarrow> hash"
  te_Payload_Hash :: "signing_domain \<Rightarrow> u64 \<Rightarrow> hash \<Rightarrow> hash result"
  te_SignatureToSignersAddress :: "hash \<Rightarrow> bytes \<Rightarrow> address result"
  te_VerifySignature :: "hash \<Rightarrow> bytes \<Rightarrow> address \<Rightarrow> unit result"
  te_TeeInfo_Hash :: "TeeInfo \<Rightarrow> bytes result"
  te_PubKeyToAddress :: "bytes \<Rightarrow> address result"
  te_op_Reg :: hash
  te_op_TEEAttestation :: hash
  te_MagicPass :: string
  te_ConfidentialSpaceIssuer :: string
  te_ParseAndValidatePKIToken :: "string \<Rightarrow> x509_Certificate \<Rightarrow> x509_RevocationList option \<Rightarrow>
    x509_RevocationList option \<Rightarrow> Policy \<Rightarrow> GoogleTeeClaims result"
  te_CodeHash :: "GoogleTeeClaims \<Rightarrow> hash result"
  te_Platform :: "GoogleTeeClaims \<Rightarrow> hash result"

section \<open>Claims\<close>

datatype AvailabilityCheckStatus = OK | OBSOLETE

fun status_code :: "AvailabilityCheckStatus \<Rightarrow> u8" where
  "status_code OK = 0"
| "status_code OBSOLETE = 1"

record StatusInfo =
  si_CodeHash :: hash
  si_Platform :: hash
  si_Status :: AvailabilityCheckStatus

definition ValidateClaims :: "tee_ext \<Rightarrow> GoogleTeeClaims \<Rightarrow> StatusInfo result" where
  "ValidateClaims ext claims =
     (if cl_SWName claims \<noteq> ''CONFIDENTIAL_SPACE'' then Inl Plain
      else rbind (if cl_DebugStatus claims = ''disabled-since-boot''
                  then (case cl_SupportAttributes claims of
                          None \<Rightarrow> Inl Plain
                        | Some attrs \<Rightarrow> Inr (if ''STABLE'' \<in> set attrs then OK else OBSOLETE))
                  else Inr OK) (\<lambda>status.
           rbind (map_error wrap1 (te_CodeHash ext claims)) (\<lambda>codeHash.
           rbind (map_error wrap1 (te_Platform ext claims)) (\<lambda>platform.
           Inr \<lparr>si_CodeHash = codeHash, si_Platform = platform, si_Status = status\<rparr>))))"

section \<open>Relay\<close>

text \<open>\<open>RelayCallerInterface\<close>; the id is a nullable \<open>*big.Int\<close>.\<close>

type_synonym 'w relay_caller = "int option \<Rightarrow> ('w, goerr, hash) io"

definition maxRewardEpochID :: nat where "maxRewardEpochID = 2 ^ 24 - 1"

record 'w cutoverRelay =
  cr_current :: "'w relay_caller"
  cr_next :: "'w relay_caller"
  cr_startingRewardEpoch :: u32

definition cutover_ToSigningPolicyHash :: "'w cutoverRelay \<Rightarrow> 'w relay_caller" where
  "cutover_ToSigningPolicyHash r idp =
     (case idp of
        None \<Rightarrow> io_lift (Inl Plain)
      | Some i \<Rightarrow>
          if i < 0 \<or> \<not> i < 2 ^ 64 \<or> nat i > maxRewardEpochID then io_lift (Inl Plain)
          else if (word_of_int i :: u32) \<ge> cr_startingRewardEpoch r then cr_next r idp
          else cr_current r idp)"

definition NewCutoverRelay :: "'w relay_caller \<Rightarrow> 'w relay_caller \<Rightarrow> u32 \<Rightarrow> 'w relay_caller" where
  "NewCutoverRelay current next startingRewardEpoch =
     cutover_ToSigningPolicyHash
       \<lparr>cr_current = current, cr_next = next, cr_startingRewardEpoch = startingRewardEpoch\<rparr>"

section \<open>The verifier\<close>

text \<open>
  \<open>tv_CRLCache\<close> is the operation \<open>FetchCRLsForToken\<close> of the verifier's cache, \<open>None\<close> when the field
  is nil; the state of that cache is threaded through the operations.
\<close>

type_synonym 'w crl_source =
  "string \<Rightarrow> x509_Certificate option \<Rightarrow>
   ('w CRLCache, goerr, x509_RevocationList option \<times> x509_RevocationList option) io"

record ('c, 'w) TeeVerifier =
  tv_Cfg :: TeeAvailabilityCheckConfig
  tv_EthClient :: "'c option"
  tv_RelayCaller :: "'w relay_caller"
  tv_CRLCache :: "'w crl_source option"

text \<open>The connection to the Flare node: dialling, contract bindings, closing.\<close>

record ('c, 'w) eth_lib =
  eth_Dial :: "string \<Rightarrow> ('w, goerr, 'c) io"
  eth_NewRelayCaller :: "address \<Rightarrow> 'c \<Rightarrow> 'w relay_caller result"
  eth_Close :: "'c \<Rightarrow> 'w \<Rightarrow> 'w"

definition NewVerifier ::
  "('c, 'w) eth_lib \<Rightarrow> 'w crl_source \<Rightarrow> TeeAvailabilityCheckConfig \<Rightarrow> ('w, goerr, ('c, 'w) TeeVerifier) io" where
  "NewVerifier eth crls cfg =
     io_bind (io_map_error wrap1 (eth_Dial eth (tc_FlareRPCURL cfg))) (\<lambda>client w.
     case eth_NewRelayCaller eth (tc_RelayContractAddress cfg) client of
       Inl e \<Rightarrow> (Inl (wrap1 e), eth_Close eth client w)
     | Inr relayCaller \<Rightarrow>
         if tc_RelayCutoverContractAddress cfg \<noteq> 0 then
           (case eth_NewRelayCaller eth (tc_RelayCutoverContractAddress cfg) client of
              Inl e \<Rightarrow> (Inl (wrap1 e), eth_Close eth client w)
            | Inr next \<Rightarrow>
                (Inr \<lparr>tv_Cfg = cfg, tv_EthClient = Some client,
                   tv_RelayCaller = NewCutoverRelay relayCaller next (tc_RelayCutoverStartingRewardEpoch cfg),
                   tv_CRLCache = Some crls\<rparr>, w))
         else (Inr \<lparr>tv_Cfg = cfg, tv_EthClient = Some client, tv_RelayCaller = relayCaller,
                 tv_CRLCache = Some crls\<rparr>, w))"

definition TeeVerifier_Close ::
  "('c, 'w) eth_lib \<Rightarrow> ('c, 'w) TeeVerifier \<Rightarrow> 'w CRLCache \<Rightarrow> 'w CRLCache" where
  "TeeVerifier_Close eth v c =
     (let c1 = (case tv_EthClient v of Some client \<Rightarrow> c\<lparr>cc_world := eth_Close eth client (cc_world c)\<rparr> | None \<Rightarrow> c)
      in case tv_CRLCache v of Some _ \<Rightarrow> CRLCache_Close c1 | None \<Rightarrow> c1)"

text \<open>\<open>strings.ReplaceAll\<close> for a non-empty pattern.\<close>

fun strings_ReplaceAll :: "string \<Rightarrow> string \<Rightarrow> string \<Rightarrow> string" where
  "strings_ReplaceAll old new [] = []"
| "strings_ReplaceAll old new (ch # s) =
     (if strings_HasPrefix (ch # s) old then new @ strings_ReplaceAll old new (drop (length old - 1) s)
      else ch # strings_ReplaceAll old new s)"

definition FormatProxyURL :: "('c, 'w) TeeVerifier \<Rightarrow> string \<Rightarrow> string" where
  "FormatProxyURL v url =
     (if tc_DisableAttestationCheckE2E (tv_Cfg v)
      then strings_ReplaceAll ''localhost'' ''host.docker.internal'' url else url)"

section \<open>Fetching the challenge result\<close>

definition fetchChallengeTimeout :: duration where "fetchChallengeTimeout = 4 * second_ns"

definition hash_Bytes :: "hash \<Rightarrow> bytes" where
  "hash_Bytes h = map (\<lambda>i. ucast (drop_bit (8 * (31 - i)) h)) [0..<32]"

definition challengeFetchError :: "goerr \<Rightarrow> goerr" where
  "challengeFetchError err =
     (if errors_Is err ErrNotFound then tag_with ErrActionResultNotFound err
      else if errors_Is err ErrResponseTooLarge then tag_with ErrTEEResponseMalformed err
      else err)"

text \<open>From the action response to the TEE's information and the proxy that signed it.\<close>

definition readChallengeResult ::
  "tee_ext \<Rightarrow> ActionResponse \<Rightarrow> (ActionResponse \<times> TeeInfoResponse \<times> address) result" where
  "readChallengeResult ext actionResp =
     (if ar_Data (ap_Result actionResp) = [] then Inl (tag ErrTEEResponseMalformed)
      else if \<not> te_json_Valid ext (ar_Data (ap_Result actionResp)) then Inl (tag ErrTEEResponseMalformed)
      else rbind (map_error (tag_with ErrTEEResponseMalformed)
             (te_decode_TeeInfoResponse ext (ar_Data (ap_Result actionResp)))) (\<lambda>teeInfo.
           rbind (map_error wrap1 (te_Payload_Hash ext ProxyActionResult (ti_ChainID (tir_TeeInfo teeInfo))
             (te_ActionResult_Hash ext (ap_Result actionResp)))) (\<lambda>proxySignHash.
           rbind (map_error (tag_with ErrTEEResponseMalformed)
             (te_SignatureToSignersAddress ext proxySignHash (ap_ProxySignature actionResp))) (\<lambda>signer.
           Inr (actionResp, teeInfo, signer)))))"

definition FetchTEEChallengeResult ::
  "tee_ext \<Rightarrow> 'w net_lib \<Rightarrow> 'w http_lib \<Rightarrow> string \<Rightarrow> hash \<Rightarrow> bool \<Rightarrow>
   ('w, goerr, ActionResponse \<times> TeeInfoResponse \<times> address) io" where
  "FetchTEEChallengeResult ext nl hl baseURL challengeInstructionID allowPrivateNetworks =
     io_bind (io_lift (map_error wrap1 (te_JoinPath ext baseURL
       [''action'', ''result'', hex_EncodeToString (hash_Bytes challengeInstructionID)]))) (\<lambda>reqURL.
     io_bind (resolveExternalURL nl baseURL allowPrivateNetworks) (\<lambda>resolved.
     case BuildPinnedAddr nl resolved of
       (dialAddr, hostHeader, serverName) \<Rightarrow>
         io_bind (io_map_error challengeFetchError
           (FetchJSONPinned hl (te_decode_ActionResponse ext) reqURL fetchChallengeTimeout dialAddr hostHeader serverName))
         (\<lambda>actionResp. io_lift (readChallengeResult ext actionResp))))"

definition verifyActionResult :: "tee_ext \<Rightarrow> ActionResponse \<Rightarrow> hash \<Rightarrow> address \<Rightarrow> u64 \<Rightarrow> unit result" where
  "verifyActionResult ext actionResp expectedInstructionID expectedTeeID chainID =
     (if ar_ID (ap_Result actionResp) \<noteq> expectedInstructionID then Inl Plain
      else if ar_Status (ap_Result actionResp) \<noteq> 1 then Inl Plain
      else if ar_OPType (ap_Result actionResp) \<noteq> te_op_Reg ext then Inl Plain
      else if ar_OPCommand (ap_Result actionResp) \<noteq> te_op_TEEAttestation ext then Inl Plain
      else if ap_Signature actionResp = [] then Inl Plain
      else rbind (map_error wrap1 (te_Payload_Hash ext TEEActionResult chainID
             (te_ActionResult_Hash ext (ap_Result actionResp)))) (\<lambda>signHash.
           map_error wrap1 (te_VerifySignature ext signHash (ap_Signature actionResp) expectedTeeID)))"

section \<open>Attestation\<close>

definition E2ETestPlatform :: hash where
  "E2ETestPlatform = 0x544553545f504c4154464f524d00000000000000000000000000000000000000"
definition E2ETestCodeHash :: hash where
  "E2ETestCodeHash = 0x194844cf417dde867073e5ab7199fa4d21fd82b5dbe2bdea8b3d7fc18d10fdc2"

definition confidentialHWModels :: "string list" where
  "confidentialHWModels = [''GCP_AMD_SEV'', ''GCP_AMD_SEV_ES'', ''GCP_INTEL_TDX'']"

definition attestationPolicy :: "tee_ext \<Rightarrow> TeeAvailabilityCheckConfig \<Rightarrow> bytes \<Rightarrow> Policy" where
  "attestationPolicy ext cfg teeInfoHash =
     \<lparr>pol_Audience = tc_TeeAudience cfg, pol_EATNonce = hex_EncodeToString teeInfoHash,
      pol_AllowedDebugStatuses = (if \<not> tc_AllowTeeDebug cfg then [''disabled-since-boot''] else []),
      pol_Issuer = te_ConfidentialSpaceIssuer ext, pol_AllowedHWModels = confidentialHWModels,
      pol_RequireSecBoot = True\<rparr>"

definition e2eStatus :: StatusInfo where
  "e2eStatus = \<lparr>si_CodeHash = E2ETestCodeHash, si_Platform = E2ETestPlatform, si_Status = OK\<rparr>"

text \<open>What remains of \<open>DataVerification\<close> once the revocation lists are there.\<close>

definition validateAttestation ::
  "tee_ext \<Rightarrow> TeeAvailabilityCheckConfig \<Rightarrow> TeeInfoResponse \<Rightarrow> address \<Rightarrow>
   x509_RevocationList option \<Rightarrow> x509_RevocationList option \<Rightarrow> StatusInfo result" where
  "validateAttestation ext cfg response expectedTeeID leafCRL intermediateCRL =
     rbind (map_error wrap1 (te_TeeInfo_Hash ext (tir_TeeInfo response))) (\<lambda>teeInfoHash.
     rbind (map_error wrap1 (te_ParseAndValidatePKIToken ext (tir_Attestation response)
       (tc_GoogleRootCertificate cfg) leafCRL intermediateCRL (attestationPolicy ext cfg teeInfoHash))) (\<lambda>claims.
     rbind (map_error wrap1 (te_PubKeyToAddress ext (ti_PublicKey (tir_TeeInfo response)))) (\<lambda>receivedTeeID.
     if expectedTeeID \<noteq> receivedTeeID then Inl Plain
     else map_error wrap1 (ValidateClaims ext claims))))"

definition DataVerification ::
  "tee_ext \<Rightarrow> ('c, 'w) TeeVerifier \<Rightarrow> TeeInfoResponse \<Rightarrow> address \<Rightarrow> ('w CRLCache, goerr, StatusInfo) io" where
  "DataVerification ext v response expectedTeeID =
     (if tc_DisableAttestationCheckE2E (tv_Cfg v) then io_return e2eStatus
      else if tir_Attestation response = te_MagicPass ext then io_return e2eStatus
      else if tc_TeeAudience (tv_Cfg v) = '''' then io_lift (Inl Plain)
      else io_bind (case tv_CRLCache v of
                      None \<Rightarrow> io_return (None, None)
                    | Some fetchCRLs \<Rightarrow>
                        io_map_error wrap1 (fetchCRLs (tir_Attestation response)
                          (Some (tc_GoogleRootCertificate (tv_Cfg v))))) (\<lambda>(leafCRL, intermediateCRL).
           io_lift (validateAttestation ext (tv_Cfg v) response expectedTeeID leafCRL intermediateCRL)))"

definition classifyDataVerificationError :: "goerr \<Rightarrow> goerr" where
  "classifyDataVerificationError err =
     (if errors_Is err ErrTEERevocationUnavailable \<or> errors_Is err Canceled \<or> errors_Is err DeadlineExceeded
      then wrap1 err else tag_with ErrTEEAttestationInvalid err)"

section \<open>Signing policies\<close>

definition chainMaxAttempts :: int where "chainMaxAttempts = 1"

definition FetchSigningPolicyHashFromChain ::
  "('c, 'w) TeeVerifier \<Rightarrow> u32 \<Rightarrow> 'w \<Rightarrow> (hash \<times> TeeSampleState \<times> goerr option) \<times> 'w" where
  "FetchSigningPolicyHashFromChain v signingPolicyID w =
     (case tv_RelayCaller v (Some (int (unat signingPolicyID))) w of
        (Inl err, w') \<Rightarrow>
          (case MapFetchErrorToState ''ToSigningPolicyHash'' err of
             (state, classifiedErr) \<Rightarrow> ((0, state, Some classifiedErr), w'))
      | (Inr h, w') \<Rightarrow> ((h, TeeSampleValid, None), w'))"

text \<open>
  The retry around it. The state of the loop holds the captured variables \<open>hash\<close> and
  \<open>finalState\<close> next to the outside world; \<open>pause\<close> is the wait between two attempts.
\<close>

definition FetchSigningPolicyHashFromChainWithRetry ::
  "('c, 'w) TeeVerifier \<Rightarrow> ('w \<Rightarrow> goerr option \<times> 'w) \<Rightarrow> u32 \<Rightarrow> int \<Rightarrow> 'w \<Rightarrow>
   (hash \<times> TeeSampleState \<times> goerr option) \<times> 'w" where
  "FetchSigningPolicyHashFromChainWithRetry v pause signingPolicyID maxAttempts w =
     (case Retry () maxAttempts
        (\<lambda>(h, finalState, w).
           case FetchSigningPolicyHashFromChain v signingPolicyID w of
             ((h', state, Some err), w') \<Rightarrow> (((), Some err), (h, state, w'))
           | ((h', state, None), w') \<Rightarrow> (((), None), (h', state, w')))
        (Some (\<lambda>_ (h, finalState, w). finalState = TeeSampleInvalid))
        (\<lambda>(h, finalState, w). case pause w of (e, w') \<Rightarrow> (e, (h, finalState, w')))
        (0, TeeSampleValid, w) of
        ((_, Some err), (h, finalState, w')) \<Rightarrow> ((0, finalState, Some (wrap1 err)), w')
      | ((_, None), (h, finalState, w')) \<Rightarrow> ((h, finalState, None), w'))"

definition CheckSigningPolicies ::
  "('c, 'w) TeeVerifier \<Rightarrow> ('w \<Rightarrow> goerr option \<times> 'w) \<Rightarrow> TeeInfo \<Rightarrow> 'w \<Rightarrow> (TeeSampleState \<times> goerr option) \<times> 'w" where
  "CheckSigningPolicies v pause info w =
     (case FetchSigningPolicyHashFromChainWithRetry v pause (ti_InitialSigningPolicyID info) chainMaxAttempts w of
        ((initialHash, initialState, initialErr), w1) \<Rightarrow>
      (case FetchSigningPolicyHashFromChainWithRetry v pause (ti_LastSigningPolicyID info) chainMaxAttempts w1 of
        ((lastHash, lastState, lastErr), w2) \<Rightarrow>
          (case initialErr of
             Some err \<Rightarrow> (initialState, Some (wrap1 err))
           | None \<Rightarrow>
               (case lastErr of
                  Some err \<Rightarrow> (lastState, Some (wrap1 err))
                | None \<Rightarrow>
                    if initialHash \<noteq> ti_InitialSigningPolicyHash info
                    then (TeeSampleInvalid, Some (Wrap [Sentinel ErrTEESigningPolicyHash, Sentinel ErrTEEDataValidation]))
                    else if lastHash \<noteq> ti_LastSigningPolicyHash info
                    then (TeeSampleInvalid, Some (Wrap [Sentinel ErrTEESigningPolicyHash, Sentinel ErrTEEDataValidation]))
                    else (TeeSampleValid, None)), w2)))"

section \<open>Verify\<close>

text \<open>The checks between the fetch and the two parallel verifications.\<close>

definition checkChallengeBinding ::
  "tee_ext \<Rightarrow> TeeAvailabilityCheckConfig \<Rightarrow> TeeRequest \<Rightarrow> ActionResponse \<Rightarrow> TeeInfoResponse \<Rightarrow> address \<Rightarrow> unit result" where
  "checkChallengeBinding ext cfg req actionResp response dataSigner =
     (if ti_Challenge (tir_TeeInfo response) \<noteq> tq_Challenge req
      then Inl (Wrap [Sentinel ErrTEEChallengeMismatch, Sentinel ErrTEEDataValidation])
      else if ti_ChainID (tir_TeeInfo response) \<noteq> tc_ChainID cfg
      then Inl (Wrap [Sentinel ErrTEEChainIDMismatch, Sentinel ErrTEEDataValidation])
      else if dataSigner \<noteq> tq_TeeProxyId req
      then Inl (Wrap [Sentinel ErrTEEProxySignerMismatch, Sentinel ErrTEEDataValidation])
      else map_error (tag_with ErrTEEActionResultMismatch)
             (verifyActionResult ext actionResp (tq_InstructionId req) (tq_TeeId req)
               (ti_ChainID (tir_TeeInfo response))))"

definition teeResponse :: "StatusInfo \<Rightarrow> TeeInfo \<Rightarrow> TeeResponse" where
  "teeResponse statusInfo info =
     \<lparr>tr_Status = status_code (si_Status statusInfo), tr_TeeTimestamp = ti_TeeTimestamp info,
      tr_CodeHash = si_CodeHash statusInfo, tr_Platform = si_Platform statusInfo,
      tr_InitialSigningPolicyId = ti_InitialSigningPolicyID info,
      tr_LastSigningPolicyId = ti_LastSigningPolicyID info, tr_State = ti_State info\<rparr>"

definition Tee_Verify ::
  "tee_ext \<Rightarrow> 'w net_lib \<Rightarrow> 'w http_lib \<Rightarrow> ('w \<Rightarrow> goerr option \<times> 'w) \<Rightarrow> ('c, 'w) TeeVerifier \<Rightarrow> TeeRequest \<Rightarrow>
   ('w CRLCache, goerr, TeeResponse) io" where
  "Tee_Verify ext nl hl pause v req =
     io_bind (io_map_error wrap1 (on_world (FetchTEEChallengeResult ext nl hl (FormatProxyURL v (tq_Url req))
       (tq_InstructionId req) (tc_AllowPrivateNetworks (tv_Cfg v))))) (\<lambda>(actionResp, response, dataSigner).
     io_bind (io_lift (checkChallengeBinding ext (tv_Cfg v) req actionResp response dataSigner)) (\<lambda>_ c.
     case DataVerification ext v response (tq_TeeId req) c of
       (dvRes, c1) \<Rightarrow>
     (case CheckSigningPolicies v pause (tir_TeeInfo response) (cc_world c1) of
       ((_, spErr), w2) \<Rightarrow>
         (case dvRes of
            Inl err \<Rightarrow> Inl (classifyDataVerificationError err)
          | Inr statusInfo \<Rightarrow>
              (case spErr of
                 Some err \<Rightarrow> Inl err
               | None \<Rightarrow> Inr (teeResponse statusInfo (tir_TeeInfo response))), c1\<lparr>cc_world := w2\<rparr>))))"


section \<open>Lemmas\<close>

lemma ValidateClaims_ok_iff:
  "ValidateClaims ext claims = Inr si \<longleftrightarrow>
     cl_SWName claims = ''CONFIDENTIAL_SPACE'' \<and>
     (cl_DebugStatus claims = ''disabled-since-boot'' \<longrightarrow> cl_SupportAttributes claims \<noteq> None) \<and>
     si_Status si = (if cl_DebugStatus claims = ''disabled-since-boot'' \<and>
       (\<exists>attrs. cl_SupportAttributes claims = Some attrs \<and> ''STABLE'' \<notin> set attrs) then OBSOLETE else OK) \<and>
     te_CodeHash ext claims = Inr (si_CodeHash si) \<and> te_Platform ext claims = Inr (si_Platform si)"
  by (cases si) (auto simp: ValidateClaims_def result_simps split: option.splits if_splits)

lemma verifyActionResult_ok_iff:
  "verifyActionResult ext a ins tee chain = Inr () \<longleftrightarrow>
     ar_ID (ap_Result a) = ins \<and> ar_Status (ap_Result a) = 1 \<and> ar_OPType (ap_Result a) = te_op_Reg ext \<and>
     ar_OPCommand (ap_Result a) = te_op_TEEAttestation ext \<and> ap_Signature a \<noteq> [] \<and>
     (\<exists>h. te_Payload_Hash ext TEEActionResult chain (te_ActionResult_Hash ext (ap_Result a)) = Inr h \<and>
        te_VerifySignature ext h (ap_Signature a) tee = Inr ())"
  by (auto simp: verifyActionResult_def result_simps)

lemma readChallengeResult_ok_iff:
  "readChallengeResult ext a = Inr (a', response, signer) \<longleftrightarrow>
     a' = a \<and> ar_Data (ap_Result a) \<noteq> [] \<and> te_json_Valid ext (ar_Data (ap_Result a)) \<and>
     te_decode_TeeInfoResponse ext (ar_Data (ap_Result a)) = Inr response \<and>
     (\<exists>h. te_Payload_Hash ext ProxyActionResult (ti_ChainID (tir_TeeInfo response))
            (te_ActionResult_Hash ext (ap_Result a)) = Inr h \<and>
        te_SignatureToSignersAddress ext h (ap_ProxySignature a) = Inr signer)"
  by (auto simp: readChallengeResult_def result_simps)

lemma checkChallengeBinding_ok_iff:
  "checkChallengeBinding ext cfg req a response signer = Inr () \<longleftrightarrow>
     ti_Challenge (tir_TeeInfo response) = tq_Challenge req \<and> ti_ChainID (tir_TeeInfo response) = tc_ChainID cfg \<and>
     signer = tq_TeeProxyId req \<and>
     verifyActionResult ext a (tq_InstructionId req) (tq_TeeId req) (ti_ChainID (tir_TeeInfo response)) = Inr ()"
  by (auto simp: checkChallengeBinding_def)

text \<open>One attempt: the relay is asked once.\<close>

lemma retry_once:
  "FetchSigningPolicyHashFromChainWithRetry v pause sid chainMaxAttempts w =
     (case tv_RelayCaller v (Some (int (unat sid))) w of
        (Inl err, w') \<Rightarrow> ((0, fst (MapFetchErrorToState ''ToSigningPolicyHash'' err),
            Some (wrap1 (snd (MapFetchErrorToState ''ToSigningPolicyHash'' err)))), w')
      | (Inr h, w') \<Rightarrow> ((h, TeeSampleValid, None), w'))"
  by (simp add: FetchSigningPolicyHashFromChainWithRetry_def FetchSigningPolicyHashFromChain_def Retry_def
      chainMaxAttempts_def split: prod.splits sum.splits)

text \<open>The Relay answered with the policy hashes the TEE reports.\<close>

definition policies_match :: "'w relay_caller \<Rightarrow> TeeInfo \<Rightarrow> 'w \<Rightarrow> 'w \<Rightarrow> bool" where
  "policies_match relay info w w2 \<longleftrightarrow>
     (\<exists>w1. relay (Some (int (unat (ti_InitialSigningPolicyID info)))) w = (Inr (ti_InitialSigningPolicyHash info), w1) \<and>
           relay (Some (int (unat (ti_LastSigningPolicyID info)))) w1 = (Inr (ti_LastSigningPolicyHash info), w2))"

lemma CheckSigningPolicies_ok_iff:
  "CheckSigningPolicies v pause info w = ((st, None), w') \<longleftrightarrow>
     st = TeeSampleValid \<and> policies_match (tv_RelayCaller v) info w w'"
  unfolding CheckSigningPolicies_def retry_once policies_match_def
  by (auto split: prod.splits sum.splits if_splits)

lemma FetchTEEChallengeResult_InrD:
  assumes "FetchTEEChallengeResult ext nl hl url ins allow w = (Inr (a, response, signer), w')"
  shows "\<exists>reqURL resolved w1 addr host sni data.
    te_JoinPath ext url [''action'', ''result'', hex_EncodeToString (hash_Bytes ins)] = Inr reqURL \<and>
    resolveExternalURL nl url allow w = (Inr resolved, w1) \<and> BuildPinnedAddr nl resolved = (addr, host, sni) \<and>
    client_Do hl \<lparr>hr_URL = reqURL, hr_Timeout = fetchChallengeTimeout, hr_dialAddr = addr, hr_Host = host,
      hr_ServerName = sni\<rparr> w1 = (Reply 200 data None, w') \<and>
    te_decode_ActionResponse ext data = Inr a \<and> readChallengeResult ext a = Inr (a, response, signer)"
proof -
  from assms obtain reqURL where url: "te_JoinPath ext url [''action'', ''result'', hex_EncodeToString (hash_Bytes ins)] = Inr reqURL"
    unfolding FetchTEEChallengeResult_def by (auto simp: io_simps)
  with assms obtain resolved w1 where r: "resolveExternalURL nl url allow w = (Inr resolved, w1)"
    unfolding FetchTEEChallengeResult_def by (auto simp: io_simps)
  obtain addr host sni where p: "BuildPinnedAddr nl resolved = (addr, host, sni)" by (rule prod_cases3)
  from assms url r p obtain data where
    f: "FetchBytesPinned hl reqURL fetchChallengeTimeout addr host sni w1 = (Inr data, w')" and
    d: "te_decode_ActionResponse ext data = Inr a" "readChallengeResult ext a = Inr (a, response, signer)"
    unfolding FetchTEEChallengeResult_def FetchJSONPinned_def
    by (auto simp: io_simps readChallengeResult_ok_iff)
  show ?thesis
    using url r p d FetchBytesPinned_InrD [OF f]
    by (intro exI [of _ reqURL] exI [of _ resolved] exI [of _ w1] exI [of _ addr] exI [of _ host]
        exI [of _ sni] exI [of _ data]) simp
qed

text \<open>The attestation part: what an accepted token guarantees, with \<open>checked\<close> for the revocation lists.\<close>

definition tee_attested ::
  "tee_ext \<Rightarrow> TeeAvailabilityCheckConfig \<Rightarrow>
   (string \<Rightarrow> x509_Certificate \<Rightarrow> x509_RevocationList option \<Rightarrow> x509_RevocationList option \<Rightarrow> bool) \<Rightarrow>
   TeeInfoResponse \<Rightarrow> address \<Rightarrow> StatusInfo \<Rightarrow> bool" where
  "tee_attested ext cfg checked response teeId si \<longleftrightarrow>
     (if tc_DisableAttestationCheckE2E cfg \<or> tir_Attestation response = te_MagicPass ext then si = e2eStatus
      else tc_TeeAudience cfg \<noteq> '''' \<and>
        (\<exists>leafCRL intermediateCRL infoHash claims.
           checked (tir_Attestation response) (tc_GoogleRootCertificate cfg) leafCRL intermediateCRL \<and>
           te_TeeInfo_Hash ext (tir_TeeInfo response) = Inr infoHash \<and>
           te_ParseAndValidatePKIToken ext (tir_Attestation response) (tc_GoogleRootCertificate cfg)
             leafCRL intermediateCRL (attestationPolicy ext cfg infoHash) = Inr claims \<and>
           te_PubKeyToAddress ext (ti_PublicKey (tir_TeeInfo response)) = Inr teeId \<and>
           ValidateClaims ext claims = Inr si))"

text \<open>
  The contract of a verified availability check, for a request that finds the outside world as \<open>w\<close> and leaves it as \<open>w'\<close>: the address is resolved
  first, the answer fetched from it next, the token checked as of the state \<open>w1\<close> after the fetch, and the Relay asked last.
\<close>

definition tee_spec ::
  "tee_ext \<Rightarrow> 'w net_lib \<Rightarrow> 'w http_lib \<Rightarrow> TeeAvailabilityCheckConfig \<Rightarrow> 'w relay_caller \<Rightarrow>
   ('w \<Rightarrow> string \<Rightarrow> x509_Certificate \<Rightarrow> x509_RevocationList option \<Rightarrow> x509_RevocationList option \<Rightarrow> bool) \<Rightarrow>
   string \<Rightarrow> 'w \<Rightarrow> TeeRequest \<Rightarrow> TeeResponse \<Rightarrow> 'w \<Rightarrow> bool" where
  "tee_spec ext nl hl cfg relay checked proxyURL w req resp w' \<longleftrightarrow>
     (\<exists>a response si r http_req data w0 w1 w2.
        resolveExternalURL nl proxyURL (tc_AllowPrivateNetworks cfg) w = (Inr r, w0) \<and>
        hr_dialAddr http_req = fst (BuildPinnedAddr nl r) \<and>
        client_Do hl http_req w0 = (Reply 200 data None, w1) \<and>
        te_decode_ActionResponse ext data = Inr a \<and>
        te_decode_TeeInfoResponse ext (ar_Data (ap_Result a)) = Inr response \<and>
        ti_Challenge (tir_TeeInfo response) = tq_Challenge req \<and>
        ti_ChainID (tir_TeeInfo response) = tc_ChainID cfg \<and>
        ar_ID (ap_Result a) = tq_InstructionId req \<and> ar_Status (ap_Result a) = 1 \<and>
        ar_OPType (ap_Result a) = te_op_Reg ext \<and> ar_OPCommand (ap_Result a) = te_op_TEEAttestation ext \<and>
        (\<exists>h. te_Payload_Hash ext ProxyActionResult (tc_ChainID cfg) (te_ActionResult_Hash ext (ap_Result a)) = Inr h \<and>
           te_SignatureToSignersAddress ext h (ap_ProxySignature a) = Inr (tq_TeeProxyId req)) \<and>
        (\<exists>h. te_Payload_Hash ext TEEActionResult (tc_ChainID cfg) (te_ActionResult_Hash ext (ap_Result a)) = Inr h \<and>
           te_VerifySignature ext h (ap_Signature a) (tq_TeeId req) = Inr ()) \<and>
        tee_attested ext cfg (checked w1) response (tq_TeeId req) si \<and>
        policies_match relay (tir_TeeInfo response) w2 w' \<and>
        resp = teeResponse si (tir_TeeInfo response))"

section \<open>The interface to the revocation lists\<close>

text \<open>
  The sentinels an error of a pinned fetch, and of the revocation source, can carry; none of them
  marks a TEE as invalid.
\<close>

definition fetch_tags :: "sentinel list" where
  "fetch_tags = [ErrURLValidation, ErrHTTPFetch, ErrRedirect, ErrNotFound, ErrResponseTooLarge] @ foreign_sentinels"

definition crl_tags :: "sentinel list" where
  "crl_tags = ErrTEERevocationUnavailable # fetch_tags"

locale revocation_source =
  fixes fetch :: "'w crl_source" and invar :: "'w CRLCache \<Rightarrow> bool"
    and checked :: "'w \<Rightarrow> string \<Rightarrow> x509_Certificate \<Rightarrow> x509_RevocationList option \<Rightarrow> x509_RevocationList option \<Rightarrow> bool"
  assumes fetch_keeps: "preserves invar (fetch token root)"
    and fetch_checked: "invar c \<Longrightarrow> fetch token (Some trusted) c = (Inr (l, i), c') \<Longrightarrow> checked (cc_world c) token trusted l i"
    and fetch_errors: "invar c \<Longrightarrow> io_tags crl_tags (fetch token root) c"
    and invar_world: "invar c \<Longrightarrow> invar (c\<lparr>cc_world := w\<rparr>)"
begin

lemma data_verification_sound:
  assumes "tv_CRLCache v = Some fetch" and "invar c"
    and "DataVerification ext v response teeId c = (Inr si, c')"
  shows "tee_attested ext (tv_Cfg v) (checked (cc_world c)) response teeId si"
proof (cases "tc_DisableAttestationCheckE2E (tv_Cfg v) \<or> tir_Attestation response = te_MagicPass ext")
  case True
  with assms(3) show ?thesis by (auto simp: DataVerification_def tee_attested_def split: if_splits)
next
  case False
  with assms(1,3) have aud: "tc_TeeAudience (tv_Cfg v) \<noteq> ''''" by (auto simp: DataVerification_def)
  with False assms(1,3) obtain l i where
    f: "fetch (tir_Attestation response) (Some (tc_GoogleRootCertificate (tv_Cfg v))) c = (Inr (l, i), c')" and
    v: "validateAttestation ext (tv_Cfg v) response teeId l i = Inr si"
    by (auto simp: DataVerification_def io_simps)
  from v False aud fetch_checked [OF assms(2) f] show ?thesis
    by (auto simp: validateAttestation_def tee_attested_def result_simps split: if_splits)
qed

lemma data_verification_keeps:
  assumes "tv_CRLCache v = Some fetch"
  shows "preserves invar (DataVerification ext v response teeId)"
  unfolding DataVerification_def assms option.case
  by (auto intro!: preserves_bind preserves_map_error fetch_keeps split: prod.splits)

end

context revocation_source
begin

lemma tee_verify_sound:
  assumes "tv_CRLCache v = Some fetch" and "invar c" and "Tee_Verify ext nl hl pause v req c = (Inr resp, c')"
  shows "tee_spec ext nl hl (tv_Cfg v) (tv_RelayCaller v) checked (FormatProxyURL v (tq_Url req)) (cc_world c) req resp (cc_world c') \<and>
    invar c'"
proof -
  let ?url = "FormatProxyURL v (tq_Url req)"
  from assms(3) obtain a response signer c1 where
    f: "on_world (FetchTEEChallengeResult ext nl hl ?url (tq_InstructionId req) (tc_AllowPrivateNetworks (tv_Cfg v))) c =
      (Inr (a, response, signer), c1)" and
    b: "checkChallengeBinding ext (tv_Cfg v) req a response signer = Inr ()"
    unfolding Tee_Verify_def by (auto simp: io_simps)
  obtain dv c2 where dv: "DataVerification ext v response (tq_TeeId req) c1 = (dv, c2)" by fastforce
  obtain st sp w2 where sp: "CheckSigningPolicies v pause (tir_TeeInfo response) (cc_world c2) = ((st, sp), w2)"
    by (metis prod.collapse)
  from assms(3) f b dv sp obtain si where si: "dv = Inr si" "sp = None" and
    r: "resp = teeResponse si (tir_TeeInfo response)" "c' = c2\<lparr>cc_world := w2\<rparr>"
    unfolding Tee_Verify_def by (auto simp: io_simps split: sum.splits option.splits)
  from f obtain w1 where fw: "FetchTEEChallengeResult ext nl hl ?url (tq_InstructionId req)
      (tc_AllowPrivateNetworks (tv_Cfg v)) (cc_world c) = (Inr (a, response, signer), w1)" "c1 = c\<lparr>cc_world := w1\<rparr>"
    by (auto simp: on_world_def split: prod.splits)
  have inv1: "invar c1" unfolding fw(2) by (rule invar_world [OF assms(2)])
  from data_verification_sound [OF assms(1) inv1, of ext response "tq_TeeId req" si c2] dv si
  have att: "tee_attested ext (tv_Cfg v) (checked w1) response (tq_TeeId req) si" by (simp add: fw(2))
  have inv2: "invar c2" using preservesD [OF data_verification_keeps [OF assms(1)] inv1 dv] .
  from sp si have pol: "policies_match (tv_RelayCaller v) (tir_TeeInfo response) (cc_world c2) w2"
    by (simp add: CheckSigningPolicies_ok_iff)
  from FetchTEEChallengeResult_InrD [OF fw(1)] obtain reqURL resolved w0 addr host sni data where
    net: "resolveExternalURL nl ?url (tc_AllowPrivateNetworks (tv_Cfg v)) (cc_world c) = (Inr resolved, w0)"
      "BuildPinnedAddr nl resolved = (addr, host, sni)"
      "client_Do hl \<lparr>hr_URL = reqURL, hr_Timeout = fetchChallengeTimeout, hr_dialAddr = addr, hr_Host = host,
        hr_ServerName = sni\<rparr> w0 = (Reply 200 data None, w1)"
      "te_decode_ActionResponse ext data = Inr a" "readChallengeResult ext a = Inr (a, response, signer)"
    by (elim exE conjE) (rule that)
  define hreq where "hreq = \<lparr>hr_URL = reqURL, hr_Timeout = fetchChallengeTimeout, hr_dialAddr = addr, hr_Host = host,
        hr_ServerName = sni\<rparr>"
  then have h: "hr_dialAddr hreq = fst (BuildPinnedAddr nl resolved)" "client_Do hl hreq w0 = (Reply 200 data None, w1)"
    using net(2,3) by simp_all
  note bind = b [unfolded checkChallengeBinding_ok_iff verifyActionResult_ok_iff]
  note rd = net(5) [unfolded readChallengeResult_ok_iff]
  have "tee_spec ext nl hl (tv_Cfg v) (tv_RelayCaller v) checked ?url (cc_world c) req resp w2"
    unfolding tee_spec_def
    using net(1,4) h att pol r(1) bind rd by metis
  with inv2 r(2) invar_world show ?thesis by simp
qed

end

end
