(* ===== verification/Tee_Soundness.thy ===== *)
theory Tee_Soundness
  imports Tee_Verifier
begin

text \<open>
  The revocation cache as the verifier's \<open>revocation_source\<close>, which errors the TEE verifier can return, and
  the properties of the availability check.
\<close>

section \<open>Errors of other packages\<close>

definition net_foreign :: "'w net_lib \<Rightarrow> bool" where
  "net_foreign nl \<longleftrightarrow> (\<forall>s. foreign_result (url_Parse nl s)) \<and> (\<forall>h w. foreign_result (fst (LookupIPAddr nl h w)))"

definition http_foreign :: "'w http_lib \<Rightarrow> bool" where
  "http_foreign hl \<longleftrightarrow> (\<forall>u. foreign_result (NewRequest hl u)) \<and> (\<forall>r w. outcome_foreign (fst (client_Do hl r w)))"

definition x509_foreign :: "x509_lib \<Rightarrow> bool" where
  "x509_foreign xl \<longleftrightarrow> (\<forall>b. foreign_result (x509_ParseRevocationList xl b)) \<and>
     (\<forall>l c. foreign_result (crl_CheckSignatureFrom xl l c)) \<and> (\<forall>a b. foreign_result (cert_CheckSignatureFrom xl a b))"

definition crl_env_foreign :: "'w crl_env \<Rightarrow> 'x token_lib \<Rightarrow> bool" where
  "crl_env_foreign env gl \<longleftrightarrow> net_foreign (ce_net env) \<and> http_foreign (ce_http env) \<and> x509_foreign (ce_x509 env) \<and>
     (\<forall>w e. ce_ctx env w = Some e \<longrightarrow> foreign_error e) \<and>
     (\<forall>t. foreign_result (ParsePKITokenUnverified gl t)) \<and> (\<forall>x. foreign_result (ExtractCertificatesFromX5CHeader gl x))"

section \<open>Tags of the fetch and of the revocation cache\<close>

lemma foreign_in_fetch_tags: "set foreign_sentinels \<subseteq> set fetch_tags"
  by (auto simp: fetch_tags_def)

lemma foreign_fetch_tags: "foreign_error e \<Longrightarrow> only_tags fetch_tags e"
  using only_tags_foreign foreign_in_fetch_tags by blast

lemma foreign_result_tags:
  assumes "foreign_result r" and "\<And>e. foreign_error e \<Longrightarrow> only_tags S (g e)"
  shows "result_tags S (map_error g r)"
  using assms by (cases r) (auto simp: foreign_result_def result_tags_def)

lemma foreign_result_tags_id:
  assumes "foreign_result r" and "set foreign_sentinels \<subseteq> set S"
  shows "result_tags S r"
  using assms only_tags_foreign by (cases r) (auto simp: foreign_result_def)

lemma fetch_tag_simps [simp]:
  "ErrURLValidation \<in> set fetch_tags" "ErrHTTPFetch \<in> set fetch_tags" "ErrRedirect \<in> set fetch_tags"
  "ErrNotFound \<in> set fetch_tags" "ErrResponseTooLarge \<in> set fetch_tags"
  by (simp_all add: fetch_tags_def)

lemma crl_tags_mono: "set fetch_tags \<subseteq> set crl_tags"
  by (auto simp: crl_tags_def)

lemma crl_tag_simps [simp]:
  "ErrURLValidation \<in> set crl_tags" "ErrHTTPFetch \<in> set crl_tags" "ErrRedirect \<in> set crl_tags"
  "ErrNotFound \<in> set crl_tags" "ErrResponseTooLarge \<in> set crl_tags" "ErrTEERevocationUnavailable \<in> set crl_tags"
  by (simp_all add: crl_tags_def)

lemma foreign_crl_tags: "foreign_error e \<Longrightarrow> only_tags crl_tags e"
  using only_tags_mono foreign_fetch_tags crl_tags_mono by blast

lemma only_tags_leaves [simp]:
  "only_tags S NetError" "only_tags S (HTTPStatusError code) \<longleftrightarrow> ErrHTTPFetch \<in> set S"
  by (auto simp: only_tags_def)

lemma checkURLHost_tags:
  assumes "net_foreign nl"
  shows "result_tags fetch_tags (checkURLHost nl url allow)"
proof -
  have "result_tags fetch_tags (map_error (tag_with ErrURLValidation) (url_Parse nl url))"
    using assms by (intro foreign_result_tags) (auto simp: net_foreign_def foreign_fetch_tags)
  then show ?thesis
    unfolding checkURLHost_def Let_def
    by (auto intro!: result_tags_bind result_tags_ensure)
qed

lemma io_tags_map_error: "io_tags S m s \<Longrightarrow> (\<And>e. only_tags S e \<Longrightarrow> only_tags T (g e)) \<Longrightarrow> io_tags T (io_map_error g m) s"
  by (auto simp: io_tags_def io_map_error_apply result_tags_def map_error_eq_Inl_iff)

lemma resolve_tags:
  assumes "net_foreign nl"
  shows "io_tags fetch_tags (resolveExternalURL nl url allow) w"
proof -
  have l: "io_tags fetch_tags (io_map_error (tag_with ErrURLValidation) (LookupIPAddr nl host)) w" for host w
  proof -
    have "foreign_result (fst (LookupIPAddr nl host w))" using assms by (simp add: net_foreign_def)
    then show ?thesis
      unfolding io_tags_def io_map_error_apply fst_conv
      by (rule foreign_result_tags) (simp add: foreign_fetch_tags)
  qed
  show ?thesis
    unfolding resolveExternalURL_def
    by (intro io_tags_bind) (auto simp: checkURLHost_tags [OF assms] io_tags_def [of _ "io_return _"]
        split: option.splits prod.splits list.splits intro!: io_tags_bind l)
qed

lemma FetchBytesPinned_tags:
  assumes "http_foreign hl"
  shows "io_tags fetch_tags (FetchBytesPinned hl url t addr host sni) w"
proof -
  have r: "result_tags fetch_tags (readResponse code body err)" if "case err of Some e \<Rightarrow> foreign_error e | None \<Rightarrow> True"
    for code body err
    using that by (auto simp: readResponse_def ReadAllLimited_def foreign_fetch_tags intro!: result_tags_bind result_tags_map_error
        split: option.splits if_splits)
  have n: "result_tags fetch_tags (map_error wrap1 (NewRequest hl url))"
    using assms by (intro foreign_result_tags) (auto simp: http_foreign_def foreign_fetch_tags)
  have o: "outcome_foreign (fst (client_Do hl q w))" for q w using assms by (simp add: http_foreign_def)
  show ?thesis
    unfolding FetchBytesPinned_def
  proof (rule io_tags_bind)
    fix x s'
    let ?q = "\<lparr>hr_URL = url, hr_Timeout = t, hr_dialAddr = addr, hr_Host = host, hr_ServerName = sni\<rparr>"
    obtain out w' where "client_Do hl ?q s' = (out, w')" by fastforce
    with o [of ?q s'] r show "io_tags fetch_tags (\<lambda>w. case client_Do hl ?q w of
        (TransportError e, w') \<Rightarrow> (Inl (Wrap [url_Error e, Sentinel ErrHTTPFetch]), w')
      | (RedirectAnswer, w') \<Rightarrow> (Inl (Wrap [url_Error (Sentinel ErrRedirect), Sentinel ErrHTTPFetch]), w')
      | (Reply code body err, w') \<Rightarrow> (readResponse code body err, w')) s'"
      by (cases out) (auto simp: io_tags_def url_Error_def foreign_fetch_tags)
  qed (simp add: n)
qed

lemma io_tags_return [simp]: "io_tags S (io_return x) s" "io_tags S (io_get f) s" "io_tags S (io_modify g) s"
  by (simp_all add: io_tags_def)

lemma io_tags_on_world: "(\<And>w. io_tags S m w) \<Longrightarrow> io_tags S (on_world m) c"
  by (simp add: io_tags_def on_world_def split: prod.splits) (metis fst_conv)

lemma time_tags [simp]: "io_tags S (time_Now env) c" "io_tags S (isEntryStale env e) c"
  using time_Now_total [of env c] isEntryStale_total [of env e c] by (auto simp: io_tags_def)

lemma fetchCRLBytes_fetch_tags:
  assumes "net_foreign (ce_net env)" and "http_foreign (ce_http env)"
  shows "io_tags fetch_tags (fetchCRLBytes env url t) w"
  using assms unfolding fetchCRLBytes_def
  by (auto intro!: io_tags_bind io_tags_map_error [where S = fetch_tags] resolve_tags FetchBytesPinned_tags split: prod.splits)

lemma fetchCRLBytes_tags:
  assumes "crl_env_foreign env gl"
  shows "io_tags crl_tags (fetchCRLBytes env url t) w"
  using fetchCRLBytes_fetch_tags [of env url t w] only_tags_mono [OF _ crl_tags_mono] assms
  by (auto simp: io_tags_def result_tags_def crl_env_foreign_def)

lemma verifyCRLIssuer_tags:
  assumes "crl_env_foreign env gl"
  shows "result_tags crl_tags (map_error wrap1 (verifyCRLIssuer env crl issuer))"
proof -
  have "foreign_result (verifyCRLIssuer env crl issuer)"
    using assms by (auto simp: verifyCRLIssuer_def crl_env_foreign_def x509_foreign_def foreign_result_def)
  then show ?thesis by (rule foreign_result_tags) (simp add: foreign_crl_tags)
qed

lemma cachedFresh_tags:
  assumes "crl_env_foreign env gl"
  shows "io_tags crl_tags (cachedFresh env key issuer) c"
  unfolding cachedFresh_def
  by (auto intro!: io_tags_bind result_tags_bind verifyCRLIssuer_tags [OF assms] split: option.splits)

lemma storeCRL_total: "\<exists>c'. storeCRL env key crl c = (Inr (), c')"
proof -
  have "\<exists>c1. makeRoom env key c = (Inr (), c1)"
    using evictStale_total [of env c] by (auto simp: makeRoom_def io_bind_Inr)
  then obtain c1 where c1: "makeRoom env key c = (Inr (), c1)" by blast
  obtain t c2 where "time_Now env c1 = (Inr t, c2)" using time_Now_total by blast
  with c1 show ?thesis by (simp add: storeCRL_def io_bind_Inr)
qed

lemma flightFetch_tags:
  assumes "crl_env_foreign env gl"
  shows "io_tags crl_tags (flightFetch env key url issuer) c"
proof -
  have p: "result_tags crl_tags (parseFetchedCRL env issuer data)" for data
  proof -
    have "result_tags crl_tags (map_error wrap1 (x509_ParseRevocationList (ce_x509 env) b))" for b
      using assms by (intro foreign_result_tags) (auto simp: crl_env_foreign_def x509_foreign_def foreign_crl_tags)
    then show ?thesis
      unfolding parseFetchedCRL_def Let_def by (auto intro!: result_tags_bind verifyCRLIssuer_tags [OF assms])
  qed
  have f: "io_tags crl_tags (io_map_error crlFetchError (on_world (fetchCRLBytes env url crlFetchTimeout))) c" for c
    by (rule io_tags_map_error [OF io_tags_on_world [OF fetchCRLBytes_tags [OF assms]]]) (simp add: crlFetchError_def)
  have s: "io_tags crl_tags (storeCRL env key crl) c" for crl c
    using storeCRL_total [of env key crl c] by (auto simp: io_tags_def)
  show ?thesis
    unfolding flightFetch_def
    by (auto intro!: io_tags_bind cachedFresh_tags [OF assms] f s simp: p split: option.splits)
qed

section \<open>Which failures of a download are outages\<close>

text \<open>
  A failed DNS lookup can be retried when the resolver calls it temporary or timed out, or when the context ended. Reading a URL involves no network:
  neither the URL parser nor the request constructor reports such an error.
\<close>

definition lookup_retryable :: "goerr \<Rightarrow> bool" where
  "lookup_retryable e =
     (case errors_As as_DNSError e of
        Some (isTemporary, isTimeout) \<Rightarrow> isTemporary \<or> isTimeout
      | None \<Rightarrow> errors_Is e DeadlineExceeded \<or> errors_Is e Canceled)"

definition fetch_libs_ok :: "'w crl_env \<Rightarrow> bool" where
  "fetch_libs_ok env \<longleftrightarrow> net_foreign (ce_net env) \<and> http_foreign (ce_http env) \<and> x509_foreign (ce_x509 env) \<and>
     (\<forall>s e. url_Parse (ce_net env) s = Inl e \<longrightarrow> \<not> lookup_retryable e) \<and>
     (\<forall>s e. NewRequest (ce_http env) s = Inl e \<longrightarrow> \<not> lookup_retryable e)"

text \<open>
  The failures of a download that may pass: the URL is acceptable and the lookup of its host fails for now, or the host resolved to public addresses and the
  exchange with the pinned one fails for now.
\<close>

definition download_retryable :: "'w crl_env \<Rightarrow> string \<Rightarrow> duration \<Rightarrow> 'w \<Rightarrow> bool" where
  "download_retryable env url t w \<longleftrightarrow>
     (\<exists>u host e w1. checkURLHost (ce_net env) url False = Inr (u, host) \<and> net_ParseIP (ce_net env) host = None \<and>
        LookupIPAddr (ce_net env) host w = (Inl e, w1) \<and> lookup_retryable e) \<or>
     (\<exists>resolved w1 addr host sni. resolveExternalURL (ce_net env) url False w = (Inr resolved, w1) \<and>
        NewRequest (ce_http env) url = Inr () \<and> BuildPinnedAddr (ce_net env) resolved = (addr, host, sni) \<and>
        outcome_retryable (fst (client_Do (ce_http env) \<lparr>hr_URL = url, hr_Timeout = t, hr_dialAddr = addr, hr_Host = host,
          hr_ServerName = sni\<rparr> w1)))"

lemma transient_wrapped:
  assumes "foreign_error e"
  shows "isTransientFetchError (wrap1 e) \<longleftrightarrow> lookup_retryable e"
    "isTransientFetchError (wrap1 (tag_with ErrURLValidation e)) \<longleftrightarrow> lookup_retryable e"
  using assms
  by (auto simp: isTransientFetchError_def lookup_retryable_def foreign_not_own foreign_no_status split: option.splits)

lemma checkURLHost_InlD:
  assumes "checkURLHost nl url allow = Inl e"
  shows "e = tag ErrURLValidation \<or> (\<exists>cause. url_Parse nl url = Inl cause \<and> e = tag_with ErrURLValidation cause)"
  using assms by (cases "url_Parse nl url") (auto simp: checkURLHost_def Let_def ensure_def result_simps split: if_splits)

lemma resolve_transient:
  assumes "fetch_libs_ok env" and r: "resolveExternalURL (ce_net env) url False w = (Inl e, w')"
  shows "isTransientFetchError (wrap1 e) \<longleftrightarrow>
    (\<exists>u host cause w1. checkURLHost (ce_net env) url False = Inr (u, host) \<and> net_ParseIP (ce_net env) host = None \<and>
       LookupIPAddr (ce_net env) host w = (Inl cause, w1) \<and> lookup_retryable cause)"
proof -
  have plain: "\<not> isTransientFetchError (wrap1 (tag ErrURLValidation))" by (simp add: isTransientFetchError_def)
  show ?thesis
  proof (cases "checkURLHost (ce_net env) url False")
    case (Inl d)
    with r have "e = d" by (simp add: resolveExternalURL_def io_bind_def)
    with checkURLHost_InlD [OF Inl] have "\<not> isTransientFetchError (wrap1 e)"
      using assms(1) plain transient_wrapped(2) unfolding fetch_libs_ok_def net_foreign_def by (metis foreign_resultD)
    with Inl show ?thesis by simp
  next
    case (Inr x)
    obtain u host where x: "x = (u, host)" by (cases x)
    show ?thesis
    proof (cases "net_ParseIP (ce_net env) host")
      case (Some ip)
      with r Inr x plain show ?thesis by (auto simp: resolveExternalURL_def io_bind_def split: if_splits)
    next
      case None
      obtain l w1 where l: "LookupIPAddr (ce_net env) host w = (l, w1)" by fastforce
      show ?thesis
      proof (cases l)
        case (Inl cause)
        then have "foreign_error cause"
          using l assms(1) unfolding fetch_libs_ok_def net_foreign_def by (metis foreign_resultD fst_conv)
        moreover from r Inr x None l Inl have "e = tag_with ErrURLValidation cause"
          by (simp add: resolveExternalURL_def io_bind_def io_map_error_def)
        ultimately show ?thesis using transient_wrapped(2) [of cause] Inr x None l Inl by auto
      next
        case ips: (Inr ips)
        with r Inr x None l have "e = tag ErrURLValidation"
          by (auto simp: resolveExternalURL_def io_bind_def io_map_error_def split: list.splits if_splits)
        with plain Inr x None l ips show ?thesis by auto
      qed
    qed
  qed
qed

lemma fetchCRLBytes_transient:
  assumes "fetch_libs_ok env" and f: "fetchCRLBytes env url t w = (r, w')"
  shows "(\<exists>e. r = Inl e \<and> isTransientFetchError e) \<longleftrightarrow> download_retryable env url t w"
proof (cases "resolveExternalURL (ce_net env) url False w")
  case (Pair res w1)
  show ?thesis
  proof (cases res)
    case (Inl e)
    with Pair f have "r = Inl (wrap1 e)" by (simp add: fetchCRLBytes_def io_bind_def io_map_error_def)
    with resolve_transient [OF assms(1)] Pair Inl show ?thesis by (auto simp: download_retryable_def)
  next
    case (Inr resolved)
    obtain addr host sni where pin: "BuildPinnedAddr (ce_net env) resolved = (addr, host, sni)" by (rule prod_cases3)
    let ?q = "\<lparr>hr_URL = url, hr_Timeout = t, hr_dialAddr = addr, hr_Host = host, hr_ServerName = sni\<rparr>"
    obtain out w2 where out: "client_Do (ce_http env) ?q w1 = (out, w2)" by fastforce
    have foreign: "outcome_foreign out" using assms(1) out unfolding fetch_libs_ok_def http_foreign_def by (metis fst_conv)
    have g: "FetchBytesPinned (ce_http env) url t addr host sni w1 = (r, w')"
      using f Pair Inr pin by (simp add: fetchCRLBytes_def io_bind_def io_map_error_def)
    have lookup: "\<not> (\<exists>u h e w3. checkURLHost (ce_net env) url False = Inr (u, h) \<and> net_ParseIP (ce_net env) h = None \<and>
        LookupIPAddr (ce_net env) h w = (Inl e, w3) \<and> lookup_retryable e)"
      using resolve_InrD [of "ce_net env" url False w resolved w1] Pair Inr by auto
    show ?thesis
    proof (cases "NewRequest (ce_http env) url")
      case (Inl e)
      with g have "r = Inl (wrap1 e)" by (simp add: FetchBytesPinned_def io_bind_def)
      moreover have "foreign_error e" "\<not> lookup_retryable e"
        using assms(1) Inl unfolding fetch_libs_ok_def http_foreign_def by (metis foreign_resultD, blast)
      ultimately show ?thesis using transient_wrapped(1) [of e] lookup Inl by (auto simp: download_retryable_def)
    next
      case req: (Inr u)
      then have "download_retryable env url t w \<longleftrightarrow> outcome_retryable out"
        using lookup Pair Inr pin out by (auto simp: download_retryable_def)
      moreover have "(\<exists>e. r = Inl e \<and> isTransientFetchError e) \<longleftrightarrow> outcome_retryable out"
      proof (cases r)
        case (Inl e)
        with exchange_transient [OF _ _ pin out foreign] Pair \<open>res = Inr resolved\<close> req f show ?thesis by simp
      next
        case (Inr data)
        with FetchBytesPinned_InrD [of "ce_http env" url t addr host sni w1 data w'] g out show ?thesis by auto
      qed
      ultimately show ?thesis by simp
    qed
  qed
qed

lemma parseFetchedCRL_fetch_tags:
  assumes "x509_foreign (ce_x509 env)"
  shows "result_tags fetch_tags (parseFetchedCRL env issuer data)"
proof -
  have v: "foreign_result (verifyCRLIssuer env crl issuer)" for crl
    using assms by (auto simp: verifyCRLIssuer_def x509_foreign_def foreign_result_def)
  have "result_tags fetch_tags (map_error wrap1 (x509_ParseRevocationList (ce_x509 env) b))"
    "result_tags fetch_tags (map_error wrap1 (verifyCRLIssuer env crl issuer))" for b crl
    using assms v by (auto intro!: foreign_result_tags simp: x509_foreign_def foreign_fetch_tags)
  then show ?thesis unfolding parseFetchedCRL_def Let_def by (auto intro!: result_tags_bind)
qed

text \<open>
  C26. A failed shared fetch is tagged as a revocation outage exactly when its download failed for a reason that may pass. Such a reason is a DNS lookup of an
  acceptable host that failed temporarily, timed out or was cancelled; a transport failure or an interrupted body (unless a permanent DNS error caused it); or one of the
  statuses 5xx, 408 and 429. An unacceptable URL, a host that does not exist or resolves to a blocked address, a refused redirect, a 404, any other
  status, an oversized body, and a list that does not parse, does not verify or has no validity horizon are never tagged. Errors of other packages carry no sentinel of this program.
\<close>

theorem crl_retry_exact:
  assumes "fetch_libs_ok env" and "cachedFresh env key issuer c = (Inr None, c1)"
    and "flightFetch env key url issuer c = (Inl err, c')"
  shows "errors_Is err ErrTEERevocationUnavailable \<longleftrightarrow> download_retryable env url 2000000000 (cc_world c1)"
proof -
  have libs: "net_foreign (ce_net env)" "http_foreign (ce_http env)" "x509_foreign (ce_x509 env)"
    using assms(1) by (simp_all add: fetch_libs_ok_def)
  have own: "ErrTEERevocationUnavailable \<notin> set fetch_tags" by (simp add: fetch_tags_def foreign_sentinels_def)
  have timeout: "crlFetchTimeout = 2000000000" by (simp add: crlFetchTimeout_def)
  obtain r w' where d: "fetchCRLBytes env url crlFetchTimeout (cc_world c1) = (r, w')" by fastforce
  note t = fetchCRLBytes_transient [OF assms(1) d, unfolded timeout]
  show ?thesis
  proof (cases r)
    case (Inl e)
    with d assms(2,3) have "err = crlFetchError e"
      by (simp add: flightFetch_def io_bind_def io_map_error_def on_world_def)
    moreover have "only_tags fetch_tags e"
      using fetchCRLBytes_fetch_tags [OF libs(1,2), of url crlFetchTimeout "cc_world c1"] d Inl by (simp add: io_tags_def)
    then have "\<not> errors_Is e ErrTEERevocationUnavailable" using own by (auto simp: only_tags_def)
    ultimately show ?thesis using t Inl by (auto simp: crlFetchError_def)
  next
    case (Inr data)
    have "parseFetchedCRL env issuer data = Inl err"
    proof (cases "parseFetchedCRL env issuer data")
      case crl: (Inr crl)
      obtain c3 where "storeCRL env key crl (c1\<lparr>cc_world := w'\<rparr>) = (Inr (), c3)" using storeCRL_total by blast
      with Inr crl d assms(2,3) show ?thesis by (simp add: flightFetch_def io_bind_def io_map_error_def on_world_def)
    qed (use Inr d assms(2,3) in \<open>simp add: flightFetch_def io_bind_def io_map_error_def on_world_def\<close>)
    with parseFetchedCRL_fetch_tags [OF libs(3), of issuer data] own have "\<not> errors_Is err ErrTEERevocationUnavailable"
      by (auto simp: only_tags_def)
    with t Inr show ?thesis by simp
  qed
qed

text \<open>A distribution point that answers 503, one that answers 403, and one whose name cannot be resolved for now.\<close>

definition sample_dns_down :: "unit crl_env" where
  "sample_dns_down = (sample_crl_env RedirectAnswer)\<lparr>ce_net := sample_net\<lparr>LookupIPAddr := \<lambda>_ w. (Inl (DNSError True False), w)\<rparr>\<rparr>"

theorem crl_retry_exact_witness:
  "(\<exists>err. fst (flightFetch (sample_crl_env (Reply 503 [] None)) ''k'' ''https://tee.example:8443'' sample_issuer (NewCRLCache ())) = Inl err \<and>
      errors_Is err ErrTEERevocationUnavailable) \<and>
   (\<exists>err. fst (flightFetch (sample_crl_env (Reply 403 [] None)) ''k'' ''https://tee.example:8443'' sample_issuer (NewCRLCache ())) = Inl err \<and>
      \<not> errors_Is err ErrTEERevocationUnavailable) \<and>
   (\<exists>err. fst (flightFetch sample_dns_down ''k'' ''https://tee.example:8443'' sample_issuer (NewCRLCache ())) = Inl err \<and>
      errors_Is err ErrTEERevocationUnavailable)"
proof -
  let ?url = "''https://tee.example:8443''"
  let ?miss = "\<lambda>env. cachedFresh env ''k'' sample_issuer (NewCRLCache ()) = (Inr None, NewCRLCache ())"
  have miss: "?miss env" for env by (simp add: cachedFresh_def NewCRLCache_def)
  have libs: "fetch_libs_ok (sample_crl_env out)" if "outcome_foreign out" for out
    using that by (auto simp: fetch_libs_ok_def net_foreign_def http_foreign_def x509_foreign_def sample_crl_env_def sample_net_def
      sample_http_def sample_x509_def foreign_result_def lookup_retryable_def)
  then have libs_down: "fetch_libs_ok sample_dns_down"
    using libs [of RedirectAnswer] by (auto simp: fetch_libs_ok_def net_foreign_def sample_dns_down_def foreign_result_def sample_crl_env_def sample_net_def)
  have down: "fetchCRLBytes sample_dns_down ?url t () = (Inl (wrap1 (tag_with ErrURLValidation (DNSError True False))), ())" for t
  proof -
    have same: "checkURLHost (sample_net\<lparr>LookupIPAddr := f\<rparr>) a b = checkURLHost sample_net a b" for f a b
      by (simp add: checkURLHost_def)
    obtain u h where "checkURLHost sample_net ?url False = Inr (u, h)" using resolve_InrD [OF sample_resolves] by blast
    moreover have "net_ParseIP sample_net h = None" by (simp add: sample_net_def)
    ultimately show ?thesis
      by (simp add: fetchCRLBytes_def resolveExternalURL_def sample_dns_down_def sample_crl_env_def same io_bind_def io_map_error_def)
  qed
  have tagged: "\<exists>err. fst (flightFetch env ''k'' ?url sample_issuer (NewCRLCache ())) = Inl err \<and>
      (errors_Is err ErrTEERevocationUnavailable \<longleftrightarrow> isTransientFetchError e)"
    if "fetch_libs_ok env" "\<And>t. fetchCRLBytes env ?url t () = (Inl e, ())" for env e
  proof -
    have "flightFetch env ''k'' ?url sample_issuer (NewCRLCache ()) = (Inl (crlFetchError e), NewCRLCache ())"
      using that(2) miss [of env, unfolded NewCRLCache_def]
      by (simp add: flightFetch_def io_bind_def io_map_error_def on_world_def NewCRLCache_def)
    with crl_retry_exact [OF that(1) miss this] fetchCRLBytes_transient [OF that(1) that(2) [of 2000000000]] show ?thesis
      by (simp add: NewCRLCache_def)
  qed
  have status: "fetchCRLBytes (sample_crl_env (Reply code [] None)) ?url t () = (Inl (HTTPStatusError code), ())"
    if "code \<noteq> 200" "code \<noteq> 404" for code t using that by (simp add: sample_fetch readResponse_def)
  from tagged [OF libs status, of 503] tagged [OF libs status, of 403] tagged [OF libs_down down] show ?thesis
    by (simp add: transient_status transient_wrapped lookup_retryable_def)
qed

lemma getOrFetchCRL_tags:
  assumes "crl_env_foreign env gl"
  shows "io_tags crl_tags (getOrFetchCRL env url issuer) c"
proof -
  have "io_tags crl_tags (awaitShared env key url i) c" for key i c
  proof -
    obtain r c' where r: "flightFetch env key url i c = (r, c')" by fastforce
    then have "result_tags crl_tags r" using flightFetch_tags [OF assms, of key url i c] by (simp add: io_tags_def)
    then have "result_tags crl_tags (deliverShared env i r)"
      unfolding deliverShared_def by (auto intro!: result_tags_bind verifyCRLIssuer_tags [OF assms])
    with r assms show ?thesis
      by (auto simp: io_tags_def awaitShared_def crl_env_foreign_def foreign_crl_tags split: option.splits)
  qed
  then show ?thesis
    unfolding getOrFetchCRL_def Let_def
    by (auto intro!: io_tags_bind cachedFresh_tags [OF assms] split: option.splits)
qed

lemma first_crl_loop_tags:
  assumes "crl_env_foreign env gl" and "\<forall>e \<in> set errs. only_tags crl_tags e"
  shows "io_tags crl_tags (first_crl_loop env issuer errs urls) c"
  using assms(2)
proof (induction urls arbitrary: errs c)
  case (Cons url urls errs c)
  obtain r c' where r: "getOrFetchCRL env url issuer c = (r, c')" by fastforce
  with getOrFetchCRL_tags [OF assms(1), of url issuer c] have "result_tags crl_tags r" by (simp add: io_tags_def)
  with r Cons.IH [of "errs @ [wrap1 e]" c' for e] Cons.prems show ?case
    by (cases r) (auto simp: io_tags_def)
qed simp

lemma FetchCRLsForToken_tags:
  assumes "crl_env_foreign env gl"
  shows "io_tags crl_tags (FetchCRLsForToken env gl token root) c"
proof -
  have p: "result_tags crl_tags (map_error wrap1 (ParsePKITokenUnverified gl token))"
    "result_tags crl_tags (map_error wrap1 (ExtractCertificatesFromX5CHeader gl x))" for x
    using assms by (auto intro!: foreign_result_tags simp: crl_env_foreign_def foreign_crl_tags)
  have t: "result_tags crl_tags (tokenCerts gl token root)"
    unfolding tokenCerts_def by (auto intro!: result_tags_bind p split: x5c_header.splits option.splits)
  have sig: "result_tags crl_tags (map_error wrap1 (cert_CheckSignatureFrom (ce_x509 env) a b))" for a b
    using assms by (intro foreign_result_tags) (auto simp: crl_env_foreign_def x509_foreign_def foreign_crl_tags)
  have val: "result_tags crl_tags (checkCertValidity a n)" for a n by (simp add: checkCertValidity_def)
  have v: "io_tags crl_tags (io_map_error wrap1 (validateX5CChain env a b d)) c" for a b d c
    unfolding validateX5CChain_def
    by (rule io_tags_map_error [where S = crl_tags]) (auto intro!: io_tags_bind result_tags_bind val sig)
  have f: "io_tags crl_tags (fetchFirstCRL env dps issuer) c" for dps issuer c
    unfolding fetchFirstCRL_def by (auto intro!: io_tags_bind first_crl_loop_tags [OF assms])
  have f': "result_tags crl_tags r" if "fetchFirstCRL env dps issuer c = (r, c')" for dps issuer c r c'
    using f [of dps issuer c] that by (simp add: io_tags_def)
  show ?thesis
    unfolding FetchCRLsForToken_def
    by (intro io_tags_bind v) (auto simp: t io_tags_def split: prod.splits intro!: result_tags_bind f')
qed

text \<open>
  What \<open>checked\<close> means for the cache asked in the state \<open>w\<close> of the outside world: the chain was valid at the clock reading made there
  and each list is vouched for by its issuer.
\<close>

definition chain_checked ::
  "'w crl_env \<Rightarrow> 'x token_lib \<Rightarrow> 'w \<Rightarrow> string \<Rightarrow> x509_Certificate \<Rightarrow> x509_RevocationList option \<Rightarrow> x509_RevocationList option \<Rightarrow> bool" where
  "chain_checked env gl w token trusted leafCRL interCRL \<longleftrightarrow>
     (\<exists>certs. tokenCerts gl token (Some trusted) = Inr certs \<and> chain_valid_at env (fst (ce_clock env w)) certs \<and>
        (leafCRL = None \<longleftrightarrow> cert_CRLDistributionPoints (x5c_Leaf certs) = []) \<and>
        (interCRL = None \<longleftrightarrow> cert_CRLDistributionPoints (x5c_Intermediate certs) = []) \<and>
        (\<forall>crl. leafCRL = Some crl \<longrightarrow> verifyCRLIssuer env crl (x5c_Intermediate certs) = Inr ()) \<and>
        (\<forall>crl. interCRL = Some crl \<longrightarrow> verifyCRLIssuer env crl (x5c_Root certs) = Inr ()))"

lemma FetchCRLsForToken_inv: "preserves (crl_inv env) (FetchCRLsForToken env gl token root)"
proof -
  have v: "preserves (crl_inv env) (io_map_error wrap1 (validateX5CChain env a b d))" for a b d
    by (rule preserves_map_error, rule crl_inv_keeps) (auto simp: validateX5CChain_def)
  show ?thesis
    unfolding FetchCRLsForToken_def
  proof (intro preserves_bind v)
    fix certs
    show "preserves (crl_inv env) (\<lambda>c.
     case fetchFirstCRL env (cert_CRLDistributionPoints (x5c_Leaf certs)) (Some (x5c_Intermediate certs)) c of
       (leafRes, c1) \<Rightarrow>
     (case fetchFirstCRL env (cert_CRLDistributionPoints (x5c_Intermediate certs)) (Some (x5c_Root certs)) c1 of
       (intermediateRes, c2) \<Rightarrow>
         (rbind leafRes (\<lambda>leafCRL. rbind intermediateRes (\<lambda>intermediateCRL.
            Inr (leafCRL, intermediateCRL))), c2)))"
      unfolding preserves_def
    proof (intro allI impI)
      fix c assume c: "crl_inv env c"
      obtain l c1 where l: "fetchFirstCRL env (cert_CRLDistributionPoints (x5c_Leaf certs)) (Some (x5c_Intermediate certs)) c = (l, c1)"
        by fastforce
      obtain i c2 where i: "fetchFirstCRL env (cert_CRLDistributionPoints (x5c_Intermediate certs)) (Some (x5c_Root certs)) c1 = (i, c2)"
        by fastforce
      from preservesD [OF fetchFirstCRL_inv preservesD [OF fetchFirstCRL_inv c l] i] l i
      show "crl_inv env (snd (case fetchFirstCRL env (cert_CRLDistributionPoints (x5c_Leaf certs)) (Some (x5c_Intermediate certs)) c of
       (leafRes, c1) \<Rightarrow>
     (case fetchFirstCRL env (cert_CRLDistributionPoints (x5c_Intermediate certs)) (Some (x5c_Root certs)) c1 of
       (intermediateRes, c2) \<Rightarrow>
         (rbind leafRes (\<lambda>leafCRL. rbind intermediateRes (\<lambda>intermediateCRL.
            Inr (leafCRL, intermediateCRL))), c2))))" by simp
    qed
  qed simp
qed

lemma time_Now_reading: "fst (time_Now env c) = Inr now \<longleftrightarrow> now = fst (ce_clock env (cc_world c))"
  by (auto simp: time_Now_def on_world_def split: prod.splits)

interpretation crls: revocation_source "FetchCRLsForToken env gl" "\<lambda>c. crl_inv env c \<and> crl_env_foreign env gl"
    "chain_checked env gl" for env gl
proof
  show "preserves (\<lambda>c. crl_inv env c \<and> crl_env_foreign env gl) (FetchCRLsForToken env gl token root)" for token root
    using FetchCRLsForToken_inv [of env gl token root] by (auto simp: preserves_def)
  show "crl_inv env c \<and> crl_env_foreign env gl \<Longrightarrow> FetchCRLsForToken env gl token (Some trusted) c = (Inr (l, i), c') \<Longrightarrow>
      chain_checked env gl (cc_world c) token trusted l i" for c token trusted l i c'
    using FetchCRLsForToken_InrD [of env gl token "Some trusted" c l i c']
    unfolding chain_checked_def time_Now_reading by blast
  show "crl_inv env c \<and> crl_env_foreign env gl \<Longrightarrow> io_tags crl_tags (FetchCRLsForToken env gl token root) c" for c token root
    using FetchCRLsForToken_tags by blast
qed (simp add: crl_inv_def)


section \<open>Errors of the availability check\<close>

definition ext_foreign :: "tee_ext \<Rightarrow> bool" where
  "ext_foreign ext \<longleftrightarrow> (\<forall>u p. foreign_result (te_JoinPath ext u p)) \<and>
     (\<forall>b. foreign_result (te_decode_ActionResponse ext b)) \<and> (\<forall>b. foreign_result (te_decode_TeeInfoResponse ext b)) \<and>
     (\<forall>d n h. foreign_result (te_Payload_Hash ext d n h)) \<and> (\<forall>h s. foreign_result (te_SignatureToSignersAddress ext h s)) \<and>
     (\<forall>h s a. foreign_result (te_VerifySignature ext h s a)) \<and> (\<forall>i. foreign_result (te_TeeInfo_Hash ext i)) \<and>
     (\<forall>k. foreign_result (te_PubKeyToAddress ext k)) \<and>
     (\<forall>t r l i p. foreign_result (te_ParseAndValidatePKIToken ext t r l i p)) \<and>
     (\<forall>c. foreign_result (te_CodeHash ext c)) \<and> (\<forall>c. foreign_result (te_Platform ext c))"

text \<open>
  The four detail sentinels come with \<open>ErrTEEDataValidation\<close>; a revocation outage never does, nor with any other
  verdict on the TEE.
\<close>

definition tee_details :: "sentinel list" where
  "tee_details = [ErrTEEChallengeMismatch, ErrTEEChainIDMismatch, ErrTEEProxySignerMismatch, ErrTEESigningPolicyHash]"

definition well_tagged :: "goerr \<Rightarrow> bool" where
  "well_tagged e \<longleftrightarrow>
     (\<forall>t \<in> set tee_details. errors_Is e t \<longrightarrow> errors_Is e ErrTEEDataValidation) \<and>
     (errors_Is e ErrTEERevocationUnavailable \<longrightarrow> only_tags crl_tags e)"

definition tee_tags :: "sentinel list" where
  "tee_tags = crl_tags @ tee_details @ [ErrTEEDataValidation, ErrActionResultNotFound, ErrTEEAttestationInvalid,
     ErrTEEActionResultMismatch, ErrTEEResponseMalformed, ErrNetwork, ErrRPC, ErrInvalidInput, ErrContext, ErrUnknown]"

lemma chained_Is:
  assumes "errors_Is e t" and "t \<in> {ErrTEEAttestationInvalid, ErrTEEActionResultMismatch, ErrTEEResponseMalformed}"
  shows "errors_Is e ErrTEEDataValidation"
proof -
  have "sentinel_unwrap s = Some u \<Longrightarrow> u = ErrTEEDataValidation" for s u by (cases s) auto
  then show ?thesis
    using assms by (induction e t rule: errors_Is.induct) (fastforce simp: list_ex_iff)+
qed

lemma crl_well:
  assumes "only_tags crl_tags e"
  shows "well_tagged e"
  using assms
  by (auto simp: well_tagged_def only_tags_def crl_tags_def fetch_tags_def tee_details_def foreign_sentinels_def)

lemma tagged_well:
  assumes "errors_Is e ErrTEEDataValidation" and "\<not> errors_Is e ErrTEERevocationUnavailable"
  shows "well_tagged e"
  using assms by (simp add: well_tagged_def)

definition tee_error_ok :: "goerr \<Rightarrow> bool" where
  "tee_error_ok e \<longleftrightarrow> only_tags tee_tags e \<and> well_tagged e"

lemma crl_in_tee_tags: "set crl_tags \<subseteq> set tee_tags"
  by (auto simp: tee_tags_def)

lemma tee_tag_simps [simp]:
  "ErrTEEDataValidation \<in> set tee_tags" "ErrActionResultNotFound \<in> set tee_tags" "ErrTEEAttestationInvalid \<in> set tee_tags"
  "ErrTEEActionResultMismatch \<in> set tee_tags" "ErrTEEResponseMalformed \<in> set tee_tags" "ErrNetwork \<in> set tee_tags"
  "ErrRPC \<in> set tee_tags" "ErrInvalidInput \<in> set tee_tags" "ErrContext \<in> set tee_tags" "ErrUnknown \<in> set tee_tags"
  "ErrTEEChallengeMismatch \<in> set tee_tags" "ErrTEEChainIDMismatch \<in> set tee_tags"
  "ErrTEEProxySignerMismatch \<in> set tee_tags" "ErrTEESigningPolicyHash \<in> set tee_tags"
  by (simp_all add: tee_tags_def tee_details_def)

lemma tags_not_in:
  "t \<notin> set fetch_tags \<Longrightarrow> only_tags fetch_tags e \<Longrightarrow> errors_Is e t = False"
  "t \<notin> set crl_tags \<Longrightarrow> only_tags crl_tags e \<Longrightarrow> errors_Is e t = False"
  by (auto simp: only_tags_def)

lemma crl_tags_excludes:
  "ErrTEEDataValidation \<notin> set crl_tags" "set tee_details \<inter> set crl_tags = {}"
  "ErrTEERevocationUnavailable \<notin> set fetch_tags" "ErrActionResultNotFound \<notin> set fetch_tags"
  by (auto simp: crl_tags_def fetch_tags_def tee_details_def foreign_sentinels_def)

lemma tee_tags_of_crl: "only_tags crl_tags e \<Longrightarrow> only_tags tee_tags e"
  using only_tags_mono crl_in_tee_tags by blast

lemma tee_tags_of_fetch: "only_tags fetch_tags e \<Longrightarrow> only_tags tee_tags e"
  using only_tags_mono crl_tags_mono tee_tags_of_crl by blast

lemma tee_ok_crl: "only_tags crl_tags e \<Longrightarrow> tee_error_ok (wrap1 e)"
  using crl_well [of "wrap1 e"] tee_tags_of_crl by (simp add: tee_error_ok_def)

lemma tee_ok_tagged:
  assumes "only_tags fetch_tags e" and "s \<in> {ErrTEEAttestationInvalid, ErrTEEActionResultMismatch, ErrTEEResponseMalformed}"
  shows "tee_error_ok (tag_with s e)"
proof -
  have "\<not> errors_Is e ErrTEERevocationUnavailable"
    using assms(1) crl_tags_excludes(3) tags_not_in(1) by blast
  with assms show ?thesis
    using tee_tags_of_fetch by (auto simp: tee_error_ok_def intro!: tagged_well)
qed

lemma tee_ok_wrap: "tee_error_ok (wrap1 e) \<longleftrightarrow> tee_error_ok e"
  by (simp add: tee_error_ok_def well_tagged_def)

lemma challenge_error_ok:
  assumes "only_tags fetch_tags e"
  shows "tee_error_ok (challengeFetchError e)"
proof -
  have r: "\<not> errors_Is e ErrTEERevocationUnavailable" "\<not> errors_Is e ErrTEEDataValidation"
    "\<And>t. t \<in> set tee_details \<Longrightarrow> \<not> errors_Is e t"
    using assms crl_tags_excludes tags_not_in(1) only_tags_mono [OF assms crl_tags_mono] by (auto simp: only_tags_def)
  show ?thesis
    using assms r tee_tags_of_fetch tee_ok_tagged [OF assms]
    by (auto simp: challengeFetchError_def tee_error_ok_def well_tagged_def tee_details_def)
qed


lemma readChallengeResult_errors:
  assumes "ext_foreign ext" and "readChallengeResult ext a = Inl e"
  shows "tee_error_ok e"
proof -
  have t: "tee_error_ok (tag ErrTEEResponseMalformed)"
    by (auto simp: tee_error_ok_def intro!: tagged_well)
  have m: "foreign_error d \<Longrightarrow> tee_error_ok (tag_with ErrTEEResponseMalformed d)" for d
    by (rule tee_ok_tagged) (simp_all add: foreign_fetch_tags)
  have p: "foreign_error d \<Longrightarrow> tee_error_ok (wrap1 d)" for d by (rule tee_ok_crl) (simp add: foreign_crl_tags)
  let ?d = "ar_Data (ap_Result a)"
  consider "?d = []" | "?d \<noteq> []" "\<not> te_json_Valid ext ?d"
    | "?d \<noteq> []" "te_json_Valid ext ?d" by blast
  then show ?thesis
  proof cases
    case 3
    with assms(2) consider d where "te_decode_TeeInfoResponse ext ?d = Inl d" "e = tag_with ErrTEEResponseMalformed d"
      | k n h d where "te_Payload_Hash ext k n h = Inl d" "e = wrap1 d"
      | h s d where "te_SignatureToSignersAddress ext h s = Inl d" "e = tag_with ErrTEEResponseMalformed d"
      by (auto simp: readChallengeResult_def result_simps)
    then show ?thesis
    proof cases
      case (1 d)
      then show ?thesis using assms(1) m foreign_resultD unfolding ext_foreign_def by metis
    next
      case (2 k n h d)
      then show ?thesis using assms(1) p foreign_resultD unfolding ext_foreign_def by metis
    next
      case (3 h s d)
      then show ?thesis using assms(1) m foreign_resultD unfolding ext_foreign_def by metis
    qed
  qed (use assms(2) t in \<open>simp_all add: readChallengeResult_def\<close>)
qed

lemma FetchTEEChallengeResult_errors:
  assumes "ext_foreign ext" and "net_foreign nl" and "http_foreign hl"
    and "FetchTEEChallengeResult ext nl hl url ins allow w = (Inl e, w')"
  shows "tee_error_ok e"
proof -
  have j: "tee_error_ok (wrap1 d)" if "te_JoinPath ext u p = Inl d" for u p d
    using that assms(1) by (intro tee_ok_crl foreign_crl_tags) (auto simp: ext_foreign_def dest: foreign_resultD)
  have r: "tee_error_ok d" if "resolveExternalURL nl url allow w = (Inl d, w1)" for d w1
  proof -
    have "only_tags fetch_tags d" using resolve_tags [OF assms(2), of url allow w] that by (simp add: io_tags_def)
    then show ?thesis using tee_ok_crl only_tags_mono [OF _ crl_tags_mono] tee_ok_wrap by blast
  qed
  have f: "tee_error_ok (challengeFetchError d)"
    if "FetchJSONPinned hl (te_decode_ActionResponse ext) u t a h s w1 = (Inl d, w2)" for u t a h s w1 w2 d
  proof (rule challenge_error_ok)
    have "result_tags fetch_tags (map_error wrap1 (te_decode_ActionResponse ext b))" for b
      using assms(1) by (intro foreign_result_tags) (auto simp: ext_foreign_def foreign_fetch_tags)
    then have "io_tags fetch_tags (FetchJSONPinned hl (te_decode_ActionResponse ext) u t a h s) w1"
      unfolding FetchJSONPinned_def by (intro io_tags_bind FetchBytesPinned_tags [OF assms(3)]) simp
    with that show "only_tags fetch_tags d" by (simp add: io_tags_def)
  qed
  let ?join = "te_JoinPath ext url [''action'', ''result'', hex_EncodeToString (hash_Bytes ins)]"
  consider d where "?join = Inl d" | u d w1 where "?join = Inr u" "resolveExternalURL nl url allow w = (Inl d, w1)"
    | u r w1 where "?join = Inr u" "resolveExternalURL nl url allow w = (Inr r, w1)"
    by (metis prod.exhaust_sel sum.exhaust)
  then show ?thesis
  proof cases
    case (1 d)
    then show ?thesis using assms(4) j [OF 1] unfolding FetchTEEChallengeResult_def by (auto simp: io_simps)
  next
    case (2 u d w1)
    then show ?thesis using assms(4) r [OF 2(2)] unfolding FetchTEEChallengeResult_def by (auto simp: io_simps)
  next
    case (3 u res w1)
    obtain addr host sni where p: "BuildPinnedAddr nl res = (addr, host, sni)" by (rule prod_cases3)
    from 3 p assms(4) consider
      d where "FetchJSONPinned hl (te_decode_ActionResponse ext) u fetchChallengeTimeout addr host sni w1 = (Inl d, w')"
        "e = challengeFetchError d"
      | a where "readChallengeResult ext a = Inl e"
      unfolding FetchTEEChallengeResult_def by (auto simp: io_simps)
    then show ?thesis using f readChallengeResult_errors [OF assms(1)] by cases auto
  qed
qed

lemma binding_errors:
  assumes "ext_foreign ext" and "checkChallengeBinding ext cfg req a response signer = Inl e"
  shows "tee_error_ok e"
proof -
  have d: "tee_error_ok (Wrap [Sentinel s, Sentinel ErrTEEDataValidation])" if "s \<in> set tee_details" for s
    using that by (auto simp: tee_error_ok_def tee_details_def intro!: tagged_well)
  have "tee_error_ok (tag_with ErrTEEActionResultMismatch x)" if "verifyActionResult ext a i t n = Inl x" for i t n x
  proof (rule tee_ok_tagged)
    show "only_tags fetch_tags x"
      using that assms(1)
      by (auto simp: verifyActionResult_def result_simps ext_foreign_def split: if_splits
          intro!: foreign_fetch_tags dest!: foreign_resultD [rotated])
  qed simp
  then show ?thesis
    using assms(2) by (auto simp: checkChallengeBinding_def result_simps tee_details_def split: if_splits intro!: d)
qed

lemma validateAttestation_errors:
  assumes "ext_foreign ext" and "validateAttestation ext cfg response teeId l i = Inl e"
  shows "foreign_error e"
proof -
  have "foreign_error x" if "ValidateClaims ext claims = Inl x" for claims x
    using that assms(1)
    by (auto simp: ValidateClaims_def result_simps ext_foreign_def split: if_splits option.splits dest!: foreign_resultD [rotated])
  then have "foreign_result (ValidateClaims ext claims)" for claims
    by (cases "ValidateClaims ext claims") (auto simp: foreign_result_def)
  with assms show ?thesis
    by (auto simp: validateAttestation_def result_simps ext_foreign_def split: if_splits dest!: foreign_resultD [rotated])
qed

lemma classify_ok:
  assumes "only_tags crl_tags e"
  shows "tee_error_ok (classifyDataVerificationError e)"
proof (cases "errors_Is e ErrTEERevocationUnavailable \<or> errors_Is e Canceled \<or> errors_Is e DeadlineExceeded")
  case True
  then show ?thesis using tee_ok_crl [OF assms] by (simp add: classifyDataVerificationError_def)
next
  case False
  then have "only_tags fetch_tags e" using assms by (auto simp: only_tags_def crl_tags_def)
  with False show ?thesis by (simp add: classifyDataVerificationError_def tee_ok_tagged)
qed

lemma signing_errors:
  assumes "CheckSigningPolicies v pause info w = ((st, Some e), w')"
  shows "tee_error_ok e"
proof -
  have m: "tee_error_ok (wrap1 (wrap1 (snd (MapFetchErrorToState opr err))))" for opr err
    by (auto simp: MapFetchErrorToState_def MapTransportError_def ClassifyHTTPStatus_def Let_def tee_error_ok_def
        well_tagged_def tee_details_def only_tags_def split: option.splits)
  have d: "tee_error_ok (Wrap [Sentinel ErrTEESigningPolicyHash, Sentinel ErrTEEDataValidation])"
    by (auto simp: tee_error_ok_def intro!: tagged_well)
  from assms m d show ?thesis
    unfolding CheckSigningPolicies_def retry_once
    by (auto split: prod.splits sum.splits if_splits)
qed


context revocation_source
begin

lemma data_verification_errors:
  assumes "tv_CRLCache v = Some fetch" and "invar c" and "ext_foreign ext"
    and "DataVerification ext v response teeId c = (Inl e, c')"
  shows "only_tags crl_tags e"
proof -
  have f: "only_tags crl_tags d" if "fetch t r c = (Inl d, c1)" for t r d c1
    using fetch_errors [OF assms(2), of t r] that by (simp add: io_tags_def)
  have v: "only_tags crl_tags d" if "validateAttestation ext (tv_Cfg v) response teeId l i = Inl d" for l i d
    using validateAttestation_errors [OF assms(3) that] by (rule foreign_crl_tags)
  show ?thesis
    using assms(1,4) f v
    by (auto simp: DataVerification_def io_simps split: if_splits)
qed

lemma tee_verify_errors:
  assumes "tv_CRLCache v = Some fetch" and "invar c"
    and "ext_foreign ext" and "net_foreign nl" and "http_foreign hl"
    and "Tee_Verify ext nl hl pause v req c = (Inl e, c')"
  shows "tee_error_ok e"
proof -
  let ?url = "FormatProxyURL v (tq_Url req)"
  obtain res c1 where f: "on_world (FetchTEEChallengeResult ext nl hl ?url (tq_InstructionId req)
      (tc_AllowPrivateNetworks (tv_Cfg v))) c = (res, c1)" by fastforce
  then obtain w1 where fw: "FetchTEEChallengeResult ext nl hl ?url (tq_InstructionId req)
      (tc_AllowPrivateNetworks (tv_Cfg v)) (cc_world c) = (res, w1)" "c1 = c\<lparr>cc_world := w1\<rparr>"
    by (auto simp: on_world_def split: prod.splits)
  show ?thesis
  proof (cases res)
    case (Inl d)
    with f assms(6) have "e = wrap1 d" unfolding Tee_Verify_def by (auto simp: io_simps)
    with FetchTEEChallengeResult_errors [OF assms(3-5)] fw Inl show ?thesis by (simp add: tee_ok_wrap)
  next
    case (Inr x)
    obtain a response signer where x: "x = (a, response, signer)" by (rule prod_cases3)
    show ?thesis
    proof (cases "checkChallengeBinding ext (tv_Cfg v) req a response signer")
      case (Inl d)
      with f Inr x assms(6) have "e = d" unfolding Tee_Verify_def by (auto simp: io_simps)
      with Inl binding_errors [OF assms(3)] show ?thesis by simp
    next
      case b: (Inr u)
      obtain dv c2 where dv: "DataVerification ext v response (tq_TeeId req) c1 = (dv, c2)" by fastforce
      obtain st sp w2 where sp: "CheckSigningPolicies v pause (tir_TeeInfo response) (cc_world c2) = ((st, sp), w2)"
        by (metis prod.collapse)
      from assms(6) f Inr x b dv sp consider d where "dv = Inl d" "e = classifyDataVerificationError d"
        | "sp = Some e"
        unfolding Tee_Verify_def by (auto simp: io_simps split: sum.splits option.splits)
      then show ?thesis
      proof cases
        case (1 d)
        have "invar c1" unfolding fw(2) by (rule invar_world [OF assms(2)])
        from data_verification_errors [OF assms(1) this assms(3)] dv 1 classify_ok show ?thesis by simp
      next
        case 2
        with sp signing_errors show ?thesis by simp
      qed
    qed
  qed
qed

end

end
