(* ===== verification/Sample_Lib.thy ===== *)
theory Sample_Lib
  imports Instruction
begin

text \<open>
  A concrete instance of the library parameters of \<open>Instruction\<close>: hexadecimal printing, an
  injective encoding of argument tuples, and a stand-in digest. The witnesses evaluate the
  model on it, which shows that the hypotheses on the libraries can hold together.
\<close>

section \<open>Fixed-width hexadecimal\<close>

fun hex_fixed :: "nat \<Rightarrow> nat \<Rightarrow> string" where
  "hex_fixed 0 n = []"
| "hex_fixed (Suc k) n = hex_fixed k (n div 16) @ [hex_char (n mod 16)]"

lemma length_hex_fixed [simp]: "length (hex_fixed k n) = k"
  by (induction k arbitrary: n) simp_all

lemma hex_char_inj: "a < 16 \<Longrightarrow> b < 16 \<Longrightarrow> hex_char a = hex_char b \<longleftrightarrow> a = b"
proof -
  assume ab: "a < 16" "b < 16"
  have code: "of_char (hex_char d) = (if d < 10 then 48 + d else 87 + d :: nat)" if "d < 16" for d
    using that by (auto simp: hex_char_def)
  have "a = b" if "hex_char a = hex_char b"
  proof -
    from that have "(of_char (hex_char a) :: nat) = of_char (hex_char b)" by simp
    with ab show "a = b" by (simp only: code split: if_splits)
  qed
  then show ?thesis by blast
qed

lemma hex_fixed_inj:
  "m < 16 ^ k \<Longrightarrow> n < 16 ^ k \<Longrightarrow> hex_fixed k m = hex_fixed k n \<Longrightarrow> m = n"
proof (induction k arbitrary: m n)
  case (Suc k)
  then have "hex_fixed k (m div 16) = hex_fixed k (n div 16)" and "m mod 16 = n mod 16"
    by (auto simp: hex_char_inj)
  moreover have "m div 16 < 16 ^ k" "n div 16 < 16 ^ k"
    using Suc.prems by (simp_all add: less_mult_imp_div_less mult.commute)
  ultimately have "m div 16 = n div 16" and "m mod 16 = n mod 16" using Suc.IH by blast+
  then show ?case by (metis div_mult_mod_eq)
qed simp

lemma hex_hash_inj: "hex_fixed 64 (unat a) = hex_fixed 64 (unat b) \<longleftrightarrow> a = b" for a b :: hash
proof -
  have "unat h < 16 ^ 64" for h :: hash using unsigned_less [of h] by simp
  then have "hex_fixed 64 (unat a) = hex_fixed 64 (unat b) \<Longrightarrow> unat a = unat b"
    by (intro hex_fixed_inj)
  then show ?thesis by (auto simp: word_unat_eq_iff)
qed

lemma hex_u64_inj: "hex_fixed 16 (unat a) = hex_fixed 16 (unat b) \<longleftrightarrow> a = b" for a b :: u64
proof -
  have "unat n < 16 ^ 16" for n :: u64 using unsigned_less [of n] by simp
  then have "hex_fixed 16 (unat a) = hex_fixed 16 (unat b) \<Longrightarrow> unat a = unat b"
    by (intro hex_fixed_inj)
  then show ?thesis by (auto simp: word_unat_eq_iff)
qed

section \<open>The sample library\<close>

definition byte_of_char :: "char \<Rightarrow> u8" where
  "byte_of_char c = word_of_nat (of_char c)"

lemma byte_of_char_inj: "inj byte_of_char"
proof (rule injI)
  fix c d assume "byte_of_char c = byte_of_char d"
  then have "unat (byte_of_char c) = unat (byte_of_char d)" by simp
  moreover have "unat (byte_of_char x) = of_char x" for x
    using nat_of_char_less_256 [of x] by (simp add: byte_of_char_def unat_of_nat)
  ultimately show "c = d" by simp
qed

fun encode_value :: "abi_value \<Rightarrow> string" where
  "encode_value (VBytes32 h) = hex_fixed 64 (unat h)"
| "encode_value (VUint64 n) = hex_fixed 16 (unat n)"
| "encode_value (VString s) = concat (map (\<lambda>c. [CHR ''1'', c]) s) @ ''0''"

definition sample_pack :: "abi_value list \<Rightarrow> bytes" where
  "sample_pack vs = map byte_of_char (concat (map encode_value vs))"

fun sample_digest :: "bytes \<Rightarrow> hash" where
  "sample_digest [] = 0"
| "sample_digest (b # bs) = ucast b + 257 * sample_digest bs"

definition sample_lib :: tee_lib where
  "sample_lib =
     \<lparr>op_string = (\<lambda>c. case c of Pay \<Rightarrow> ''PAY'' | Reissue \<Rightarrow> ''REISSUE''),
      StringToCommonHash = (\<lambda>s. Inr (sample_digest (map byte_of_char s))),
      abi_Pack = (\<lambda>ts vs. if map abi_value_type vs = ts then Inr (sample_pack vs) else Inl Plain),
      Keccak256Hash = sample_digest,
      structs_DecodeTo = (\<lambda>c b. Inl Plain),
      Hash_Hex = (\<lambda>h. ''0x'' @ hex_fixed 64 (unat h)),
      Address_Hex = (\<lambda>a. ''0x'' @ hex_fixed 40 (unat a)),
      ConvertDatabaseLogToChainLog = (\<lambda>l. Inl Plain),
      Hex32StringToCommonHash = (\<lambda>s. Inl Plain)\<rparr>"

lemma sample_hex_ok: "hex_ok sample_lib"
  by (auto simp: hex_ok_def sample_lib_def hex_hash_inj intro!: injI)

lemma encode_string_inj:
  "encode_value (VString s) @ xs = encode_value (VString t) @ ys \<Longrightarrow> s = t \<and> xs = ys"
proof (induction s arbitrary: t)
  case Nil
  then show ?case by (cases t) auto
next
  case (Cons c s)
  then show ?case by (cases t) auto
qed

lemma encode_value_inj:
  assumes "encode_value v @ xs = encode_value w @ ys" and "abi_value_type v = abi_value_type w"
  shows "v = w \<and> xs = ys"
proof (cases v)
  case (VBytes32 a)
  with assms obtain b where "w = VBytes32 b" by (cases w) auto
  with VBytes32 assms show ?thesis by (simp add: hex_hash_inj)
next
  case (VUint64 a)
  with assms obtain b where "w = VUint64 b" by (cases w) auto
  with VUint64 assms show ?thesis by (simp add: hex_u64_inj)
next
  case (VString s)
  with assms obtain t where "w = VString t" by (cases w) auto
  with VString assms show ?thesis using encode_string_inj by blast
qed

lemma encode_list_inj:
  "map abi_value_type vs = map abi_value_type ws \<Longrightarrow>
     concat (map encode_value vs) = concat (map encode_value ws) \<Longrightarrow> vs = ws"
proof (induction vs arbitrary: ws)
  case (Cons v vs)
  then obtain w ws' where ws: "ws = w # ws'" by (cases ws) auto
  with Cons.prems have "v = w \<and> concat (map encode_value vs) = concat (map encode_value ws')"
    by (intro encode_value_inj) auto
  with Cons ws show ?case by auto
qed simp

lemma sample_pack_injective: "pack_injective sample_lib"
proof -
  have "vs = ws" if "map abi_value_type vs = map abi_value_type ws" "sample_pack vs = sample_pack ws"
    for vs ws
    using that encode_list_inj map_injective [OF _ byte_of_char_inj] unfolding sample_pack_def by blast
  then show ?thesis
    unfolding pack_injective_def sample_lib_def by auto
qed

lemma sample_commands_distinct: "commands_distinct sample_lib"
  by (simp add: commands_distinct_def sample_lib_def byte_of_char_def)

lemma sample_lib_foreign: "tee_lib_foreign sample_lib"
  by (simp add: tee_lib_foreign_def sample_lib_def foreign_result_def)

lemma hex_char_code: "d < 16 \<Longrightarrow> of_char (hex_char d) = (if d < 10 then 48 + d else 87 + d :: nat)"
  by (auto simp: hex_char_def)

lemma hex_fixed_no_X: "CHR ''X'' \<notin> set (hex_fixed k n)"
proof (induction k arbitrary: n)
  case (Suc k)
  have "hex_char (n mod 16) \<noteq> CHR ''X''"
  proof
    assume "hex_char (n mod 16) = CHR ''X''"
    then have "(of_char (hex_char (n mod 16)) :: nat) = 88" by simp
    moreover have "n mod 16 < 16" by simp
    ultimately show False unfolding hex_char_code [OF \<open>n mod 16 < 16\<close>] by (simp split: if_splits)
  qed
  with Suc show ?case by simp
qed simp

lemma hex_no_0X: "\<not> strings_HasPrefix (hex_fixed k n) ''0X''"
proof
  assume "strings_HasPrefix (hex_fixed k n) ''0X''"
  then obtain t where "hex_fixed k n = ''0X'' @ t" by (auto simp: HasPrefix_iff prefix_def)
  then have "CHR ''X'' \<in> set (hex_fixed k n)" by simp
  with hex_fixed_no_X show False by blast
qed

end
