(* ===== verification/Handler.thy ===== *)
theory Handler
  imports Tee_Soundness Sample_Lib
begin

text \<open>
  \<open>internal/api/handler\<close> and the shared types of \<open>internal/api/types/common.go\<close>: the three endpoints every attestation type
  is served through, the two classifications of a verification error, the routes and operation ids.

  The generic parameters of \<open>RegisterVerificationHandler\<close> are the record \<open>marshal\<close>: the conversions of the request and response
  types, and the ABI encoding of go-flare-common for them. A verifier is a function of its deadline and the request over a
  state \<open>'w\<close>. A nil dereference in a conversion is \<open>None\<close> and ends the request in a panic.
\<close>

section \<open>Types\<close>

record AttestationRequest =
  aq_AttestationType :: hash
  aq_SourceID :: hash
  aq_RequestBody :: bytes

record 'u AttestationRequestData =
  ad_AttestationType :: hash
  ad_SourceID :: hash
  ad_RequestData :: 'u

record VerifierResponse =
  vr_Status :: string
  vr_ResponseBody :: bytes
  vr_Message :: string

record 'v AttestationResponseData =
  rd_ResponseData :: 'v
  rd_ResponseBody :: bytes

definition StatusVerified :: string where "StatusVerified = ''VERIFIED''"
definition StatusRetry :: string where "StatusRetry = ''RETRY''"
definition StatusRejected :: string where "StatusRejected = ''REJECTED''"

lemmas status_names = StatusVerified_def StatusRetry_def StatusRejected_def

text \<open>\<open>AttestationRequest.Resolve\<close>: the errors the framework reports before the handler runs.\<close>

definition AttestationRequest_Resolve :: "AttestationRequest \<Rightarrow> goerr list" where
  "AttestationRequest_Resolve req = (if length (aq_RequestBody req) = 0 then [Plain] else [])"

text \<open>\<open>AttestationRequestData.Resolve\<close>; the struct validator is a parameter.\<close>

definition AttestationRequestData_Resolve :: "('u \<Rightarrow> unit result) \<Rightarrow> 'u AttestationRequestData \<Rightarrow> goerr list" where
  "AttestationRequestData_Resolve validate req =
     (case validate (ad_RequestData req) of Inl e \<Rightarrow> [e] | Inr _ \<Rightarrow> [])"

record ('u, 's, 't, 'v) marshal =
  ToInternal :: "'u \<Rightarrow> 's result"
  FromInternal :: "'t \<Rightarrow> 'v option"
  structs_Decode :: "abi_argument \<Rightarrow> bytes \<Rightarrow> 's result"
  structs_EncodeRequest :: "abi_argument \<Rightarrow> 's \<Rightarrow> bytes result"
  structs_EncodeResponse :: "abi_argument \<Rightarrow> 't \<Rightarrow> bytes result"

text \<open>What a handler yields: a body with status 200, an error with its status and message, or a panic.\<close>

datatype 'a http_reply = HTTP_OK 'a | HTTP_Error nat string | HTTP_Panic

type_synonym ('w, 's, 't) verifier = "duration \<Rightarrow> 's \<Rightarrow> ('w, goerr, 't) io"

section \<open>Routes\<close>

definition getVerifierAPIPath :: "config_lib \<Rightarrow> string \<Rightarrow> string \<Rightarrow> attestation_type \<Rightarrow> string \<Rightarrow> string" where
  "getVerifierAPIPath cl sourceSlug destinationSlug attestationType endpoint =
     DeploymentPrefix sourceSlug destinationSlug @ ''/'' @ att_name cl attestationType @ ''/'' @ endpoint"

definition getVerifierOperationID :: "config_lib \<Rightarrow> source_name \<Rightarrow> string \<Rightarrow> attestation_type \<Rightarrow> string \<Rightarrow> string" where
  "getVerifierOperationID cl sourceName destinationSlug attestationType endpoint =
     ''post-'' @ strings_ToLower sourceName @ ''-'' @ destinationSlug @ ''-'' @ att_name cl attestationType @ ''-'' @ endpoint"

definition endpoints :: "string list" where
  "endpoints = [''prepareRequestBody'', ''prepareResponseBody'', ''verify'']"

text \<open>The operations \<open>RegisterVerificationHandler\<close> registers: operation id and path of each endpoint.\<close>

definition registered_ops :: "config_lib \<Rightarrow> EncodedAndABI \<Rightarrow> (string \<times> string) list" where
  "registered_ops cl cfg =
     map (\<lambda>endpoint.
       (getVerifierOperationID cl (enc_SourceID cfg) (enc_DestinationChainSlug cfg) (enc_AttestationType cfg) endpoint,
        getVerifierAPIPath cl (enc_SourceURLSlug cfg) (enc_DestinationChainSlug cfg) (enc_AttestationType cfg) endpoint)) endpoints"

definition healthPath :: "string \<Rightarrow> string" where
  "healthPath deploymentPrefix = deploymentPrefix @ ''/api/health''"

text \<open>The health endpoint: operation id, path and answer (\<open>Healthy\<close>).\<close>

definition RegisterHealthHandler :: "string \<Rightarrow> (string \<times> string) \<times> bool http_reply" where
  "RegisterHealthHandler deploymentPrefix = ((''get-health'', healthPath deploymentPrefix), HTTP_OK True)"

section \<open>Request ids\<close>

text \<open>\<open>%08x\<close>: lower-case hexadecimal digits, padded with zeros to eight.\<close>

fun hex_digits :: "nat \<Rightarrow> string" where
  "hex_digits n = (if n < 16 then [hex_char n] else hex_digits (n div 16) @ [hex_char (n mod 16)])"

definition pad8 :: "string \<Rightarrow> string" where
  "pad8 s = replicate (8 - length s) (CHR ''0'') @ s"

definition generateRequestID :: "u64 \<Rightarrow> string \<times> u64" where
  "generateRequestID reqIDCounter = (pad8 (hex_digits (unat (reqIDCounter + 1))), reqIDCounter + 1)"

section \<open>Classification of verification errors\<close>

text \<open>A \<open>switch\<close> of \<open>errors.Is\<close> cases: the first case one of whose sentinels the error carries.\<close>

fun switch_Is :: "(sentinel list \<times> 'a) list \<Rightarrow> 'a \<Rightarrow> goerr \<Rightarrow> 'a" where
  "switch_Is [] def err = def"
| "switch_Is ((ss, x) # cs) def err = (if list_ex (errors_Is err) ss then x else switch_Is cs def err)"

definition classifyVerifyStatus :: "goerr \<Rightarrow> string \<times> string" where
  "classifyVerifyStatus = switch_Is
     [([ErrBatchRangeTooLarge], (StatusRejected, ''batch range too large'')),
      ([ErrReissueLimitExceeded], (StatusRejected, ''reissue limit exceeded'')),
      ([ErrInvalidRequest], (StatusRejected, ''invalid request'')),
      ([ErrMissingPayEvent], (StatusRejected, ''missing pay event for the payment'')),
      ([ErrMissingTransaction], (StatusRejected, ''missing transaction for the payment'')),
      ([ErrRPCNonSuccess], (StatusRejected, ''source reported a non-success result'')),
      ([ErrRecordNotFound], (StatusRejected, ''record not found'')),
      ([ErrTEEChallengeMismatch], (StatusRejected, ''TEE challenge mismatch'')),
      ([ErrTEEChainIDMismatch], (StatusRejected, ''TEE chain id mismatch'')),
      ([ErrTEEProxySignerMismatch], (StatusRejected, ''TEE proxy signer mismatch'')),
      ([ErrTEESigningPolicyHash], (StatusRejected, ''TEE signing policy hash mismatch'')),
      ([ErrTEEAttestationInvalid], (StatusRejected, ''TEE attestation invalid'')),
      ([ErrTEEResponseMalformed], (StatusRejected, ''TEE response malformed'')),
      ([ErrTEEActionResultMismatch], (StatusRejected, ''TEE action result mismatch'')),
      ([ErrTEERevocationUnavailable], (StatusRetry, ''TEE revocation check unavailable'')),
      ([ErrTEEDataValidation], (StatusRejected, ''TEE data validation failed'')),
      ([ErrInvalidInput], (StatusRejected, ''invalid input'')),
      ([DeadlineExceeded, Canceled], (StatusRetry, ''verification timed out'')),
      ([ErrFetchAccountInfo, ErrFetchServerInfo, ErrRPCTransient], (StatusRetry, ''source RPC unavailable'')),
      ([ErrNetworkMismatch], (StatusRetry, ''source network not verified'')),
      ([ErrDatabase], (StatusRetry, ''database unavailable'')),
      ([ErrDataSource], (StatusRetry, ''data source returned unusable data'')),
      ([ErrNetwork, ErrRPC, ErrContext, ErrUnknown], (StatusRetry, ''network or RPC error'')),
      ([ErrHTTPFetch], (StatusRetry, ''upstream fetch failed'')),
      ([ErrActionResultNotFound], (StatusRetry, ''action result not available''))]
     (StatusRetry, ''unexpected error'')"

text \<open>The status code of the error that \<open>classifyVerifyError\<close> returns; its message is always ``Verification failed''.\<close>

definition classifyVerifyError :: "goerr \<Rightarrow> nat" where
  "classifyVerifyError = switch_Is
     [([ErrBatchRangeTooLarge, ErrReissueLimitExceeded, ErrInvalidRequest], 400),
      ([ErrMissingPayEvent, ErrMissingTransaction, ErrRPCNonSuccess, ErrRecordNotFound, ErrTEEDataValidation,
        ErrInvalidInput], 422),
      ([DeadlineExceeded, Canceled, ErrFetchAccountInfo, ErrFetchServerInfo, ErrRPCTransient, ErrNetworkMismatch,
        ErrDatabase, ErrDataSource, ErrNetwork, ErrRPC, ErrContext, ErrUnknown, ErrHTTPFetch, ErrActionResultNotFound,
        ErrTEERevocationUnavailable], 503)]
     500"

section \<open>Endpoints\<close>

definition verifierWorkTimeout :: duration where "verifierWorkTimeout = 25 * second_ns"

definition verifyWithDeadline :: "('w, 's, 't) verifier \<Rightarrow> 's \<Rightarrow> duration \<Rightarrow> ('w, goerr, 't) io" where
  "verifyWithDeadline v req timeout = v timeout req"

definition validateSystemAndRequest :: "tee_lib \<Rightarrow> EncodedAndABI \<Rightarrow> string \<Rightarrow> string \<Rightarrow> unit result" where
  "validateSystemAndRequest lib cfg requestAttestationName requestSourceID =
     (if requestAttestationName \<noteq> Hash_Hex lib (enc_AttestationTypeEncoded cfg) \<or>
         requestSourceID \<noteq> Hash_Hex lib (enc_SourceIDEncoded cfg)
      then Inl (wrap1 Plain) else Inr ())"

definition decodeRequest :: "('u, 's, 't, 'v) marshal \<Rightarrow> bytes \<Rightarrow> EncodedAndABI \<Rightarrow> 's result" where
  "decodeRequest m requestBody cfg = map_error wrap1 (structs_Decode m (enc_Request cfg) requestBody)"

definition encodeRequest :: "('u, 's, 't, 'v) marshal \<Rightarrow> 's \<Rightarrow> EncodedAndABI \<Rightarrow> bytes result" where
  "encodeRequest m data cfg = map_error wrap1 (structs_EncodeRequest m (enc_Request cfg) data)"

definition encodeResponse :: "('u, 's, 't, 'v) marshal \<Rightarrow> 't \<Rightarrow> EncodedAndABI \<Rightarrow> bytes result" where
  "encodeResponse m data cfg = map_error wrap1 (structs_EncodeResponse m (enc_Response cfg) data)"

definition prepareRequestBody :: "('u, 's, 't, 'v) marshal \<Rightarrow> 'u AttestationRequestData \<Rightarrow> EncodedAndABI \<Rightarrow> bytes result" where
  "prepareRequestBody m body cfg =
     rbind (map_error wrap1 (ToInternal m (ad_RequestData body))) (\<lambda>requestData. encodeRequest m requestData cfg)"

definition prepareRequestBody_op ::
  "tee_lib \<Rightarrow> ('u, 's, 't, 'v) marshal \<Rightarrow> EncodedAndABI \<Rightarrow> 'u AttestationRequestData \<Rightarrow> bytes http_reply" where
  "prepareRequestBody_op lib m cfg req =
     (case validateSystemAndRequest lib cfg (Hash_Hex lib (ad_AttestationType req)) (Hash_Hex lib (ad_SourceID req)) of
        Inl _ \<Rightarrow> HTTP_Error 400 ''Request validation failed''
      | Inr _ \<Rightarrow> (case prepareRequestBody m req cfg of
                     Inl _ \<Rightarrow> HTTP_Error 400 ''Prepare request failed''
                   | Inr encodedRequest \<Rightarrow> HTTP_OK encodedRequest))"

definition prepareResponseBody_op ::
  "tee_lib \<Rightarrow> ('u, 's, 't, 'v) marshal \<Rightarrow> EncodedAndABI \<Rightarrow> ('w, 's, 't) verifier \<Rightarrow> AttestationRequest \<Rightarrow> 'w \<Rightarrow>
   'v AttestationResponseData http_reply \<times> 'w" where
  "prepareResponseBody_op lib m cfg v req w =
     (case validateSystemAndRequest lib cfg (Hash_Hex lib (aq_AttestationType req)) (Hash_Hex lib (aq_SourceID req)) of
        Inl _ \<Rightarrow> (HTTP_Error 400 ''Request validation failed'', w)
      | Inr _ \<Rightarrow>
     (case decodeRequest m (aq_RequestBody req) cfg of
        Inl _ \<Rightarrow> (HTTP_Error 400 ''Decoding request body to data failed'', w)
      | Inr requestData \<Rightarrow>
     (case verifyWithDeadline v requestData verifierWorkTimeout w of
        (Inl err, w') \<Rightarrow> (HTTP_Error (classifyVerifyError err) ''Verification failed'', w')
      | (Inr responseData, w') \<Rightarrow>
     (case encodeResponse m responseData cfg of
        Inl _ \<Rightarrow> (HTTP_Error 500 ''Encoding data to response body failed'', w')
      | Inr encodedResponse \<Rightarrow>
     (case FromInternal m responseData of
        None \<Rightarrow> (HTTP_Panic, w')
      | Some external \<Rightarrow>
          (HTTP_OK \<lparr>rd_ResponseData = external, rd_ResponseBody = encodedResponse\<rparr>, w'))))))"

definition rejectedResponse :: "string \<Rightarrow> VerifierResponse" where
  "rejectedResponse safeMessage = \<lparr>vr_Status = StatusRejected, vr_ResponseBody = [], vr_Message = safeMessage\<rparr>"

definition retryResponse :: "string \<Rightarrow> VerifierResponse" where
  "retryResponse safeMessage = \<lparr>vr_Status = StatusRetry, vr_ResponseBody = [], vr_Message = safeMessage\<rparr>"

definition verify_op ::
  "tee_lib \<Rightarrow> ('u, 's, 't, 'v) marshal \<Rightarrow> EncodedAndABI \<Rightarrow> ('w, 's, 't) verifier \<Rightarrow> AttestationRequest \<Rightarrow> 'w \<Rightarrow>
   VerifierResponse http_reply \<times> 'w" where
  "verify_op lib m cfg v req w =
     (case validateSystemAndRequest lib cfg (Hash_Hex lib (aq_AttestationType req)) (Hash_Hex lib (aq_SourceID req)) of
        Inl _ \<Rightarrow> (HTTP_OK (rejectedResponse ''unsupported attestation type or source id''), w)
      | Inr _ \<Rightarrow>
     (case decodeRequest m (aq_RequestBody req) cfg of
        Inl _ \<Rightarrow> (HTTP_OK (rejectedResponse ''malformed request body''), w)
      | Inr requestData \<Rightarrow>
     (case verifyWithDeadline v requestData verifierWorkTimeout w of
        (Inl err, w') \<Rightarrow>
          (case classifyVerifyStatus err of
             (status, message) \<Rightarrow> (HTTP_OK \<lparr>vr_Status = status, vr_ResponseBody = [], vr_Message = message\<rparr>, w'))
      | (Inr responseData, w') \<Rightarrow>
     (case encodeResponse m responseData cfg of
        Inl _ \<Rightarrow> (HTTP_OK (retryResponse ''response encoding failed''), w')
      | Inr encodedResponse \<Rightarrow>
     (case FromInternal m responseData of
        None \<Rightarrow> (HTTP_Panic, w')
      | Some _ \<Rightarrow>
          (HTTP_OK \<lparr>vr_Status = StatusVerified, vr_ResponseBody = encodedResponse, vr_Message = ''''\<rparr>, w'))))))"


section \<open>Lemmas: classification\<close>

lemma switch_project: "f (switch_Is cs x err) = switch_Is (map (apsnd f) cs) (f x) err"
  by (induction cs) auto

lemma if_merge: "(if a then x else if b then x else y) = (if a \<or> b then x else y)"
  by simp

lemma switch_unfold:
  "switch_Is ((ss, x) # cs) y err = (if \<exists>s \<in> set ss. errors_Is err s then x else switch_Is cs y err)"
  by (auto simp: list_ex_iff)

text \<open>The sentinels that make an error terminal, those that make it retryable, and the ones that neither names.\<close>

definition rejecting :: "sentinel set" where
  "rejecting = {ErrBatchRangeTooLarge, ErrReissueLimitExceeded, ErrInvalidRequest, ErrMissingPayEvent, ErrMissingTransaction,
     ErrRPCNonSuccess, ErrRecordNotFound, ErrTEEDataValidation, ErrInvalidInput}"

definition retrying :: "sentinel set" where
  "retrying = {DeadlineExceeded, Canceled, ErrFetchAccountInfo, ErrFetchServerInfo, ErrRPCTransient, ErrNetworkMismatch,
     ErrDatabase, ErrDataSource, ErrNetwork, ErrRPC, ErrContext, ErrUnknown, ErrHTTPFetch, ErrActionResultNotFound,
     ErrTEERevocationUnavailable}"

definition carries :: "goerr \<Rightarrow> sentinel set \<Rightarrow> bool" where
  "carries err S \<longleftrightarrow> (\<exists>s \<in> S. errors_Is err s)"

lemma classifyVerifyError_cases:
  "classifyVerifyError err \<in> {400, 422} \<longleftrightarrow> carries err rejecting"
  "classifyVerifyError err = 503 \<longleftrightarrow> carries err retrying \<and> \<not> carries err rejecting"
  "classifyVerifyError err = 500 \<longleftrightarrow> \<not> carries err retrying \<and> \<not> carries err rejecting"
  unfolding classifyVerifyError_def switch_unfold switch_Is.simps(1)
  by (auto simp: carries_def rejecting_def retrying_def)

definition rejecting_first :: "sentinel set" where
  "rejecting_first = {ErrBatchRangeTooLarge, ErrReissueLimitExceeded, ErrInvalidRequest, ErrMissingPayEvent, ErrMissingTransaction,
     ErrRPCNonSuccess, ErrRecordNotFound, ErrTEEChallengeMismatch, ErrTEEChainIDMismatch, ErrTEEProxySignerMismatch,
     ErrTEESigningPolicyHash, ErrTEEAttestationInvalid, ErrTEEResponseMalformed, ErrTEEActionResultMismatch}"

lemma classifyVerifyStatus_fst:
  "fst (classifyVerifyStatus err) =
     (if carries err rejecting_first then StatusRejected
      else if errors_Is err ErrTEERevocationUnavailable then StatusRetry
      else if carries err {ErrTEEDataValidation, ErrInvalidInput} then StatusRejected else StatusRetry)"
  unfolding classifyVerifyStatus_def switch_project [of fst]
  by (simp add: if_merge carries_def rejecting_first_def cong: if_weak_cong)

lemma classifyVerifyStatus_unexpected:
  "snd (classifyVerifyStatus err) = ''unexpected error'' \<longleftrightarrow>
     \<not> carries err (rejecting \<union> retrying \<union> set tee_details \<union>
       {ErrTEEAttestationInvalid, ErrTEEResponseMalformed, ErrTEEActionResultMismatch})"
  unfolding classifyVerifyStatus_def switch_project [of "\<lambda>p. snd p = ''unexpected error''"]
  by (simp add: carries_def rejecting_def retrying_def tee_details_def cong: if_weak_cong)

text \<open>For an error as the verifiers build them the status depends on the rejecting sentinels alone.\<close>

lemma well_tagged_status:
  assumes "well_tagged err"
  shows "fst (classifyVerifyStatus err) = (if carries err rejecting then StatusRejected else StatusRetry)"
proof -
  have d: "carries err rejecting_first \<Longrightarrow> carries err rejecting"
  proof -
    have "errors_Is err ErrTEEDataValidation" if "errors_Is err t" "t \<in> set tee_details" for t
      using that assms by (auto simp: well_tagged_def)
    moreover have "errors_Is err ErrTEEDataValidation"
      if "errors_Is err t" "t \<in> {ErrTEEAttestationInvalid, ErrTEEResponseMalformed, ErrTEEActionResultMismatch}" for t
      using chained_Is that by blast
    ultimately show "carries err rejecting_first \<Longrightarrow> carries err rejecting"
      unfolding carries_def rejecting_first_def rejecting_def tee_details_def by fastforce
  qed
  have r: "errors_Is err ErrTEERevocationUnavailable \<Longrightarrow> \<not> carries err rejecting"
    using assms by (auto simp: well_tagged_def carries_def rejecting_def only_tags_def crl_tags_def fetch_tags_def
        foreign_sentinels_def)
  have s: "carries err rejecting \<Longrightarrow> carries err rejecting_first \<or> carries err {ErrTEEDataValidation, ErrInvalidInput}"
    by (auto simp: carries_def rejecting_def rejecting_first_def)
  have t: "carries err {ErrTEEDataValidation, ErrInvalidInput} \<Longrightarrow> carries err rejecting"
    by (auto simp: carries_def rejecting_def)
  show ?thesis unfolding classifyVerifyStatus_fst using d r s t by auto
qed

lemma well_tagged_unexpected:
  assumes "well_tagged err"
  shows "snd (classifyVerifyStatus err) = ''unexpected error'' \<longleftrightarrow> \<not> carries err rejecting \<and> \<not> carries err retrying"
proof -
  have "errors_Is err ErrTEEDataValidation" if "carries err (set tee_details \<union>
      {ErrTEEAttestationInvalid, ErrTEEResponseMalformed, ErrTEEActionResultMismatch})"
    using that assms chained_Is by (auto simp: well_tagged_def carries_def)
  moreover have "errors_Is err ErrTEEDataValidation \<Longrightarrow> carries err rejecting" by (simp add: carries_def rejecting_def)
  ultimately show ?thesis unfolding classifyVerifyStatus_unexpected by (auto simp: carries_def)
qed

text \<open>
  C30. The two classifications of a verification error agree on every error the verifiers can build: \<open>/verify\<close> answers REJECTED exactly when
  the HTTP endpoints answer 400 or 422, and RETRY exactly when they answer 503 or 500, where 500 is exactly the message
  for an unexpected error.
\<close>

theorem classifiers_agree:
  assumes "well_tagged err"
  shows "(fst (classifyVerifyStatus err) = StatusRejected \<longleftrightarrow> classifyVerifyError err \<in> {400, 422}) \<and>
    (fst (classifyVerifyStatus err) = StatusRetry \<longleftrightarrow> classifyVerifyError err \<in> {500, 503}) \<and>
    (classifyVerifyError err = 500 \<longleftrightarrow> snd (classifyVerifyStatus err) = ''unexpected error'')"
proof -
  have "classifyVerifyError err \<in> {500, 503} \<longleftrightarrow> \<not> carries err rejecting"
    using classifyVerifyError_cases [of err] by auto
  then show ?thesis
    unfolding classifyVerifyError_cases well_tagged_status [OF assms] well_tagged_unexpected [OF assms]
    by (auto simp: status_names)
qed

theorem classifiers_agree_witness:
  "classifyVerifyStatus (tag_with ErrTEEAttestationInvalid Plain) = (StatusRejected, ''TEE attestation invalid'') \<and>
   classifyVerifyError (tag_with ErrTEEAttestationInvalid Plain) \<in> {400, 422} \<and>
   fst (classifyVerifyStatus (tag_with ErrTEERevocationUnavailable NetError)) = StatusRetry \<and>
   classifyVerifyError (tag_with ErrTEERevocationUnavailable NetError) \<in> {500, 503}"
proof -
  have "well_tagged (tag_with ErrTEEAttestationInvalid Plain)" by (rule tagged_well) simp_all
  moreover have "classifyVerifyStatus (tag_with ErrTEEAttestationInvalid Plain) = (StatusRejected, ''TEE attestation invalid'')"
    by (simp add: classifyVerifyStatus_def)
  moreover have "well_tagged (tag_with ErrTEERevocationUnavailable NetError)" by (rule crl_well) simp
  moreover have "fst (classifyVerifyStatus (tag_with ErrTEERevocationUnavailable NetError)) = StatusRetry"
    by (simp add: classifyVerifyStatus_def)
  ultimately show ?thesis
    using classifiers_agree [of "tag_with ErrTEEAttestationInvalid Plain"]
      classifiers_agree [of "tag_with ErrTEERevocationUnavailable NetError"] by simp
qed


section \<open>The endpoints\<close>

text \<open>The request names the attestation type and source of the deployment.\<close>

definition addressed :: "EncodedAndABI \<Rightarrow> AttestationRequest \<Rightarrow> bool" where
  "addressed cfg req \<longleftrightarrow> aq_AttestationType req = enc_AttestationTypeEncoded cfg \<and> aq_SourceID req = enc_SourceIDEncoded cfg"

lemma validate_ok_iff:
  assumes "hex_ok lib"
  shows "validateSystemAndRequest lib cfg (Hash_Hex lib a) (Hash_Hex lib s) = Inr u \<longleftrightarrow>
    a = enc_AttestationTypeEncoded cfg \<and> s = enc_SourceIDEncoded cfg"
  using assms by (auto simp: validateSystemAndRequest_def hex_ok_def dest: injD)

text \<open>A request that verifies: its decoded data, the verifier's response and the encoded body.\<close>

definition accepted ::
  "('u, 's, 't, 'v) marshal \<Rightarrow> EncodedAndABI \<Rightarrow> ('w, 's, 't) verifier \<Rightarrow> AttestationRequest \<Rightarrow> 'w \<Rightarrow> 's \<Rightarrow> 't \<Rightarrow> bytes \<Rightarrow> 'w \<Rightarrow> bool" where
  "accepted m cfg v req w data resp body w' \<longleftrightarrow> addressed cfg req \<and>
     structs_Decode m (enc_Request cfg) (aq_RequestBody req) = Inr data \<and> v verifierWorkTimeout data w = (Inr resp, w') \<and>
     structs_EncodeResponse m (enc_Response cfg) resp = Inr body"

text \<open>The ways a request can go; both verifying endpoints follow them.\<close>

lemma request_cases:
  assumes "hex_ok lib"
  obtains (unaddressed) e where "\<not> addressed cfg req"
      "validateSystemAndRequest lib cfg (Hash_Hex lib (aq_AttestationType req)) (Hash_Hex lib (aq_SourceID req)) = Inl e"
  | (malformed) e where "addressed cfg req" "decodeRequest m (aq_RequestBody req) cfg = Inl e"
  | (failed) data e w' where "addressed cfg req" "decodeRequest m (aq_RequestBody req) cfg = Inr data"
      "v verifierWorkTimeout data w = (Inl e, w')"
  | (unencodable) data resp e w' where "addressed cfg req" "decodeRequest m (aq_RequestBody req) cfg = Inr data"
      "v verifierWorkTimeout data w = (Inr resp, w')" "encodeResponse m resp cfg = Inl e"
  | (accepting) data resp body w' where "accepted m cfg v req w data resp body w'"
      "decodeRequest m (aq_RequestBody req) cfg = Inr data" "encodeResponse m resp cfg = Inr body"
proof (cases "validateSystemAndRequest lib cfg (Hash_Hex lib (aq_AttestationType req)) (Hash_Hex lib (aq_SourceID req))")
  case (Inl e)
  then have "\<not> addressed cfg req" unfolding addressed_def using validate_ok_iff [OF assms, of cfg] by (metis Inl_Inr_False)
  with Inl show ?thesis by (rule unaddressed [rotated])
next
  case (Inr u)
  then have a: "addressed cfg req" using validate_ok_iff [OF assms] by (simp add: addressed_def)
  show ?thesis
  proof (cases "decodeRequest m (aq_RequestBody req) cfg")
    case d: (Inr data)
    obtain r w' where v: "v verifierWorkTimeout data w = (r, w')" by fastforce
    show ?thesis
    proof (cases r)
      case r: (Inr resp)
      show ?thesis
      proof (cases "encodeResponse m resp cfg")
        case (Inr body)
        with a d v r have "accepted m cfg v req w data resp body w'"
          by (simp add: accepted_def decodeRequest_def encodeResponse_def map_error_eq_Inr_iff)
        from accepting [OF this d Inr] show ?thesis .
      qed (use a d v r unencodable in blast)
    qed (use a d v failed in blast)
  qed (use a malformed in blast)
qed


lemma hex_validate:
  assumes "hex_ok lib" and "addressed cfg req"
  shows "validateSystemAndRequest lib cfg (Hash_Hex lib (aq_AttestationType req)) (Hash_Hex lib (aq_SourceID req)) = Inr ()"
  using assms by (simp add: validate_ok_iff addressed_def)

lemma classifyVerifyStatus_range:
  "fst (classifyVerifyStatus err) \<in> {StatusRetry, StatusRejected}" "snd (classifyVerifyStatus err) \<noteq> ''''"
proof -
  show "fst (classifyVerifyStatus err) \<in> {StatusRetry, StatusRejected}" by (simp add: classifyVerifyStatus_fst)
  have "\<not> (snd (classifyVerifyStatus err) = '''')"
    unfolding classifyVerifyStatus_def switch_project [of "\<lambda>p. snd p = ''''"] by simp
  then show "snd (classifyVerifyStatus err) \<noteq> ''''" .
qed

text \<open>What the envelope of \<open>/verify\<close> promises to the relay.\<close>

definition envelope_ok :: "VerifierResponse \<Rightarrow> bool" where
  "envelope_ok env \<longleftrightarrow> vr_Status env \<in> {StatusVerified, StatusRetry, StatusRejected} \<and>
     (vr_Status env = StatusVerified \<longleftrightarrow> vr_Message env = '''') \<and>
     (vr_Status env = StatusVerified \<or> vr_ResponseBody env = [])"

lemma verify_op_failed:
  assumes "hex_ok lib" and "addressed cfg req" and "decodeRequest m (aq_RequestBody req) cfg = Inr data"
    and "v verifierWorkTimeout data w = (Inl e, w')"
  shows "verify_op lib m cfg v req w =
      (HTTP_OK \<lparr>vr_Status = fst (classifyVerifyStatus e), vr_ResponseBody = [], vr_Message = snd (classifyVerifyStatus e)\<rparr>, w')"
    and "prepareResponseBody_op lib m cfg v req w = (HTTP_Error (classifyVerifyError e) ''Verification failed'', w')"
  using assms hex_validate [OF assms(1,2)]
  by (simp_all add: verify_op_def prepareResponseBody_op_def verifyWithDeadline_def split: prod.splits)

lemma verify_op_accepted:
  assumes "hex_ok lib" and "accepted m cfg v req w data resp body w'"
  shows "verify_op lib m cfg v req w = (case FromInternal m resp of None \<Rightarrow> (HTTP_Panic, w')
      | Some x \<Rightarrow> (HTTP_OK \<lparr>vr_Status = StatusVerified, vr_ResponseBody = body, vr_Message = ''''\<rparr>, w'))"
    and "prepareResponseBody_op lib m cfg v req w = (case FromInternal m resp of None \<Rightarrow> (HTTP_Panic, w')
      | Some x \<Rightarrow> (HTTP_OK \<lparr>rd_ResponseData = x, rd_ResponseBody = body\<rparr>, w'))"
  using assms hex_validate [OF assms(1), of cfg req]
  by (simp_all add: accepted_def verify_op_def prepareResponseBody_op_def verifyWithDeadline_def decodeRequest_def
      encodeResponse_def split: option.splits)

text \<open>The requests that reach no verifier, or whose response cannot be encoded.\<close>

lemma verify_op_other:
  assumes "hex_ok lib"
  shows "\<not> addressed cfg req \<Longrightarrow> verify_op lib m cfg v req w =
      (HTTP_OK (rejectedResponse ''unsupported attestation type or source id''), w) \<and>
      prepareResponseBody_op lib m cfg v req w = (HTTP_Error 400 ''Request validation failed'', w)"
    and "addressed cfg req \<Longrightarrow> decodeRequest m (aq_RequestBody req) cfg = Inl e \<Longrightarrow> verify_op lib m cfg v req w =
      (HTTP_OK (rejectedResponse ''malformed request body''), w) \<and>
      prepareResponseBody_op lib m cfg v req w = (HTTP_Error 400 ''Decoding request body to data failed'', w)"
    and "addressed cfg req \<Longrightarrow> decodeRequest m (aq_RequestBody req) cfg = Inr data \<Longrightarrow>
      v verifierWorkTimeout data w = (Inr resp, w') \<Longrightarrow> encodeResponse m resp cfg = Inl e \<Longrightarrow> verify_op lib m cfg v req w =
      (HTTP_OK (retryResponse ''response encoding failed''), w') \<and>
      prepareResponseBody_op lib m cfg v req w = (HTTP_Error 500 ''Encoding data to response body failed'', w')"
  using hex_validate [OF assms, of cfg req] assms
  by (auto simp: verify_op_def prepareResponseBody_op_def verifyWithDeadline_def validateSystemAndRequest_def addressed_def
      hex_ok_def dest: injD)

lemmas endpoint_results = verify_op_failed verify_op_accepted verify_op_other

text \<open>
  C31. \<open>/verify\<close> always answers 200 with a well-formed envelope, unless the conversion of the verifier's response dereferences a nil amount,
  which ends in a panic: the status is one of the three, there is a message exactly when it is not
  VERIFIED, and a body only then. It is VERIFIED exactly when the request names the deployment's type and source, decodes,
  the verifier accepts it within its deadline and the response encodes, and the body is that encoding.
\<close>

theorem verify_envelope_exact:
  assumes "hex_ok lib"
  shows "case verify_op lib m cfg v req w of
      (HTTP_OK env, w') \<Rightarrow> envelope_ok env \<and>
        (vr_Status env = StatusVerified \<longleftrightarrow> (\<exists>data resp. accepted m cfg v req w data resp (vr_ResponseBody env) w'))
    | (HTTP_Error code message, w') \<Rightarrow> False
    | (HTTP_Panic, w') \<Rightarrow> \<exists>data resp body. accepted m cfg v req w data resp body w' \<and> FromInternal m resp = None"
  using assms
proof (cases rule: request_cases [where cfg = cfg and req = req and m = m and v = v and w = w])
  case (failed data e w')
  then have "\<not> accepted m cfg v req w d r b w1" for d r b w1
    by (auto simp: accepted_def decodeRequest_def map_error_eq_Inr_iff)
  with classifyVerifyStatus_range [of e] show ?thesis
    by (auto simp: verify_op_failed [where v = v, OF assms failed] envelope_ok_def status_names)
next
  case (accepting data resp body w')
  then show ?thesis
    by (auto simp: verify_op_accepted(1) [OF assms accepting(1)] envelope_ok_def status_names split: option.splits)
qed (auto simp: verify_op_other [OF assms] envelope_ok_def accepted_def rejectedResponse_def retryResponse_def status_names
      decodeRequest_def encodeResponse_def map_error_eq_Inr_iff map_error_eq_Inl_iff)


section \<open>The contract of a verifier\<close>

text \<open>The verdict the HTTP endpoint expresses with its status code; a panic expresses none.\<close>

fun http_verdict :: "'a http_reply \<Rightarrow> string option" where
  "http_verdict (HTTP_OK x) = Some StatusVerified"
| "http_verdict (HTTP_Error code message) = Some (if code \<in> {400, 422} then StatusRejected else StatusRetry)"
| "http_verdict HTTP_Panic = None"

fun envelope_verdict :: "VerifierResponse http_reply \<Rightarrow> string option" where
  "envelope_verdict (HTTP_OK env) = Some (vr_Status env)"
| "envelope_verdict (HTTP_Error code message) = None"
| "envelope_verdict HTTP_Panic = None"

text \<open>A server answers requests one after the other; each sees the state the previous one left.\<close>

primrec serve ::
  "tee_lib \<Rightarrow> ('u, 's, 't, 'v) marshal \<Rightarrow> EncodedAndABI \<Rightarrow> ('w, 's, 't) verifier \<Rightarrow> AttestationRequest list \<Rightarrow> 'w \<Rightarrow>
   (AttestationRequest \<times> VerifierResponse http_reply) list \<times> 'w" where
  "serve lib m cfg v [] w = ([], w)"
| "serve lib m cfg v (req # reqs) w =
     (case verify_op lib m cfg v req w of (reply, w1) \<Rightarrow>
     (case serve lib m cfg v reqs w1 of (replies, w2) \<Rightarrow> ((req, reply) # replies, w2)))"

lemma serve_snoc:
  "snd (serve lib m cfg v (reqs @ [req]) w) = snd (verify_op lib m cfg v req (snd (serve lib m cfg v reqs w)))"
  by (induction reqs arbitrary: w) (simp_all add: split_beta)

text \<open>
  A verifier keeps its invariant, promises something about every response it returns for a request, and builds its errors so
  that both classifications agree on them.
\<close>

locale attestation_verifier =
  fixes verify :: "('w, 's, 't) verifier" and invar :: "'w \<Rightarrow> bool" and promise :: "'w \<Rightarrow> 's \<Rightarrow> 't \<Rightarrow> 'w \<Rightarrow> bool"
  assumes verify_keeps: "preserves invar (verify t data)"
    and verify_promise: "invar w \<Longrightarrow> verify t data w = (Inr resp, w') \<Longrightarrow> promise w data resp w'"
    and verify_well_tagged: "invar w \<Longrightarrow> verify t data w = (Inl e, w') \<Longrightarrow> well_tagged e"
begin

lemma endpoints_agree:
  assumes "hex_ok lib" and "invar w"
  shows "envelope_verdict (fst (verify_op lib m cfg verify req w)) =
      http_verdict (fst (prepareResponseBody_op lib m cfg verify req w)) \<and>
    snd (verify_op lib m cfg verify req w) = snd (prepareResponseBody_op lib m cfg verify req w)"
  using assms(1)
proof (cases rule: request_cases [where cfg = cfg and req = req and m = m and v = verify and w = w])
  case (failed data e w')
  from verify_well_tagged [OF assms(2) failed(3)] have "well_tagged e" .
  then show ?thesis
    by (simp add: verify_op_failed [where v = verify, OF assms(1) failed] well_tagged_status
        classifyVerifyError_cases [of e, simplified] status_names)
next
  case (accepting data resp body w')
  then show ?thesis by (simp add: verify_op_accepted [OF assms(1) accepting(1)] split: option.splits)
qed (simp_all add: verify_op_other [OF assms(1)] rejectedResponse_def retryResponse_def)

lemma verify_op_keeps:
  assumes "hex_ok lib" and "invar w"
  shows "invar (snd (verify_op lib m cfg verify req w))"
  using assms(1)
proof (cases rule: request_cases [where cfg = cfg and req = req and m = m and v = verify and w = w])
  case (failed data e w')
  from preservesD [OF verify_keeps assms(2) failed(3)] show ?thesis
    by (simp add: verify_op_failed [where v = verify, OF assms(1) failed])
next
  case (unencodable data resp e w')
  from preservesD [OF verify_keeps assms(2) unencodable(3)] show ?thesis
    by (simp add: verify_op_other(3) [where v = verify, OF assms(1) unencodable])
next
  case (accepting data resp body w')
  then have "verify verifierWorkTimeout data w = (Inr resp, w')" by (simp add: accepted_def)
  from preservesD [OF verify_keeps assms(2) this] show ?thesis
    by (simp add: verify_op_accepted [OF assms(1) accepting(1)] split: option.splits)
qed (simp_all add: verify_op_other [OF assms(1)] assms(2))

lemma verified_promise:
  assumes "hex_ok lib" and "invar w" and "verify_op lib m cfg verify req w = (HTTP_OK env, w')"
    and "vr_Status env = StatusVerified"
  shows "addressed cfg req \<and> (\<exists>data resp. structs_Decode m (enc_Request cfg) (aq_RequestBody req) = Inr data \<and>
    structs_EncodeResponse m (enc_Response cfg) resp = Inr (vr_ResponseBody env) \<and> promise w data resp w')"
  using assms(1)
proof (cases rule: request_cases [where cfg = cfg and req = req and m = m and v = verify and w = w])
  case (failed data e w')
  with assms(3,4) classifyVerifyStatus_range(1) [of e] show ?thesis
    by (auto simp: verify_op_failed [where v = verify, OF assms(1) failed] status_names)
next
  case (accepting data resp body w1)
  with assms(3) have "body = vr_ResponseBody env" "w1 = w'"
    by (auto simp: verify_op_accepted [OF assms(1) accepting(1)] split: option.splits)
  with accepting(1) verify_promise [OF assms(2)] show ?thesis by (auto simp: accepted_def)
qed (use assms(3,4) in \<open>auto simp: verify_op_other [OF assms(1)] rejectedResponse_def retryResponse_def status_names\<close>)

text \<open>
  Every answer of a run of requests is the answer to that request in the state the requests before it left, and that state satisfies
  the invariant.
\<close>

lemma serve_reply:
  assumes "hex_ok lib" and "invar w" and "serve lib m cfg verify reqs w = (replies, w')" and "(req, reply) \<in> set replies"
  obtains before after w0 w1 where "reqs = before @ req # after" "snd (serve lib m cfg verify before w) = w0" "invar w0"
    "verify_op lib m cfg verify req w0 = (reply, w1)"
  using assms(2-4)
proof (induction reqs arbitrary: w replies w' thesis)
  case (Cons r reqs w replies w' thesis)
  obtain first w1 where v: "verify_op lib m cfg verify r w = (first, w1)" by fastforce
  obtain rest w2 where s: "serve lib m cfg verify reqs w1 = (rest, w2)" by fastforce
  have i: "invar w1" using verify_op_keeps [OF assms(1) Cons.prems(2), of m cfg r] v by simp
  from Cons.prems(3,4) v s consider "req = r" "reply = first" | "(req, reply) \<in> set rest" by auto
  then show ?case
  proof cases
    case 1
    with Cons.prems(1) [of "[]" reqs w w1] Cons.prems(2) v show ?thesis by simp
  next
    case 2
    obtain before after w3 w4 where "reqs = before @ req # after" "snd (serve lib m cfg verify before w1) = w3" "invar w3"
      "verify_op lib m cfg verify req w3 = (reply, w4)"
      by (rule Cons.IH [OF _ i s 2])
    with Cons.prems(1) [of "r # before" after w3 w4] v show ?thesis by (auto split: prod.splits)
  qed
qed simp

lemma verify_op_no_panic:
  assumes "hex_ok lib" and "invar w" and "\<And>data resp w'. promise w data resp w' \<Longrightarrow> FromInternal m resp \<noteq> None"
  shows "\<exists>env. fst (verify_op lib m cfg verify req w) = HTTP_OK env"
  using assms(1)
proof (cases rule: request_cases [where cfg = cfg and req = req and m = m and v = verify and w = w])
  case (failed data e w')
  then show ?thesis by (simp add: verify_op_failed [where v = verify, OF assms(1) failed])
next
  case (accepting data resp body w')
  then have "promise w data resp w'" using verify_promise [OF assms(2)] by (auto simp: accepted_def)
  with assms(3) show ?thesis by (auto simp: verify_op_accepted [OF assms(1) accepting(1)] split: option.splits)
qed (simp_all add: verify_op_other [OF assms(1)])

end

section \<open>A concrete exchange\<close>

definition sample_marshal :: "(bytes, bytes, bytes, bytes) marshal" where
  "sample_marshal = \<lparr>ToInternal = Inr, FromInternal = Some, structs_Decode = (\<lambda>_ b. if b = [] then Inl Plain else Inr b),
     structs_EncodeRequest = (\<lambda>_ b. Inr b), structs_EncodeResponse = (\<lambda>_ b. Inr b)\<rparr>"

definition sample_enc :: EncodedAndABI where
  "sample_enc = \<lparr>enc_SourceID = ''XRP'', enc_SourceIDEncoded = 3, enc_AttestationType = PMWPaymentStatus,
     enc_AttestationTypeEncoded = 4, enc_Request = 0, enc_Response = 0, enc_DestinationChainSlug = ''flr'',
     enc_SourceURLSlug = ''xrp''\<rparr>"

theorem verify_envelope_exact_witness:
  "\<exists>env. verify_op sample_lib sample_marshal sample_enc (\<lambda>t b w. (Inr (7 # b), w))
      \<lparr>aq_AttestationType = 4, aq_SourceID = 3, aq_RequestBody = [1]\<rparr> () = (HTTP_OK env, ()) \<and>
     envelope_ok env \<and> vr_Status env = StatusVerified \<and> vr_ResponseBody env = [7, 1]"
proof -
  let ?v = "\<lambda>(t :: duration) b (w :: unit). (Inr (7 # b) :: bytes result, w)"
  let ?req = "\<lparr>aq_AttestationType = 4, aq_SourceID = 3, aq_RequestBody = [1]\<rparr>"
  let ?env = "\<lparr>vr_Status = StatusVerified, vr_ResponseBody = [7, 1], vr_Message = ''''\<rparr>"
  have "accepted sample_marshal sample_enc ?v ?req () [1] [7, 1] [7, 1] ()"
    by (simp add: accepted_def addressed_def sample_marshal_def sample_enc_def)
  from verify_op_accepted(1) [OF sample_hex_ok this]
  have run: "verify_op sample_lib sample_marshal sample_enc ?v ?req () = (HTTP_OK ?env, ())"
    by (simp add: sample_marshal_def)
  with verify_envelope_exact [OF sample_hex_ok, of sample_marshal sample_enc ?v ?req "()"] have "envelope_ok ?env" by simp
  with run show ?thesis by (intro exI [of _ ?env]) simp
qed

end
