(* ===== verification/Indexer.thy ===== *)
theory Indexer
  imports Instruction "HOL-Library.Product_Lexorder" "HOL-Library.Multiset"
begin

text \<open>
  \<open>internal/attestation/pmwpaymentstatus/db\<close> and \<open>internal/attestation/pmwfeeproof/db\<close>: the
  queries on the C-chain log index and on the source-chain transaction index, and the
  consistency check of a transaction row.

  The two databases are parameters: a query is a value (\<open>log_query\<close>, \<open>tx_query\<close>) holding the
  arguments of the \<open>WHERE\<close>, \<open>ORDER BY\<close> and \<open>LIMIT\<close> clauses, a database a function from
  queries to rows or an error. \<open>serves_logs\<close> and \<open>serves_txs\<close> say what SQL promises: the rows
  of a successful query are those of the table that match, ordered, cut at the limit.
\<close>

section \<open>Rows, queries and repositories\<close>

record DBTransaction =
  tx_Hash :: string
  tx_BlockNumber :: u64
  tx_Timestamp :: u64
  tx_PaymentReference :: string
  tx_Response :: string
  tx_IsNativePayment :: bool
  tx_SourceAddressesRoot :: string
  tx_Sequence :: u64
  tx_TicketSequence :: u64
  tx_SourceAddress :: string

record log_query =
  lq_address :: string
  lq_topic0 :: string
  lq_topic1 :: string
  lq_topic2 :: "string list"
  lq_limit :: "nat option"

record tx_query =
  tq_source_address :: string
  tq_sequence :: "u64 list"
  tq_limit :: "nat option"

record DBRepo =
  repo_db :: "tx_query \<Rightarrow> DBTransaction list result"
  repo_cChainDb :: "log_query \<Rightarrow> db_log list result"
  repo_contractAddress :: string

definition removeHexPrefix :: "string \<Rightarrow> string" where
  "removeHexPrefix s = strings_TrimPrefix (strings_TrimPrefix s ''0x'') ''0X''"

definition normalizeAddress :: "tee_lib \<Rightarrow> address \<Rightarrow> string" where
  "normalizeAddress lib addr = removeHexPrefix (strings_ToLower (Address_Hex lib addr))"

definition NewDBRepo ::
  "tee_lib \<Rightarrow> (tx_query \<Rightarrow> DBTransaction list result) \<Rightarrow> (log_query \<Rightarrow> db_log list result) \<Rightarrow>
   address \<Rightarrow> DBRepo" where
  "NewDBRepo lib db cChainDb contractAddress =
     \<lparr>repo_db = db, repo_cChainDb = cChainDb,
      repo_contractAddress = normalizeAddress lib contractAddress\<rparr>"

section \<open>Instruction logs\<close>

text \<open>
  The \<open>WHERE\<close> clause both packages use; \<open>topic1\<close> is pinned to extension id 0
  (\<open>common.HexToHash("")\<close> is the zero hash).
\<close>

definition instruction_query ::
  "tee_lib \<Rightarrow> DBRepo \<Rightarrow> string \<Rightarrow> hash list \<Rightarrow> nat option \<Rightarrow> log_query" where
  "instruction_query lib r eventHash ids limit =
     \<lparr>lq_address = repo_contractAddress r,
      lq_topic0 = removeHexPrefix eventHash,
      lq_topic1 = removeHexPrefix (Hash_Hex lib 0),
      lq_topic2 = map (\<lambda>h. removeHexPrefix (Hash_Hex lib h)) ids,
      lq_limit = limit\<rparr>"

definition FetchInstructionLog ::
  "tee_lib \<Rightarrow> DBRepo \<Rightarrow> string \<Rightarrow> hash \<Rightarrow> chain_log result" where
  "FetchInstructionLog lib r eventHash instructionID =
     rbind (map_error (tag_with ErrDatabase)
              (repo_cChainDb r (instruction_query lib r eventHash [instructionID] (Some 2)))) (\<lambda>dbLogs.
     if length dbLogs = 0 then Inl (tag ErrRecordNotFound)
     else if length dbLogs > 1 then Inl (tag ErrDatabase)
     else ConvertDatabaseLogToChainLog lib (dbLogs ! 0))"

text \<open>
  The fee-proof package returns the block timestamp with the log
  (\<open>InstructionLogResult\<close>), and has a batch variant.
\<close>

record InstructionLogResult =
  ilr_Log :: chain_log
  ilr_BlockTimestamp :: u64

definition FetchInstructionLogTS ::
  "tee_lib \<Rightarrow> DBRepo \<Rightarrow> string \<Rightarrow> hash \<Rightarrow> InstructionLogResult result" where
  "FetchInstructionLogTS lib r eventHash instructionID =
     rbind (map_error (tag_with ErrDatabase)
              (repo_cChainDb r (instruction_query lib r eventHash [instructionID] (Some 2)))) (\<lambda>dbLogs.
     if length dbLogs = 0 then Inl (tag ErrRecordNotFound)
     else if length dbLogs > 1 then Inl (tag ErrDatabase)
     else rbind (ConvertDatabaseLogToChainLog lib (dbLogs ! 0)) (\<lambda>chainLog.
          Inr \<lparr>ilr_Log = chainLog, ilr_BlockTimestamp = dl_Timestamp (dbLogs ! 0)\<rparr>))"

fun collect_logs ::
  "tee_lib \<Rightarrow> db_log list \<Rightarrow> (hash \<rightharpoonup> chain_log) \<Rightarrow> (hash \<rightharpoonup> chain_log) result" where
  "collect_logs lib [] res = Inr res"
| "collect_logs lib (dbLog # dbLogs) res =
     rbind (map_error wrap1 (ConvertDatabaseLogToChainLog lib dbLog)) (\<lambda>chainLog.
     if length (cl_Topics chainLog) \<ge> 3 then
       (let key = cl_Topics chainLog ! 2 in
        if res key \<noteq> None then Inl (tag ErrDatabase)
        else collect_logs lib dbLogs (res(key \<mapsto> chainLog)))
     else collect_logs lib dbLogs res)"

definition FetchInstructionLogs ::
  "tee_lib \<Rightarrow> DBRepo \<Rightarrow> string \<Rightarrow> hash list \<Rightarrow> (hash \<rightharpoonup> chain_log) result" where
  "FetchInstructionLogs lib r eventHash instructionIDs =
     (if instructionIDs = [] then Inr Map.empty
      else rbind (map_error (tag_with ErrDatabase)
                   (repo_cChainDb r (instruction_query lib r eventHash instructionIDs None))) (\<lambda>dbLogs.
           collect_logs lib dbLogs Map.empty))"

section \<open>Source-chain transactions\<close>

definition FetchTransactionBySourceAndSequence ::
  "DBRepo \<Rightarrow> string \<Rightarrow> u64 \<Rightarrow> DBTransaction result" where
  "FetchTransactionBySourceAndSequence r sourceAddress nonce =
     rbind (map_error (tag_with ErrDatabase)
              (repo_db r \<lparr>tq_source_address = sourceAddress, tq_sequence = [nonce], tq_limit = Some 2\<rparr>))
     (\<lambda>txs. if length txs = 0 then Inl (tag ErrRecordNotFound)
            else if length txs > 1 then Inl (tag ErrDatabase)
            else Inr (txs ! 0))"

fun collect_txs ::
  "DBTransaction list \<Rightarrow> (u64 \<rightharpoonup> DBTransaction) \<Rightarrow> (u64 \<rightharpoonup> DBTransaction) result" where
  "collect_txs [] res = Inr res"
| "collect_txs (tx # txs) res =
     (if res (tx_Sequence tx) \<noteq> None then Inl (tag ErrDatabase)
      else collect_txs txs (res(tx_Sequence tx \<mapsto> tx)))"

definition FetchTransactionsBySourceAndSequences ::
  "DBRepo \<Rightarrow> string \<Rightarrow> u64 list \<Rightarrow> (u64 \<rightharpoonup> DBTransaction) result" where
  "FetchTransactionsBySourceAndSequences r sourceAddress nonces =
     (if nonces = [] then Inr Map.empty
      else rbind (map_error (tag_with ErrDatabase)
                   (repo_db r \<lparr>tq_source_address = sourceAddress, tq_sequence = nonces, tq_limit = None\<rparr>))
           (\<lambda>txs. collect_txs txs Map.empty))"

definition CheckRowConsistency ::
  "string \<Rightarrow> string \<Rightarrow> u64 \<Rightarrow> DBTransaction \<Rightarrow> unit result" where
  "CheckRowConsistency jsonHash jsonAccount jsonSequence tx =
     rbind (ensure (strings_EqualFold jsonHash (tx_Hash tx)) (tag ErrDatabase)) (\<lambda>_.
     rbind (ensure (jsonAccount = tx_SourceAddress tx) (tag ErrDatabase)) (\<lambda>_.
     ensure (jsonSequence = tx_Sequence tx) (tag ErrDatabase)))"

section \<open>What SQL promises\<close>

definition log_matches :: "log_query \<Rightarrow> db_log \<Rightarrow> bool" where
  "log_matches q l \<longleftrightarrow>
     dl_Address l = lq_address q \<and> dl_Topic0 l = lq_topic0 q \<and> dl_Topic1 l = lq_topic1 q \<and>
     dl_Topic2 l \<in> set (lq_topic2 q)"

definition tx_matches :: "tx_query \<Rightarrow> DBTransaction \<Rightarrow> bool" where
  "tx_matches q t \<longleftrightarrow> tx_SourceAddress t = tq_source_address q \<and> tx_Sequence t \<in> set (tq_sequence q)"

definition apply_limit :: "nat option \<Rightarrow> 'a list \<Rightarrow> 'a list" where
  "apply_limit n xs = (case n of None \<Rightarrow> xs | Some k \<Rightarrow> take k xs)"

definition sql_logs :: "db_log list \<Rightarrow> log_query \<Rightarrow> db_log list" where
  "sql_logs table q =
     apply_limit (lq_limit q)
       (sort_key (\<lambda>l. (dl_BlockNumber l, dl_LogIndex l)) (filter (log_matches q) table))"

definition serves_logs :: "DBRepo \<Rightarrow> db_log list \<Rightarrow> bool" where
  "serves_logs r table \<longleftrightarrow> (\<forall>q rows. repo_cChainDb r q = Inr rows \<longrightarrow> rows = sql_logs table q)"

text \<open>The order of rows is only fixed by the primary key, so a permutation is allowed.\<close>

definition serves_txs :: "DBRepo \<Rightarrow> DBTransaction list \<Rightarrow> bool" where
  "serves_txs r table \<longleftrightarrow>
     (\<forall>q rows. repo_db r q = Inr rows \<longrightarrow>
        (\<exists>ts. mset ts = mset (filter (tx_matches q) table) \<and> rows = apply_limit (tq_limit q) ts))"

definition repo_foreign :: "DBRepo \<Rightarrow> bool" where
  "repo_foreign r \<longleftrightarrow>
     (\<forall>q. foreign_result (repo_cChainDb r q)) \<and> (\<forall>q. foreign_result (repo_db r q))"

section \<open>Lemmas\<close>

lemma length_take2_eq_1: "length (take 2 xs) = 1 \<longleftrightarrow> length xs = 1"
  by auto

lemma take2_eq_Nil: "take 2 xs = [] \<longleftrightarrow> xs = []"
  by (cases xs) auto

lemma sort_key_singleton: "length (sort_key f xs) = 1 \<Longrightarrow> sort_key f xs = xs"
proof -
  assume "length (sort_key f xs) = 1"
  then obtain x where "xs = [x]" by (auto simp: length_Suc_conv)
  then show ?thesis by simp
qed

lemma sql_logs_limit2:
  assumes "lq_limit q = Some 2" and "sql_logs table q = rows"
  shows "rows = [] \<longleftrightarrow> filter (log_matches q) table = []"
    and "length rows = 1 \<Longrightarrow> filter (log_matches q) table = rows"
proof -
  let ?f = "\<lambda>l. (dl_BlockNumber l, dl_LogIndex l)"
  let ?ys = "sort_key ?f (filter (log_matches q) table)"
  have rows: "rows = take 2 ?ys"
    using assms by (simp add: sql_logs_def apply_limit_def)
  show "rows = [] \<longleftrightarrow> filter (log_matches q) table = []"
    unfolding rows take2_eq_Nil by (simp only: length_0_conv [symmetric] length_sort)
  assume "length rows = 1"
  then have one: "length ?ys = 1" unfolding rows length_take2_eq_1 .
  then have "take 2 ?ys = ?ys" by simp
  then show "filter (log_matches q) table = rows"
    unfolding rows sort_key_singleton [OF one] by simp
qed

text \<open>What a successful, an absent and a duplicate lookup mean on the table.\<close>

lemma fetch_log_TS_conv:
  "FetchInstructionLog lib r ev h = map_sum id ilr_Log (FetchInstructionLogTS lib r ev h)"
  by (cases "repo_cChainDb r (instruction_query lib r ev [h] (Some 2))")
     (auto simp: FetchInstructionLog_def FetchInstructionLogTS_def rbind_def split: sum.splits)

lemma FetchInstructionLogTS_InrD:
  "FetchInstructionLogTS lib r ev h = Inr res \<Longrightarrow>
     \<exists>row. repo_cChainDb r (instruction_query lib r ev [h] (Some 2)) = Inr [row] \<and>
       ConvertDatabaseLogToChainLog lib row = Inr (ilr_Log res) \<and>
       ilr_BlockTimestamp res = dl_Timestamp row"
  by (fastforce simp: FetchInstructionLogTS_def result_simps length_Suc_conv not_less le_Suc_eq
        split: if_splits)

lemma FetchInstructionLog_InrD:
  "FetchInstructionLog lib r ev h = Inr c \<Longrightarrow>
     \<exists>row. repo_cChainDb r (instruction_query lib r ev [h] (Some 2)) = Inr [row] \<and>
       ConvertDatabaseLogToChainLog lib row = Inr c"
  by (fastforce simp: FetchInstructionLog_def result_simps length_Suc_conv not_less le_Suc_eq
        split: if_splits)

lemma FetchTransaction_InrD:
  "FetchTransactionBySourceAndSequence r src n = Inr t \<Longrightarrow>
     repo_db r \<lparr>tq_source_address = src, tq_sequence = [n], tq_limit = Some 2\<rparr> = Inr [t]"
  by (fastforce simp: FetchTransactionBySourceAndSequence_def result_simps length_Suc_conv not_less
        le_Suc_eq split: if_splits)

lemma serves_logs_single:
  assumes "serves_logs r table"
    and "repo_cChainDb r (instruction_query lib r ev [h] (Some 2)) = Inr [row]"
  shows "filter (log_matches (instruction_query lib r ev [h] (Some 2))) table = [row]"
proof -
  let ?q = "instruction_query lib r ev [h] (Some 2)"
  have "sql_logs table ?q = [row]"
    using assms unfolding serves_logs_def by metis
  then show ?thesis
    by (intro sql_logs_limit2(2)) (simp_all add: instruction_query_def)
qed

lemma serves_txs_single:
  assumes "serves_txs r table"
    and "repo_db r \<lparr>tq_source_address = src, tq_sequence = [n], tq_limit = Some 2\<rparr> = Inr [t]"
  shows "filter (\<lambda>t. tx_SourceAddress t = src \<and> tx_Sequence t = n) table = [t]"
proof -
  let ?q = "\<lparr>tq_source_address = src, tq_sequence = [n], tq_limit = Some 2\<rparr>"
  have eq: "tx_matches ?q = (\<lambda>t. tx_SourceAddress t = src \<and> tx_Sequence t = n)"
    by (auto simp: tx_matches_def)
  obtain ts where ts: "mset ts = mset (filter (tx_matches ?q) table)" "take 2 ts = [t]"
    using assms unfolding serves_txs_def by (force simp: apply_limit_def)
  then have "length ts = 1" by (metis One_nat_def length_take2_eq_1 list.size(3,4) add.commute plus_1_eq_Suc)
  with ts have "mset (filter (tx_matches ?q) table) = {#t#}"
    by (auto simp: length_Suc_conv)
  then have "filter (tx_matches ?q) table = [t]" by (simp only: mset_single_iff)
  then show ?thesis by (simp only: eq)
qed

lemma CheckRowConsistency_ok_iff:
  "CheckRowConsistency h a n tx = Inr () \<longleftrightarrow>
     strings_EqualFold h (tx_Hash tx) \<and> a = tx_SourceAddress tx \<and> n = tx_Sequence tx"
  by (auto simp: CheckRowConsistency_def result_simps)

lemma CheckRowConsistency_InlD: "CheckRowConsistency h a n tx = Inl e \<Longrightarrow> e = tag ErrDatabase"
  by (auto simp: CheckRowConsistency_def result_simps)

text \<open>The batch fetch keeps one row per key: keys are distinct and nothing is dropped.\<close>

lemma collect_txs_InrD:
  "collect_txs txs m = Inr m' \<Longrightarrow>
     distinct (map tx_Sequence txs) \<and> (\<forall>t \<in> set txs. m (tx_Sequence t) = None) \<and>
     m' = m ++ map_of (map (\<lambda>t. (tx_Sequence t, t)) txs)"
proof (induction txs m rule: collect_txs.induct)
  case (1 m)
  then show ?case by simp
next
  case (2 tx txs m)
  then have none: "m (tx_Sequence tx) = None"
    and rest: "collect_txs txs (m(tx_Sequence tx \<mapsto> tx)) = Inr m'"
    by (auto split: if_splits)
  from "2.IH" [OF _ rest] none have IH:
    "distinct (map tx_Sequence txs)"
    "\<forall>t \<in> set txs. (m(tx_Sequence tx \<mapsto> tx)) (tx_Sequence t) = None"
    "m' = m(tx_Sequence tx \<mapsto> tx) ++ map_of (map (\<lambda>t. (tx_Sequence t, t)) txs)"
    by blast+
  then have new: "tx_Sequence tx \<notin> tx_Sequence ` set txs"
    and old: "\<forall>t \<in> set txs. m (tx_Sequence t) = None"
    by (auto split: if_splits)
  have "map_of (map (\<lambda>t. (tx_Sequence t, t)) txs) (tx_Sequence tx) = None"
    using new by (auto simp: map_of_eq_None_iff)
  then have "m(tx_Sequence tx \<mapsto> tx) ++ map_of (map (\<lambda>t. (tx_Sequence t, t)) txs) =
      m ++ map_of (map (\<lambda>t. (tx_Sequence t, t)) (tx # txs))"
    by (auto simp: map_add_def fun_eq_iff split: option.splits)
  with IH(3) have "m' = m ++ map_of (map (\<lambda>t. (tx_Sequence t, t)) (tx # txs))"
    by (rule trans)
  with IH(1) new old none show ?case
    unfolding list.map(2) distinct.simps list.set(2) set_map by blast
qed

lemma collect_txs_lookup:
  assumes "collect_txs txs Map.empty = Inr m" and "m n = Some t"
  shows "t \<in> set txs \<and> tx_Sequence t = n \<and> (\<forall>u \<in> set txs. tx_Sequence u = n \<longrightarrow> u = t)"
proof -
  from collect_txs_InrD [OF assms(1)]
  have d: "distinct (map tx_Sequence txs)" and m: "m = map_of (map (\<lambda>t. (tx_Sequence t, t)) txs)"
    by auto
  from assms(2) have "(n, t) \<in> set (map (\<lambda>t. (tx_Sequence t, t)) txs)"
    unfolding m by (rule map_of_SomeD)
  then have t: "t \<in> set txs" "tx_Sequence t = n" by auto
  moreover have "u = t" if "u \<in> set txs" "tx_Sequence u = n" for u
    using d t that by (metis distinct_map inj_onD)
  ultimately show ?thesis by blast
qed

end
