(* ===== verification/Nonce_Binder.thy ===== *)
theory Nonce_Binder
  imports Sample_Lib
begin

text \<open>
  \<open>internal/attestation/pmwnonce/binder.go\<close>: the binding of a payment's XRP sequence to
  \<open>initialNonce + paymentId - 1\<close>, over a bounded LRU cache of the initial nonces.

  The Go structure is a doubly linked list of elements and a map from keys to elements.
  An element is an address in a store (\<open>b_heap\<close>), so that the in-place update of an entry
  through the map is an update of the store that the list sees. \<open>b_ll\<close> is the list, front
  (most recently used) first. \<open>content\<close> reads the structure as an association list, the
  abstract LRU; the locale \<open>lru_cache\<close> is the interface the binder relies on.

  The RPC \<open>GetInitialNonce\<close> is a parameter that may answer differently at each call; it
  takes and returns a state \<open>'w\<close> of the outside world.
\<close>

section \<open>The LRU structure\<close>

definition maxInitialNonceCacheEntries :: nat where
  "maxInitialNonceCacheEntries = 100000"

record cacheEntry =
  ce_key :: string
  ce_nonce :: u64

text \<open>\<open>b_client\<close> is \<open>None\<close> for a binder built without a connection, else whether it is open.\<close>

record Binder =
  b_ll :: "nat list"
  b_heap :: "nat \<Rightarrow> cacheEntry"
  b_cache :: "string \<rightharpoonup> nat"
  b_next :: nat
  b_client :: "bool option"

definition NewBinder :: Binder where
  "NewBinder =
     \<lparr>b_ll = [], b_heap = (\<lambda>_. \<lparr>ce_key = [], ce_nonce = 0\<rparr>), b_cache = Map.empty, b_next = 0,
      b_client = None\<rparr>"

definition binder_Close :: "Binder \<Rightarrow> Binder" where
  "binder_Close b = (case b_client b of None \<Rightarrow> b | Some _ \<Rightarrow> b\<lparr>b_client := Some False\<rparr>)"

text \<open>
  \<open>ethclient.Dial\<close> and \<open>teepayments.NewTeePaymentsCaller\<close> are parameters; the boolean is
  whether a connection was opened that is not closed again.
\<close>

definition NewOnChainBinder :: "unit result \<Rightarrow> unit result \<Rightarrow> Binder result \<times> bool" where
  "NewOnChainBinder dial newCaller =
     (case dial of
        Inl err \<Rightarrow> (Inl (wrap1 err), False)
      | Inr _ \<Rightarrow> (case newCaller of
                     Inl err \<Rightarrow> (Inl (wrap1 err), False)
                   | Inr _ \<Rightarrow> (Inr (NewBinder\<lparr>b_client := Some True\<rparr>), True)))"

definition MoveToFront :: "nat \<Rightarrow> nat list \<Rightarrow> nat list" where
  "MoveToFront el ll = el # remove1 el ll"

definition cachedNonce :: "string \<Rightarrow> Binder \<Rightarrow> u64 option \<times> Binder" where
  "cachedNonce key b =
     (case b_cache b key of
        None \<Rightarrow> (None, b)
      | Some el \<Rightarrow> (Some (ce_nonce (b_heap b el)), b\<lparr>b_ll := MoveToFront el (b_ll b)\<rparr>))"

text \<open>\<open>b.cache[key] = b.ll.PushFront(&cacheEntry{...})\<close>, and the removal of \<open>b.ll.Back()\<close>.\<close>

definition pushEntry :: "string \<Rightarrow> u64 \<Rightarrow> Binder \<Rightarrow> Binder" where
  "pushEntry key nonce b =
     (let el = b_next b
      in b\<lparr>b_heap := (b_heap b)(el := \<lparr>ce_key = key, ce_nonce = nonce\<rparr>),
           b_ll := el # b_ll b,
           b_cache := (b_cache b)(key \<mapsto> el),
           b_next := Suc el\<rparr>)"

definition evictOldest :: "Binder \<Rightarrow> Binder" where
  "evictOldest b =
     (let oldest = last (b_ll b)
      in b\<lparr>b_ll := remove1 oldest (b_ll b),
           b_cache := (b_cache b)(ce_key (b_heap b oldest) := None)\<rparr>)"

definition storeNonce :: "string \<Rightarrow> u64 \<Rightarrow> Binder \<Rightarrow> Binder" where
  "storeNonce key nonce b =
     (case b_cache b key of
        Some el \<Rightarrow>
          b\<lparr>b_heap := (b_heap b)(el := (b_heap b el)\<lparr>ce_nonce := nonce\<rparr>),
            b_ll := MoveToFront el (b_ll b)\<rparr>
      | None \<Rightarrow>
          (let b' = pushEntry key nonce b
           in if length (b_ll b') > maxInitialNonceCacheEntries then evictOldest b' else b'))"

section \<open>The abstract cache\<close>

definition content :: "Binder \<Rightarrow> (string \<times> u64) list" where
  "content b = map (\<lambda>el. (ce_key (b_heap b el), ce_nonce (b_heap b el))) (b_ll b)"

definition lru_get :: "'k \<Rightarrow> ('k \<times> 'v) list \<Rightarrow> 'v option \<times> ('k \<times> 'v) list" where
  "lru_get k xs =
     (case map_of xs k of
        None \<Rightarrow> (None, xs)
      | Some v \<Rightarrow> (Some v, (k, v) # filter (\<lambda>p. fst p \<noteq> k) xs))"

definition lru_put :: "nat \<Rightarrow> 'k \<Rightarrow> 'v \<Rightarrow> ('k \<times> 'v) list \<Rightarrow> ('k \<times> 'v) list" where
  "lru_put cap k v xs = take cap ((k, v) # filter (\<lambda>p. fst p \<noteq> k) xs)"

definition binder_wf :: "Binder \<Rightarrow> bool" where
  "binder_wf b \<longleftrightarrow>
     distinct (b_ll b) \<and>
     (\<forall>el \<in> set (b_ll b). el < b_next b) \<and>
     (\<forall>k el. b_cache b k = Some el \<longleftrightarrow> el \<in> set (b_ll b) \<and> ce_key (b_heap b el) = k)"

definition binder_inv :: "Binder \<Rightarrow> bool" where
  "binder_inv b \<longleftrightarrow> binder_wf b \<and> length (b_ll b) \<le> maxInitialNonceCacheEntries"

text \<open>The interface of an LRU cache, and what a client may conclude about a coherent one.\<close>

locale lru_cache =
  fixes get :: "'k \<Rightarrow> 'c \<Rightarrow> 'v option \<times> 'c"
    and put :: "'k \<Rightarrow> 'v \<Rightarrow> 'c \<Rightarrow> 'c"
    and contents :: "'c \<Rightarrow> ('k \<times> 'v) list"
    and invar :: "'c \<Rightarrow> bool"
    and cap :: nat
  assumes get_fst: "invar c \<Longrightarrow> fst (get k c) = map_of (contents c) k"
    and get_contents: "invar c \<Longrightarrow> contents (snd (get k c)) = snd (lru_get k (contents c))"
    and put_contents: "invar c \<Longrightarrow> contents (put k v c) = lru_put cap k v (contents c)"
    and get_invar: "invar c \<Longrightarrow> invar (snd (get k c))"
    and put_invar: "invar c \<Longrightarrow> invar (put k v c)"
    and keys_distinct: "invar c \<Longrightarrow> distinct (map fst (contents c))"
    and bounded: "invar c \<Longrightarrow> length (contents c) \<le> cap"
begin

definition coherent :: "('k \<Rightarrow> 'v \<Rightarrow> bool) \<Rightarrow> 'c \<Rightarrow> bool" where
  "coherent R c \<longleftrightarrow> (\<forall>(k, v) \<in> set (contents c). R k v)"

lemma get_set: "invar c \<Longrightarrow> set (contents (snd (get k c))) = set (contents c)"
proof -
  assume inv: "invar c"
  show ?thesis
  proof (cases "map_of (contents c) k")
    case None
    with inv show ?thesis by (simp add: get_contents lru_get_def)
  next
    case (Some v)
    then have mem: "(k, v) \<in> set (contents c)" by (rule map_of_SomeD)
    have uniq: "w = v" if "(k, w) \<in> set (contents c)" for w
    proof -
      have "map_of (contents c) k = Some w"
        using that keys_distinct [OF inv] by (simp add: map_of_eq_Some_iff)
      with Some show ?thesis by simp
    qed
    have "set (contents (snd (get k c))) = insert (k, v) {p \<in> set (contents c). fst p \<noteq> k}"
      using Some by (simp add: get_contents [OF inv] lru_get_def)
    also have "\<dots> = set (contents c)"
    proof (rule set_eqI)
      fix p
      show "p \<in> insert (k, v) {p \<in> set (contents c). fst p \<noteq> k} \<longleftrightarrow> p \<in> set (contents c)"
        using mem uniq [of "snd p"] by (cases p) auto
    qed
    finally show ?thesis .
  qed
qed

lemma get_coherent: "invar c \<Longrightarrow> coherent R c \<Longrightarrow> coherent R (snd (get k c))"
  by (simp add: coherent_def get_set)

lemma get_hit: "invar c \<Longrightarrow> coherent R c \<Longrightarrow> fst (get k c) = Some v \<Longrightarrow> R k v"
  using map_of_SomeD [of "contents c" k v] by (force simp: get_fst coherent_def)

lemma put_coherent: "invar c \<Longrightarrow> coherent R c \<Longrightarrow> R k v \<Longrightarrow> coherent R (put k v c)"
proof -
  assume inv: "invar c" and coh: "coherent R c" and r: "R k v"
  have "set (contents (put k v c)) \<subseteq> set ((k, v) # filter (\<lambda>p. fst p \<noteq> k) (contents c))"
    unfolding put_contents [OF inv] lru_put_def by (rule set_take_subset)
  with coh r show ?thesis unfolding coherent_def by auto
qed

lemma get_after_put: "invar c \<Longrightarrow> 0 < cap \<Longrightarrow> fst (get k (put k v c)) = Some v"
  by (cases cap) (simp_all add: get_fst put_invar put_contents lru_put_def)

text \<open>
  A store evicts at most the entry that was used least recently, and nothing while there
  is room.
\<close>

lemma put_keeps:
  assumes "invar c" and "j \<noteq> k" and "length (contents c) < cap"
  shows "fst (get j (put k v c)) = fst (get j c)"
proof -
  have "length (filter (\<lambda>p. fst p \<noteq> k) (contents c)) < cap"
    by (rule le_less_trans [OF length_filter_le assms(3)])
  then have "lru_put cap k v (contents c) = (k, v) # filter (\<lambda>p. fst p \<noteq> k) (contents c)"
    by (simp add: lru_put_def)
  moreover have "map_of (filter (\<lambda>p. fst p \<noteq> k) xs) j = map_of xs j" for xs :: "('k \<times> 'v) list"
    using assms(2) by (induction xs) auto
  ultimately show ?thesis
    using assms by (simp add: get_fst put_invar put_contents)
qed

end

section \<open>The Go structure implements it\<close>

lemma binder_wfD:
  assumes "binder_wf b"
  shows "distinct (b_ll b)" "\<And>el. el \<in> set (b_ll b) \<Longrightarrow> el < b_next b"
    "\<And>k el. b_cache b k = Some el \<longleftrightarrow> el \<in> set (b_ll b) \<and> ce_key (b_heap b el) = k"
  using assms by (auto simp: binder_wf_def)

lemma binder_inv_wf: "binder_inv b \<Longrightarrow> binder_wf b"
  by (simp add: binder_inv_def)

lemma length_content [simp]: "length (content b) = length (b_ll b)"
  by (simp add: content_def)

lemma binder_keys_inj: "binder_wf b \<Longrightarrow> inj_on (\<lambda>el. ce_key (b_heap b el)) (set (b_ll b))"
  by (intro inj_onI) (metis binder_wfD(3) option.inject)

lemma content_keys_distinct: "binder_wf b \<Longrightarrow> distinct (map fst (content b))"
  using binder_keys_inj [of b] binder_wfD(1) [of b]
  by (simp add: content_def distinct_map comp_def)

lemma map_of_content:
  assumes "binder_wf b"
  shows "map_of (content b) k = map_option (\<lambda>el. ce_nonce (b_heap b el)) (b_cache b k)"
proof (cases "b_cache b k")
  case None
  then have "k \<notin> fst ` set (content b)"
    using binder_wfD(3) [OF assms, of k] by (force simp: content_def)
  with None show ?thesis by (simp add: map_of_eq_None_iff)
next
  case (Some el)
  then have "(k, ce_nonce (b_heap b el)) \<in> set (content b)"
    using binder_wfD(3) [OF assms] by (auto simp: content_def)
  with Some content_keys_distinct [OF assms] show ?thesis
    by (simp add: map_of_eq_Some_iff)
qed

lemma content_without:
  assumes "binder_wf b" and "b_cache b k = Some el"
  shows "filter (\<lambda>p. fst p \<noteq> k) (content b) =
    map (\<lambda>el. (ce_key (b_heap b el), ce_nonce (b_heap b el))) (remove1 el (b_ll b))"
proof -
  have el: "el \<in> set (b_ll b)" "ce_key (b_heap b el) = k"
    using binder_wfD(3) [OF assms(1)] assms(2) by auto
  have "filter (\<lambda>p. fst p \<noteq> k) (content b) =
      map (\<lambda>el. (ce_key (b_heap b el), ce_nonce (b_heap b el)))
        (filter (\<lambda>x. ce_key (b_heap b x) \<noteq> k) (b_ll b))"
    by (simp add: content_def filter_map comp_def)
  also have "filter (\<lambda>x. ce_key (b_heap b x) \<noteq> k) (b_ll b) = filter (\<lambda>x. x \<noteq> el) (b_ll b)"
    using el binder_keys_inj [OF assms(1)] by (intro filter_cong) (auto dest: inj_onD)
  also have "\<dots> = removeAll el (b_ll b)"
    unfolding removeAll_filter_not_eq by (rule filter_cong) auto
  also have "\<dots> = remove1 el (b_ll b)"
    using binder_wfD(1) [OF assms(1)] by (simp add: distinct_remove1_removeAll)
  finally show ?thesis .
qed

lemma NewBinder_inv: "binder_inv NewBinder"
  by (simp add: binder_inv_def binder_wf_def NewBinder_def)

lemma MoveToFront_facts:
  assumes "distinct ll" and "el \<in> set ll"
  shows "set (MoveToFront el ll) = set ll" "distinct (MoveToFront el ll)"
    "length (MoveToFront el ll) = length ll"
  using assms length_pos_if_in_set [of el ll]
  by (auto simp: MoveToFront_def length_remove1)

lemma remove1_last: "distinct xs \<Longrightarrow> xs \<noteq> [] \<Longrightarrow> remove1 (last xs) xs = butlast xs"
proof (induction xs rule: rev_induct)
  case (snoc x xs)
  then show ?case by (simp add: remove1_append)
qed simp

lemma set_butlast_distinct: "distinct xs \<Longrightarrow> xs \<noteq> [] \<Longrightarrow> set (butlast xs) = set xs - {last xs}"
  using remove1_last [of xs] set_remove1_eq [of xs "last xs"] by simp

text \<open>A lookup.\<close>

lemma cachedNonce_inv: "binder_inv b \<Longrightarrow> binder_inv (snd (cachedNonce k b))"
proof (cases "b_cache b k")
  case None
  then show "binder_inv b \<Longrightarrow> ?thesis" by (simp add: cachedNonce_def)
next
  case (Some el)
  assume inv: "binder_inv b"
  then have wf: "binder_wf b" by (rule binder_inv_wf)
  have "el \<in> set (b_ll b)" using Some binder_wfD(3) [OF wf] by auto
  note M = MoveToFront_facts [OF binder_wfD(1) [OF wf] this]
  have "snd (cachedNonce k b) = b\<lparr>b_ll := MoveToFront el (b_ll b)\<rparr>"
    using Some by (simp add: cachedNonce_def)
  then show ?thesis using inv by (simp add: binder_inv_def binder_wf_def M)
qed

lemma cachedNonce_fst: "binder_wf b \<Longrightarrow> fst (cachedNonce k b) = map_of (content b) k"
  by (simp add: map_of_content cachedNonce_def split: option.splits)

lemma cachedNonce_content:
  assumes "binder_wf b"
  shows "content (snd (cachedNonce k b)) = snd (lru_get k (content b))"
proof (cases "b_cache b k")
  case None
  with assms show ?thesis by (simp add: cachedNonce_def lru_get_def map_of_content)
next
  case (Some el)
  then have "ce_key (b_heap b el) = k" using binder_wfD(3) [OF assms] by auto
  with Some assms content_without [OF assms Some] show ?thesis
    by (simp add: cachedNonce_def lru_get_def map_of_content) (simp add: content_def MoveToFront_def)
qed

text \<open>A store that refreshes an entry.\<close>

lemma storeNonce_hit:
  assumes inv: "binder_inv b" and el: "b_cache b k = Some el"
  shows "binder_inv (storeNonce k n b)"
    and "content (storeNonce k n b) = lru_put maxInitialNonceCacheEntries k n (content b)"
proof -
  let ?h = "(b_heap b)(el := (b_heap b el)\<lparr>ce_nonce := n\<rparr>)"
  note wf = binder_inv_wf [OF inv]
  have mem: "el \<in> set (b_ll b)" and key: "ce_key (b_heap b el) = k"
    using binder_wfD(3) [OF wf] el by auto
  note M = MoveToFront_facts [OF binder_wfD(1) [OF wf] mem]
  have st: "storeNonce k n b = b\<lparr>b_heap := ?h, b_ll := MoveToFront el (b_ll b)\<rparr>"
    using el by (simp add: storeNonce_def)
  have keys: "ce_key (?h x) = ce_key (b_heap b x)" for x by simp
  show 1: "binder_inv (storeNonce k n b)"
    using inv M unfolding st binder_inv_def binder_wf_def by (simp del: fun_upd_apply add: keys)
  have "el \<notin> set (remove1 el (b_ll b))"
    using binder_wfD(1) [OF wf] by simp
  then have "content (storeNonce k n b) = (k, n) # filter (\<lambda>p. fst p \<noteq> k) (content b)"
    unfolding content_without [OF wf el] st using key by (auto simp: content_def MoveToFront_def)
  moreover have "length (content (storeNonce k n b)) \<le> maxInitialNonceCacheEntries"
    using 1 by (simp add: binder_inv_def)
  ultimately show "content (storeNonce k n b) = lru_put maxInitialNonceCacheEntries k n (content b)"
    by (simp add: lru_put_def)
qed

text \<open>A store that inserts, and the eviction it may cause.\<close>

lemma pushEntry_wf:
  assumes wf: "binder_wf b" and miss: "b_cache b k = None"
  shows "binder_wf (pushEntry k n b)" and "content (pushEntry k n b) = (k, n) # content b"
    and "filter (\<lambda>p. fst p \<noteq> k) (content b) = content b"
proof -
  note I = binder_wfD [OF wf]
  have fresh: "b_next b \<notin> set (b_ll b)" using I(2) by blast
  have nokey: "ce_key (b_heap b x) \<noteq> k" if "x \<in> set (b_ll b)" for x
    using that I(3) [of k x] miss by auto
  show "filter (\<lambda>p. fst p \<noteq> k) (content b) = content b"
    unfolding content_def using nokey by (auto intro: filter_True)
  show "content (pushEntry k n b) = (k, n) # content b"
    using fresh by (auto simp: content_def pushEntry_def Let_def)
  have "b_cache (pushEntry k n b) j = Some x \<longleftrightarrow>
      x \<in> set (b_ll (pushEntry k n b)) \<and> ce_key (b_heap (pushEntry k n b) x) = j" for j x
    using I(3) [of j x] fresh nokey [of x] by (auto simp: pushEntry_def Let_def)
  moreover have "distinct (b_ll (pushEntry k n b))"
    "\<forall>el \<in> set (b_ll (pushEntry k n b)). el < b_next (pushEntry k n b)"
    using I(1,2) fresh by (auto simp: pushEntry_def Let_def less_Suc_eq)
  ultimately show "binder_wf (pushEntry k n b)" unfolding binder_wf_def by blast
qed

lemma evictOldest_wf:
  assumes wf: "binder_wf b" and ne: "b_ll b \<noteq> []"
  shows "binder_wf (evictOldest b)" and "content (evictOldest b) = butlast (content b)"
proof -
  note I = binder_wfD [OF wf]
  let ?o = "last (b_ll b)"
  have ev: "evictOldest b =
      b\<lparr>b_ll := butlast (b_ll b), b_cache := (b_cache b)(ce_key (b_heap b ?o) := None)\<rparr>"
    using remove1_last [OF I(1) ne] by (simp add: evictOldest_def Let_def)
  show "content (evictOldest b) = butlast (content b)"
    by (simp add: ev content_def map_butlast)
  have set': "set (butlast (b_ll b)) = set (b_ll b) - {?o}"
    by (rule set_butlast_distinct [OF I(1) ne])
  have key_o: "ce_key (b_heap b x) = ce_key (b_heap b ?o) \<longleftrightarrow> x = ?o" if "x \<in> set (b_ll b)" for x
    using that ne binder_keys_inj [OF wf] by (auto dest: inj_onD)
  have "b_cache (evictOldest b) j = Some x \<longleftrightarrow>
      x \<in> set (b_ll (evictOldest b)) \<and> ce_key (b_heap (evictOldest b) x) = j" for j x
    using I(3) [of j x] key_o [of x] by (auto simp: ev set')
  then show "binder_wf (evictOldest b)"
    unfolding binder_wf_def using I(1,2) by (auto simp: ev set' distinct_butlast)
qed

lemma storeNonce_miss:
  assumes inv: "binder_inv b" and miss: "b_cache b k = None"
  shows "binder_inv (storeNonce k n b)"
    and "content (storeNonce k n b) = lru_put maxInitialNonceCacheEntries k n (content b)"
proof -
  let ?M = maxInitialNonceCacheEntries and ?p = "pushEntry k n b"
  note P = pushEntry_wf [OF binder_inv_wf [OF inv] miss]
  have len: "length (b_ll ?p) = Suc (length (b_ll b))" "length (b_ll b) \<le> ?M"
    using inv by (simp_all add: pushEntry_def Let_def binder_inv_def)
  have ne: "b_ll ?p \<noteq> []" by (simp add: pushEntry_def Let_def)
  note E = evictOldest_wf [OF P(1) ne]
  have st: "storeNonce k n b = (if Suc (length (b_ll b)) > ?M then evictOldest ?p else ?p)"
    using miss len by (simp add: storeNonce_def Let_def)
  have lenE: "length (b_ll (evictOldest ?p)) = length (b_ll b)"
    using arg_cong [OF E(2), of length] len(1) by simp
  show "binder_inv (storeNonce k n b)"
    using len lenE E(1) P(1) by (auto simp: st binder_inv_def)
  show "content (storeNonce k n b) = lru_put ?M k n (content b)"
    using len by (cases "length (b_ll b) = ?M")
      (auto simp: st E(2) P(2,3) lru_put_def butlast_conv_take not_less)
qed

lemma storeNonce_inv: "binder_inv b \<Longrightarrow> binder_inv (storeNonce k n b)"
  by (cases "b_cache b k") (auto intro: storeNonce_miss storeNonce_hit)

lemma storeNonce_content:
  "binder_inv b \<Longrightarrow> content (storeNonce k n b) = lru_put maxInitialNonceCacheEntries k n (content b)"
  by (cases "b_cache b k") (auto intro: storeNonce_miss storeNonce_hit)

interpretation nonces: lru_cache cachedNonce storeNonce content binder_inv maxInitialNonceCacheEntries
  by unfold_locales
     (auto simp: cachedNonce_fst cachedNonce_content storeNonce_content cachedNonce_inv storeNonce_inv
        content_keys_distinct binder_inv_wf, simp add: binder_inv_def)

section \<open>The sequence check\<close>

record 'w bstate =
  bs_binder :: Binder
  bs_world :: 'w

type_synonym 'w initial_nonce_caller = "hash \<Rightarrow> string \<Rightarrow> 'w \<Rightarrow> u64 result \<times> 'w"

definition nonceKey :: "tee_lib \<Rightarrow> hash \<Rightarrow> string \<Rightarrow> string" where
  "nonceKey lib sourceID account = Hash_Hex lib sourceID @ ''|'' @ account"

definition initialNonce ::
  "tee_lib \<Rightarrow> 'w initial_nonce_caller \<Rightarrow> hash \<Rightarrow> string \<Rightarrow> ('w bstate, goerr, u64) io" where
  "initialNonce lib caller sourceID account s =
     (let key = nonceKey lib sourceID account;
          (hit, b) = cachedNonce key (bs_binder s)
      in case hit of
           Some v \<Rightarrow> (Inr v, s\<lparr>bs_binder := b\<rparr>)
         | None \<Rightarrow>
             (case caller sourceID account (bs_world s) of
                (Inl err, w) \<Rightarrow> (Inl (tag ErrDatabase), s\<lparr>bs_binder := b, bs_world := w\<rparr>)
              | (Inr n, w) \<Rightarrow> (Inr n, s\<lparr>bs_binder := storeNonce key n b, bs_world := w\<rparr>)))"

text \<open>The comparison with \<open>initialNonce + paymentId - 1\<close>, guarded against overflow.\<close>

definition checkSequence :: "u64 \<Rightarrow> u64 \<Rightarrow> u64 \<Rightarrow> unit result" where
  "checkSequence initial paymentId gotSequence =
     (if initial > math_MaxUint64 - (paymentId - 1) then Inl (tag ErrDatabase)
      else let want = initial + paymentId - 1
           in if gotSequence \<noteq> want then Inl (tag ErrDatabase) else Inr ())"

definition VerifySequence ::
  "tee_lib \<Rightarrow> 'w initial_nonce_caller \<Rightarrow> hash \<Rightarrow> string \<Rightarrow> u64 \<Rightarrow> u64 \<Rightarrow> ('w bstate, goerr, unit) io" where
  "VerifySequence lib caller sourceID account paymentId gotSequence =
     (if paymentId = 0 then io_lift (Inl (tag ErrDatabase))
      else io_bind (initialNonce lib caller sourceID account) (\<lambda>initial.
           io_lift (checkSequence initial paymentId gotSequence)))"

text \<open>
  What is relied on, beside \<open>hex_ok\<close>: on chain,
  \<open>getInitialNonce\<close> is a constant of the account, \<open>truth\<close>.
\<close>

definition caller_reads :: "(hash \<Rightarrow> string \<Rightarrow> u64) \<Rightarrow> 'w initial_nonce_caller \<Rightarrow> bool" where
  "caller_reads truth caller \<longleftrightarrow>
     (\<forall>src acc w n w'. caller src acc w = (Inr n, w') \<longrightarrow> n = truth src acc)"

text \<open>Every cached nonce is the on-chain one.\<close>

definition nonce_of :: "tee_lib \<Rightarrow> (hash \<Rightarrow> string \<Rightarrow> u64) \<Rightarrow> string \<Rightarrow> u64 \<Rightarrow> bool" where
  "nonce_of lib truth k v \<longleftrightarrow> (\<forall>src acc. k = nonceKey lib src acc \<longrightarrow> v = truth src acc)"

definition binder_ok :: "tee_lib \<Rightarrow> (hash \<Rightarrow> string \<Rightarrow> u64) \<Rightarrow> Binder \<Rightarrow> bool" where
  "binder_ok lib truth b \<longleftrightarrow>
     binder_inv b \<and> (\<forall>(k, v) \<in> set (content b). nonce_of lib truth k v)"

lemma nonceKey_inj:
  "hex_ok lib \<Longrightarrow> nonceKey lib src acc = nonceKey lib src' acc' \<longleftrightarrow> src = src' \<and> acc = acc'"
  by (auto simp: nonceKey_def hex_ok_def dest: injD)

lemma nonce_of_truth: "hex_ok lib \<Longrightarrow> nonce_of lib truth (nonceKey lib src acc) (truth src acc)"
  by (auto simp: nonce_of_def nonceKey_inj)

lemma nonce_ofD: "nonce_of lib truth (nonceKey lib src acc) v \<Longrightarrow> v = truth src acc"
  by (simp add: nonce_of_def)

lemma binder_ok_iff: "binder_ok lib truth b \<longleftrightarrow> binder_inv b \<and> nonces.coherent (nonce_of lib truth) b"
  by (simp add: binder_ok_def nonces.coherent_def)

lemma binder_ok_New: "binder_ok lib truth NewBinder"
  by (simp add: binder_ok_def NewBinder_inv content_def) (simp add: NewBinder_def)

lemma binder_ok_cached:
  "binder_ok lib truth b \<Longrightarrow> cachedNonce k b = (r, b') \<Longrightarrow> binder_ok lib truth b'"
  using cachedNonce_inv [of b k] nonces.get_coherent [of b "nonce_of lib truth" k]
  by (auto simp: binder_ok_iff)

lemma binder_ok_hit:
  "binder_ok lib truth b \<Longrightarrow> cachedNonce (nonceKey lib src acc) b = (Some v, b') \<Longrightarrow> v = truth src acc"
  using nonces.get_hit [of b "nonce_of lib truth" "nonceKey lib src acc" v]
  by (auto simp: binder_ok_iff intro: nonce_ofD)

lemma binder_ok_store:
  "hex_ok lib \<Longrightarrow> binder_ok lib truth b \<Longrightarrow>
     binder_ok lib truth (storeNonce (nonceKey lib src acc) (truth src acc) b)"
  using nonces.put_coherent [of b "nonce_of lib truth"] nonce_of_truth [of lib truth src acc]
  by (simp add: binder_ok_iff storeNonce_inv)

lemma initialNonce_ok:
  assumes "hex_ok lib" "caller_reads truth caller" "binder_ok lib truth (bs_binder s)"
    and "initialNonce lib caller src acc s = (r, s')"
  shows "binder_ok lib truth (bs_binder s')"
    and "r = Inr n \<Longrightarrow> n = truth src acc" and "r = Inl e \<Longrightarrow> e = tag ErrDatabase"
proof -
  obtain hit b where c: "cachedNonce (nonceKey lib src acc) (bs_binder s) = (hit, b)"
    by (cases "cachedNonce (nonceKey lib src acc) (bs_binder s)") blast
  obtain a w where w: "caller src acc (bs_world s) = (a, w)"
    by (cases "caller src acc (bs_world s)") blast
  have b: "binder_ok lib truth b" by (rule binder_ok_cached [OF assms(3) c])
  have a: "m = truth src acc" if "a = Inr m" for m
    using assms(2) w that unfolding caller_reads_def by blast
  have h: "v = truth src acc" if "hit = Some v" for v
    using binder_ok_hit [OF assms(3)] c that by blast
  show "binder_ok lib truth (bs_binder s')"
    using assms(4) b binder_ok_store [OF assms(1) b] a
    by (auto simp: initialNonce_def c w split: option.splits sum.splits)
  show "r = Inr n \<Longrightarrow> n = truth src acc" and "r = Inl e \<Longrightarrow> e = tag ErrDatabase"
    using assms(4) a h by (auto simp: initialNonce_def c w split: option.splits sum.splits)
qed

lemma checkSequence_ok_iff:
  assumes "pid \<noteq> 0"
  shows "checkSequence initial pid got = Inr () \<longleftrightarrow> unat got = unat initial + unat pid - 1"
proof -
  let ?g = "initial > - 1 - (pid - 1)"
  have pos: "0 < unat pid" using assms by (simp add: unat_pos_iff)
  have eq: "initial + pid - 1 = initial + (pid - 1)" by simp
  show ?thesis
  proof (cases ?g)
    case True
    then have "2 ^ 64 \<le> unat initial + unat (pid - 1)"
      unfolding add_guard_iff by simp
    moreover have "unat got < 2 ^ 64" using unsigned_less [of got] by simp
    ultimately have "unat got \<noteq> unat initial + unat pid - 1"
      using assms pos by (simp add: unat_sub_one)
    with True show ?thesis by (simp add: checkSequence_def)
  next
    case False
    then have "unat (initial + (pid - 1)) = unat initial + unat pid - 1"
      using assms pos by (subst add_guard_unat) (simp_all add: unat_sub_one)
    then have "got = initial + (pid - 1) \<longleftrightarrow> unat got = unat initial + unat pid - 1"
      by (metis word_unat_eq_iff)
    with False show ?thesis by (simp add: checkSequence_def eq Let_def)
  qed
qed

lemma checkSequence_InlD: "checkSequence initial pid got = Inl e \<Longrightarrow> e = tag ErrDatabase"
  by (auto simp: checkSequence_def Let_def split: if_splits)

section \<open>The SequenceVerifier interface\<close>

text \<open>
  \<open>SequenceVerifier\<close> is what the payment and fee verifiers hold: an accepted sequence is
  the one the contract assigns to the payment id, a refusal is a database-class error, and
  the state stays usable for the next call.
\<close>

locale sequence_verifier =
  fixes verify :: "hash \<Rightarrow> string \<Rightarrow> u64 \<Rightarrow> u64 \<Rightarrow> ('s, goerr, unit) io"
    and invar :: "'s \<Rightarrow> bool"
    and truth :: "hash \<Rightarrow> string \<Rightarrow> u64"
  assumes verify_invar: "invar s \<Longrightarrow> verify src acc pid got s = (r, s') \<Longrightarrow> invar s'"
    and verify_sound: "invar s \<Longrightarrow> verify src acc pid got s = (Inr u, s') \<Longrightarrow>
          pid \<noteq> 0 \<and> unat got = unat (truth src acc) + unat pid - 1"
    and verify_error: "invar s \<Longrightarrow> verify src acc pid got s = (Inl e, s') \<Longrightarrow> e = tag ErrDatabase"
begin

text \<open>Within one account, an accepted sequence number belongs to one payment only.\<close>

lemma payment_unique:
  assumes "invar s" and "verify src acc pid got s = (Inr u, s')"
    and "invar t" and "verify src acc pid' got t = (Inr u', t')"
  shows "pid = pid'"
proof -
  note 1 = verify_sound [OF assms(1,2)] and 2 = verify_sound [OF assms(3,4)]
  then have "0 < unat pid" "0 < unat pid'" by (simp_all add: unat_pos_iff)
  with 1 2 have "unat pid = unat pid'" by linarith
  then show ?thesis by (simp add: word_unat_eq_iff)
qed

lemma payment_order:
  assumes "invar s" and "verify src acc pid got s = (Inr u, s')"
    and "invar t" and "verify src acc pid' got' t = (Inr u', t')"
  shows "got < got' \<longleftrightarrow> pid < pid'"
proof -
  note 1 = verify_sound [OF assms(1,2)] and 2 = verify_sound [OF assms(3,4)]
  then have "0 < unat pid" "0 < unat pid'" by (simp_all add: unat_pos_iff)
  with 1 2 show ?thesis unfolding word_less_nat_alt by linarith
qed

end

definition binder_env ::
  "tee_lib \<Rightarrow> (hash \<Rightarrow> string \<Rightarrow> u64) \<Rightarrow> 'w initial_nonce_caller \<Rightarrow> 'w bstate \<Rightarrow> bool" where
  "binder_env lib truth caller s \<longleftrightarrow>
     hex_ok lib \<and> caller_reads truth caller \<and> binder_ok lib truth (bs_binder s)"

lemma VerifySequence_facts:
  assumes "binder_env lib truth caller s"
    and "VerifySequence lib caller src acc pid got s = (r, s')"
  shows "binder_env lib truth caller s'"
    and "r = Inr u \<Longrightarrow> pid \<noteq> 0 \<and> unat got = unat (truth src acc) + unat pid - 1"
    and "r = Inl e \<Longrightarrow> e = tag ErrDatabase"
proof -
  have env: "hex_ok lib" "caller_reads truth caller" "binder_ok lib truth (bs_binder s)"
    using assms(1) by (simp_all add: binder_env_def)
  obtain n t where i: "initialNonce lib caller src acc s = (n, t)"
    by (cases "initialNonce lib caller src acc s") blast
  note F = initialNonce_ok [OF env i]
  show "binder_env lib truth caller s'"
    using assms env F(1) by (cases n)
      (auto simp: VerifySequence_def io_simps i binder_env_def split: if_splits)
  show "r = Inr u \<Longrightarrow> pid \<noteq> 0 \<and> unat got = unat (truth src acc) + unat pid - 1"
    using assms(2) F(2) by (cases n)
      (auto simp: VerifySequence_def io_simps i checkSequence_ok_iff split: if_splits)
  show "r = Inl e \<Longrightarrow> e = tag ErrDatabase"
    using assms(2) F(3) by (cases n)
      (auto simp: VerifySequence_def io_simps i dest: checkSequence_InlD split: if_splits)
qed

interpretation onchain: sequence_verifier "VerifySequence lib caller" "binder_env lib truth caller" truth
  for lib caller truth
  by unfold_locales (auto dest: VerifySequence_facts)

text \<open>The RPC answers for one account.\<close>

definition caller_up :: "'w initial_nonce_caller \<Rightarrow> hash \<Rightarrow> string \<Rightarrow> bool" where
  "caller_up caller src acc \<longleftrightarrow> (\<forall>w. is_ok (fst (caller src acc w)))"

lemma initialNonce_answers:
  assumes "caller_up caller src acc"
  obtains n t where "initialNonce lib caller src acc s = (Inr n, t)"
proof -
  obtain hit b where c: "cachedNonce (nonceKey lib src acc) (bs_binder s) = (hit, b)"
    by (cases "cachedNonce (nonceKey lib src acc) (bs_binder s)") blast
  obtain a w where w: "caller src acc (bs_world s) = (a, w)"
    by (cases "caller src acc (bs_world s)") blast
  have "is_ok (fst (caller src acc (bs_world s)))" using assms unfolding caller_up_def by blast
  with w obtain n where "a = Inr n" by (auto simp: is_ok_iff)
  with that show ?thesis by (cases hit) (auto simp: initialNonce_def c w)
qed

lemma VerifySequence_accepts:
  assumes env: "binder_env lib truth caller s" and up: "caller_up caller src acc"
    and "pid \<noteq> 0" and "unat got = unat (truth src acc) + unat pid - 1"
  shows "fst (VerifySequence lib caller src acc pid got s) = Inr ()"
proof -
  obtain n t where i: "initialNonce lib caller src acc s = (Inr n, t)"
    using initialNonce_answers [OF up] by blast
  moreover from i env have "n = truth src acc"
    using initialNonce_ok(2) [OF _ _ _ i] by (auto simp: binder_env_def)
  ultimately show ?thesis
    using assms(3,4) by (simp add: VerifySequence_def io_simps i checkSequence_ok_iff)
qed

section \<open>Concurrent requests\<close>

text \<open>
  One binder serves every request. The mutex makes \<open>cachedNonce\<close> and \<open>storeNonce\<close> atomic
  and the RPC runs outside it, so between a miss and the store other requests may look up,
  store and evict. A request is a thread with a program counter; \<open>answers\<close> is the relation of what
  the RPC may return. \<open>binder_run\<close> interleaves the threads of a list.
\<close>

record request =
  rq_sourceID :: hash
  rq_account :: string
  rq_paymentId :: u64
  rq_gotSequence :: u64

datatype thread =
    Called request
  | Fetching request
  | Fetched request u64
  | Returned request "unit result"

abbreviation rq_key :: "tee_lib \<Rightarrow> request \<Rightarrow> string" where
  "rq_key lib q \<equiv> nonceKey lib (rq_sourceID q) (rq_account q)"

abbreviation rq_check :: "request \<Rightarrow> u64 \<Rightarrow> unit result" where
  "rq_check q n \<equiv> checkSequence n (rq_paymentId q) (rq_gotSequence q)"

inductive thread_step ::
  "tee_lib \<Rightarrow> (hash \<Rightarrow> string \<Rightarrow> u64 result \<Rightarrow> bool) \<Rightarrow> Binder \<Rightarrow> thread \<Rightarrow> Binder \<Rightarrow> thread \<Rightarrow> bool"
  for lib answers where
  ts_zero: "rq_paymentId q = 0 \<Longrightarrow>
     thread_step lib answers b (Called q) b (Returned q (Inl (tag ErrDatabase)))"
| ts_hit: "rq_paymentId q \<noteq> 0 \<Longrightarrow> cachedNonce (rq_key lib q) b = (Some n, b') \<Longrightarrow>
     thread_step lib answers b (Called q) b' (Returned q (rq_check q n))"
| ts_miss: "rq_paymentId q \<noteq> 0 \<Longrightarrow> cachedNonce (rq_key lib q) b = (None, b') \<Longrightarrow>
     thread_step lib answers b (Called q) b' (Fetching q)"
| ts_rpc: "answers (rq_sourceID q) (rq_account q) (Inr n) \<Longrightarrow>
     thread_step lib answers b (Fetching q) b (Fetched q n)"
| ts_rpc_err: "answers (rq_sourceID q) (rq_account q) (Inl e) \<Longrightarrow>
     thread_step lib answers b (Fetching q) b (Returned q (Inl (tag ErrDatabase)))"
| ts_store:
     "thread_step lib answers b (Fetched q n) (storeNonce (rq_key lib q) n b) (Returned q (rq_check q n))"

inductive_cases thread_stepE: "thread_step lib answers b th b' th'"

text \<open>
  A thread that runs alone, with the answer its caller gives, takes the steps of \<open>VerifySequence\<close>: it ends with the result and the binder of the
  sequential function.
\<close>

inductive thread_steps ::
  "tee_lib \<Rightarrow> (hash \<Rightarrow> string \<Rightarrow> u64 result \<Rightarrow> bool) \<Rightarrow> Binder \<Rightarrow> thread \<Rightarrow> Binder \<Rightarrow> thread \<Rightarrow> bool"
  for lib answers where
  steps_refl: "thread_steps lib answers b th b th"
| steps_step: "thread_step lib answers b th b' th' \<Longrightarrow> thread_steps lib answers b' th' b'' th'' \<Longrightarrow> thread_steps lib answers b th b'' th''"

lemma VerifySequence_steps:
  assumes "VerifySequence lib caller (rq_sourceID q) (rq_account q) (rq_paymentId q) (rq_gotSequence q) s = (r, s')"
  shows "thread_steps lib (\<lambda>src acc a. a = fst (caller src acc (bs_world s))) (bs_binder s) (Called q) (bs_binder s') (Returned q r)"
proof (cases "rq_paymentId q = 0")
  case True
  with assms have "r = Inl (tag ErrDatabase)" "s' = s" by (auto simp: VerifySequence_def)
  then show ?thesis by (simp add: steps_step [OF ts_zero [OF True] steps_refl])
next
  case False
  obtain hit b where h: "cachedNonce (rq_key lib q) (bs_binder s) = (hit, b)" by fastforce
  obtain a w where a: "caller (rq_sourceID q) (rq_account q) (bs_world s) = (a, w)" by fastforce
  show ?thesis
  proof (cases hit)
    case (Some n)
    with False h assms have "r = rq_check q n" "bs_binder s' = b"
      by (auto simp: VerifySequence_def initialNonce_def io_bind_def)
    then show ?thesis using steps_step [OF ts_hit [OF False h [unfolded Some]] steps_refl] by simp
  next
    case None
    note miss = ts_miss [OF False h [unfolded None]]
    show ?thesis
    proof (cases a)
      case (Inl e)
      with None False h a assms have "r = Inl (tag ErrDatabase)" "bs_binder s' = b"
        by (auto simp: VerifySequence_def initialNonce_def io_bind_def)
      with miss a Inl show ?thesis by (auto intro!: steps_step [OF miss] steps_step [OF ts_rpc_err] steps_refl)
    next
      case (Inr n)
      with None False h a assms have "r = rq_check q n" "bs_binder s' = storeNonce (rq_key lib q) n b"
        by (auto simp: VerifySequence_def initialNonce_def io_bind_def)
      with a Inr show ?thesis
        by (auto intro!: steps_step [OF miss] steps_step [OF ts_rpc [of _ _ n]] steps_step [OF ts_store] steps_refl)
    qed
  qed
qed

inductive binder_run ::
  "tee_lib \<Rightarrow> (hash \<Rightarrow> string \<Rightarrow> u64 result \<Rightarrow> bool) \<Rightarrow> request list \<Rightarrow> Binder \<Rightarrow> thread list \<Rightarrow> bool"
  for lib answers reqs where
  run_start: "binder_run lib answers reqs NewBinder (map Called reqs)"
| run_step: "binder_run lib answers reqs b ths \<Longrightarrow> i < length ths \<Longrightarrow>
     thread_step lib answers b (ths ! i) b' th' \<Longrightarrow> binder_run lib answers reqs b' (ths[i := th'])"

text \<open>The initial nonce of an account does not change: every answer is the same.\<close>

definition answers_truth ::
  "(hash \<Rightarrow> string \<Rightarrow> u64 result \<Rightarrow> bool) \<Rightarrow> (hash \<Rightarrow> string \<Rightarrow> u64) \<Rightarrow> bool" where
  "answers_truth answers truth \<longleftrightarrow> (\<forall>src acc n. answers src acc (Inr n) \<longrightarrow> n = truth src acc)"

text \<open>What holds of each thread at each program counter.\<close>

fun thread_ok :: "(hash \<Rightarrow> string \<Rightarrow> u64) \<Rightarrow> thread \<Rightarrow> bool" where
  "thread_ok truth (Called q) = True"
| "thread_ok truth (Fetching q) = (rq_paymentId q \<noteq> 0)"
| "thread_ok truth (Fetched q n) = (rq_paymentId q \<noteq> 0 \<and> n = truth (rq_sourceID q) (rq_account q))"
| "thread_ok truth (Returned q r) =
     (r = Inl (tag ErrDatabase) \<or>
      r = Inr () \<and> rq_paymentId q \<noteq> 0 \<and>
        unat (rq_gotSequence q) = unat (truth (rq_sourceID q) (rq_account q)) + unat (rq_paymentId q) - 1)"

fun thread_request :: "thread \<Rightarrow> request" where
  "thread_request (Called q) = q"
| "thread_request (Fetching q) = q"
| "thread_request (Fetched q n) = q"
| "thread_request (Returned q r) = q"

lemma thread_ok_check:
  "rq_paymentId q \<noteq> 0 \<Longrightarrow> n = truth (rq_sourceID q) (rq_account q) \<Longrightarrow>
     thread_ok truth (Returned q (rq_check q n))"
  using checkSequence_ok_iff [of "rq_paymentId q" n "rq_gotSequence q"]
  by (cases "rq_check q n") (auto dest: checkSequence_InlD)

lemma thread_step_ok:
  assumes "thread_step lib answers b th b' th'" and hex: "hex_ok lib"
    and ans: "answers_truth answers truth"
    and "binder_ok lib truth b" and "thread_ok truth th"
  shows "binder_ok lib truth b' \<and> thread_ok truth th' \<and> thread_request th' = thread_request th"
  using assms(1)
proof cases
  case (ts_hit q n)
  have "n = truth (rq_sourceID q) (rq_account q)" by (rule binder_ok_hit [OF assms(4) ts_hit(4)])
  with ts_hit binder_ok_cached [OF assms(4) ts_hit(4)] thread_ok_check show ?thesis
    by (simp del: thread_ok.simps(4))
next
  case (ts_store q n)
  with assms(4,5) binder_ok_store [OF hex assms(4)] thread_ok_check show ?thesis
    by (auto simp del: thread_ok.simps(4))
qed (use assms(4,5) ans in \<open>auto simp: answers_truth_def dest: binder_ok_cached\<close>)

lemma binder_run_ok:
  assumes "binder_run lib answers reqs b ths" and hex: "hex_ok lib"
    and ans: "answers_truth answers truth"
  shows "binder_ok lib truth b \<and> list_all (thread_ok truth) ths \<and> map thread_request ths = reqs"
  using assms(1)
proof induction
  case run_start
  show ?case by (simp add: binder_ok_New list_all_iff comp_def)
next
  case (run_step b ths i b' th')
  then have "thread_ok truth (ths ! i)" by (simp add: list_all_length)
  with run_step thread_step_ok [OF run_step.hyps(3) hex ans]
  have "binder_ok lib truth b' \<and> thread_ok truth th' \<and> thread_request th' = thread_request (ths ! i)"
    by blast
  moreover have "map thread_request (ths[i := th']) = map thread_request ths"
    if "thread_request th' = thread_request (ths ! i)"
    using that run_step.hyps(2) by (simp add: map_update list_update_same_conv)
  ultimately show ?case
    using run_step by (auto simp: list_all_length nth_list_update)
qed

section \<open>Properties\<close>

text \<open>A caller that always reads the initial nonce 100, for the witnesses.\<close>

definition sample_caller :: "nat initial_nonce_caller" where
  "sample_caller src acc w = (Inr 100, Suc w)"

definition sample_bstate :: "nat bstate" where
  "sample_bstate = \<lparr>bs_binder = NewBinder, bs_world = 0\<rparr>"

lemma sample_env: "binder_env sample_lib (\<lambda>_ _. 100) sample_caller sample_bstate"
  by (simp add: binder_env_def sample_hex_ok caller_reads_def sample_caller_def sample_bstate_def
      binder_ok_New)

text \<open>
  C3. The sequence check is exact. With the on-chain initial nonce of an account fixed and
  the RPC answering, \<open>VerifySequence\<close> accepts a payment exactly when its id is at least 1
  and its sequence is, as a natural number, \<open>initialNonce + paymentId - 1\<close>: neither the
  cache nor 64-bit wrap-around lets another sequence through.
\<close>

theorem verify_sequence_exact:
  assumes "binder_env lib truth caller s" and "caller_up caller src acc"
  shows "fst (VerifySequence lib caller src acc pid got s) = Inr () \<longleftrightarrow>
    pid \<noteq> 0 \<and> unat got = unat (truth src acc) + unat pid - 1"
proof
  assume "fst (VerifySequence lib caller src acc pid got s) = Inr ()"
  then obtain s' where "VerifySequence lib caller src acc pid got s = (Inr (), s')"
    by (metis prod.collapse)
  with assms(1) show "pid \<noteq> 0 \<and> unat got = unat (truth src acc) + unat pid - 1"
    by (rule onchain.verify_sound)
next
  assume "pid \<noteq> 0 \<and> unat got = unat (truth src acc) + unat pid - 1"
  then show "fst (VerifySequence lib caller src acc pid got s) = Inr ()"
    using VerifySequence_accepts [OF assms] by blast
qed

theorem verify_sequence_exact_witness:
  "fst (VerifySequence sample_lib sample_caller 7 ''rAcc'' 3 102 sample_bstate) = Inr () \<and>
   fst (VerifySequence sample_lib sample_caller 7 ''rAcc'' 3 103 sample_bstate) \<noteq> Inr ()"
  using verify_sequence_exact [OF sample_env, of 7 "''rAcc''" 3 102]
    verify_sequence_exact [OF sample_env, of 7 "''rAcc''" 3 103]
  by (simp add: caller_up_def sample_caller_def)

text \<open>
  C9. The pointer-based cache refines the abstract LRU list. On every well-formed binder a
  lookup and a store act on the content as \<open>lru_get\<close> and \<open>lru_put\<close> with the configured
  capacity do, and both keep the structure well-formed and within its bound.
\<close>

theorem binder_refines_lru:
  assumes "binder_inv b"
  shows "(fst (cachedNonce k b), content (snd (cachedNonce k b))) = lru_get k (content b) \<and>
    content (storeNonce k n b) = lru_put maxInitialNonceCacheEntries k n (content b) \<and>
    binder_inv (snd (cachedNonce k b)) \<and> binder_inv (storeNonce k n b) \<and>
    length (content (storeNonce k n b)) \<le> maxInitialNonceCacheEntries"
proof -
  have "fst (cachedNonce k b) = fst (lru_get k (content b))"
    by (simp add: nonces.get_fst [OF assms] lru_get_def split: option.splits)
  then show ?thesis
    using nonces.get_contents [OF assms] nonces.put_contents [OF assms] nonces.get_invar [OF assms]
      nonces.put_invar [OF assms] nonces.bounded [OF nonces.put_invar [OF assms]]
    by (metis prod.collapse)
qed

theorem binder_refines_lru_witness:
  "content (storeNonce ''a'' 5 NewBinder) = [(''a'', 5)]"
  using binder_refines_lru [OF NewBinder_inv, of "''a''" 5]
  by (simp add: lru_put_def maxInitialNonceCacheEntries_def content_def NewBinder_def)

text \<open>
  C8. Concurrency. In every interleaving of any number of requests on one binder, with the
  RPC outside the lock, a request that returned success carries the sequence the contract
  assigns to its payment, every other return is a database error, and the cache stays
  well-formed, bounded and free of wrong values.
\<close>

theorem concurrent_binding:
  assumes "binder_run lib answers reqs b ths" and "hex_ok lib" and "answers_truth answers truth"
    and "i < length ths" and "ths ! i = Returned q r"
  shows "q = reqs ! i \<and> binder_ok lib truth b \<and>
    (r = Inl (tag ErrDatabase) \<or>
     r = Inr () \<and> rq_paymentId q \<noteq> 0 \<and>
       unat (rq_gotSequence q) = unat (truth (rq_sourceID q) (rq_account q)) + unat (rq_paymentId q) - 1)"
proof -
  note R = binder_run_ok [OF assms(1-3)]
  then have "thread_ok truth (Returned q r)"
    using assms(4,5) by (metis list_all_length)
  moreover have "q = reqs ! i"
    using R assms(4,5) by (metis nth_map thread_request.simps(4))
  ultimately show ?thesis using R by simp
qed

lemma sample_run:
  "binder_run sample_lib (\<lambda>_ _ r. r = Inr 100)
     [\<lparr>rq_sourceID = 7, rq_account = ''r'', rq_paymentId = 1, rq_gotSequence = 100\<rparr>]
     (storeNonce (nonceKey sample_lib 7 ''r'') 100 NewBinder)
     [Returned \<lparr>rq_sourceID = 7, rq_account = ''r'', rq_paymentId = 1, rq_gotSequence = 100\<rparr> (Inr ())]"
proof -
  let ?q = "\<lparr>rq_sourceID = 7, rq_account = ''r'', rq_paymentId = 1, rq_gotSequence = 100\<rparr>"
  let ?run = "binder_run sample_lib (\<lambda>_ _ r. r = Inr 100) [?q]"
  let ?step = "thread_step sample_lib (\<lambda>_ _ r. r = Inr 100)"
  have "?run NewBinder [Called ?q]" using run_start [of _ _ "[?q]"] by simp
  moreover have "?step NewBinder (Called ?q) NewBinder (Fetching ?q)"
    by (rule ts_miss) (simp_all add: cachedNonce_def NewBinder_def)
  ultimately have "?run NewBinder [Fetching ?q]" using run_step [of _ _ _ _ _ 0] by fastforce
  moreover have "?step NewBinder (Fetching ?q) NewBinder (Fetched ?q 100)" by (rule ts_rpc) simp
  ultimately have "?run NewBinder [Fetched ?q 100]" using run_step [of _ _ _ _ _ 0] by fastforce
  moreover have "?step NewBinder (Fetched ?q 100) (storeNonce (nonceKey sample_lib 7 ''r'') 100 NewBinder)
      (Returned ?q (Inr ()))"
    using ts_store [of sample_lib _ NewBinder ?q 100] by (simp add: checkSequence_def)
  ultimately show ?thesis using run_step [of _ _ _ _ _ 0] by fastforce
qed

theorem concurrent_binding_witness:
  "binder_ok sample_lib (\<lambda>_ _. 100) (storeNonce (nonceKey sample_lib 7 ''r'') 100 NewBinder)"
  using concurrent_binding [OF sample_run sample_hex_ok, of "\<lambda>_ _. 100" 0]
  by (simp add: answers_truth_def)

text \<open>
  An accepted sequence identifies its payment. If two calls for the same account, in
  whatever states, accept the same ledger sequence, they are for the same payment id, and
  accepted sequences are ordered as their payment ids.
\<close>

lemma accepted_sequence_identifies_payment:
  assumes "binder_env lib truth caller s" and "VerifySequence lib caller src acc pid got s = (Inr u, s')"
    and "binder_env lib truth caller t" and "VerifySequence lib caller src acc pid' got' t = (Inr u', t')"
  shows "(got = got' \<longrightarrow> pid = pid') \<and> (got < got' \<longleftrightarrow> pid < pid')"
  using onchain.payment_unique [OF assms(1,2) assms(3)] onchain.payment_order [OF assms] assms(4)
  by blast

end
