(* ===== verification/Payment_Status.thy ===== *)
theory Payment_Status
  imports Indexer Nonce_Binder Config
begin

text \<open>
  \<open>internal/attestation/pmwpaymentstatus/xrp\<close>: the payment-status verifier. A request names
  an account and a payment id; the verifier derives the instruction id, fetches and decodes the
  instruction event, binds its sequence to the payment id on chain, fetches the
  ledger transaction with that sequence and reports what it did.

  The sequence check is the interface \<open>SequenceVerifier\<close>: \<open>PaymentStatus_Verify\<close> takes it as
  an argument, the locale \<open>sequence_verifier\<close> of \<open>Nonce_Binder\<close> proves the client's lemmas for every
  implementation that keeps the contract, and the interpretation \<open>onchain\<close> instantiates it with
  the on-chain binder. \<open>json.Unmarshal\<close> of a transaction and the address codec are parameters.
\<close>

section \<open>Transaction data\<close>

datatype TransactionStatus = Success | Reverted

fun status_uint8 :: "TransactionStatus \<Rightarrow> u8" where
  "status_uint8 Success = 0"
| "status_uint8 Reverted = 1"

text \<open>A value of a decoded JSON object: the code only asks whether it is a string.\<close>

datatype json_any = JString string | JOther

type_synonym json_object = "(string \<rightharpoonup> json_any) option"

record CreatedNode =
  cn_LedgerEntryType :: string
  cn_NewFields :: json_object

record ModifiedNode =
  mn_LedgerEntryType :: string
  mn_FinalFields :: json_object
  mn_PreviousFields :: json_object

record AffectedNode =
  an_CreatedNode :: "CreatedNode option"
  an_ModifiedNode :: "ModifiedNode option"

record TransactionMetaData =
  md_TransactionResult :: string
  md_AffectedNodes :: "AffectedNode list"

record RawTransactionData =
  raw_Account :: string
  raw_TransactionType :: string
  raw_Fee :: string
  raw_Sequence :: u64
  raw_Hash :: string
  raw_MetaData :: TransactionMetaData

section \<open>Received amount\<close>

definition getStringField :: "(string \<rightharpoonup> json_any) \<Rightarrow> string \<Rightarrow> string option" where
  "getStringField m key =
     (case m key of
        None \<Rightarrow> None
      | Some val \<Rightarrow> (case val of JString str \<Rightarrow> Some str | JOther \<Rightarrow> None))"

text \<open>A parsed balance that fits the XRP supply.\<close>

definition extractBalance :: "string \<Rightarrow> int result" where
  "extractBalance s =
     rbind (map_error (\<lambda>_. Plain) (ParseNonNegativeBigInt s)) (\<lambda>bal.
     if ExceedsMaxXRPDrops (Some bal) then Inl (tag ErrDatabase) else Inr bal)"

definition extractFromModifiedNode :: "ModifiedNode \<Rightarrow> (string \<times> int) option result" where
  "extractFromModifiedNode m =
     (if mn_LedgerEntryType m \<noteq> ''AccountRoot'' then Inr None
      else (case (mn_FinalFields m, mn_PreviousFields m) of
              (Some finalFields, Some previousFields) \<Rightarrow>
                (case (getStringField finalFields ''Account'', getStringField finalFields ''Balance'',
                       getStringField previousFields ''Balance'') of
                   (Some account, Some finalBalStr, Some prevBalStr) \<Rightarrow>
                     rbind (extractBalance finalBalStr) (\<lambda>finalBal.
                     rbind (extractBalance prevBalStr) (\<lambda>prevBal.
                     let diff = finalBal - prevBal
                     in if diff \<le> 0 then Inr None else Inr (Some (account, diff))))
                 | _ \<Rightarrow> Inr None)
            | _ \<Rightarrow> Inr None))"

definition extractFromCreatedNode :: "CreatedNode \<Rightarrow> (string \<times> int) option result" where
  "extractFromCreatedNode c =
     (if cn_LedgerEntryType c \<noteq> ''AccountRoot'' then Inr None
      else (case cn_NewFields c of
              None \<Rightarrow> Inr None
            | Some newFields \<Rightarrow>
                (case (getStringField newFields ''Account'', getStringField newFields ''Balance'') of
                   (Some account, Some balanceStr) \<Rightarrow>
                     rbind (extractBalance balanceStr) (\<lambda>balance. Inr (Some (account, balance)))
                 | _ \<Rightarrow> Inr None)))"

definition extractFromNode :: "AffectedNode \<Rightarrow> (string \<times> int) option result" where
  "extractFromNode node =
     (case an_ModifiedNode node of
        Some m \<Rightarrow> extractFromModifiedNode m
      | None \<Rightarrow> (case an_CreatedNode node of
                    Some created \<Rightarrow> extractFromCreatedNode created
                  | None \<Rightarrow> Inr None))"

fun received_loop :: "AffectedNode list \<Rightarrow> (string \<times> int) list \<Rightarrow> (string \<times> int) list result" where
  "received_loop [] received = Inr received"
| "received_loop (node # nodes) received =
     rbind (extractFromNode node) (\<lambda>aa.
     received_loop nodes (case aa of None \<Rightarrow> received | Some a \<Rightarrow> received @ [a]))"

text \<open>The caller always passes the address of a struct, so the \<open>nil\<close> test cannot fire.\<close>

definition ReceivedAmount :: "TransactionMetaData option \<Rightarrow> (string \<times> int) list result" where
  "ReceivedAmount meta =
     (case meta of None \<Rightarrow> Inl Plain | Some m \<Rightarrow> received_loop (md_AffectedNodes m) [])"

fun find_amount :: "string \<Rightarrow> (string \<times> int) list \<Rightarrow> int" where
  "find_amount receiver [] = 0"
| "find_amount receiver ((a, v) # ras) = (if a = receiver then v else find_amount receiver ras)"

definition FindReceivedAmountForAddress :: "TransactionMetaData option \<Rightarrow> string \<Rightarrow> int result" where
  "FindReceivedAmountForAddress meta receiver =
     rbind (ReceivedAmount meta) (\<lambda>receivedAmounts. Inr (find_amount receiver receivedAmounts))"

section \<open>The response\<close>

record PaymentStatusRequest =
  psq_OpType :: hash
  psq_SenderAddress :: string
  psq_PaymentId :: u64

record PaymentStatusResponse =
  psr_RecipientAddress :: string
  psr_TokenId :: bytes
  psr_Amount :: "int option"
  psr_MaxFee :: "int option"
  psr_PaymentReference :: hash
  psr_TransactionStatus :: u8
  psr_RevertReason :: string
  psr_ReceivedAmount :: "int option"
  psr_TransactionFee :: "int option"
  psr_TransactionId :: hash
  psr_BlockNumber :: u64
  psr_BlockTimestamp :: u64

definition checkDropsBound :: "int option \<Rightarrow> unit result" where
  "checkDropsBound v =
     (if v = None then Inl (tag ErrDatabase)
      else if ExceedsMaxXRPDrops v then Inl (tag ErrDatabase)
      else Inr ())"

definition getTransactionStatus :: "string \<Rightarrow> TransactionStatus result" where
  "getTransactionStatus res =
     (if length res < 3 then Inl (tag ErrDatabase)
      else if take 3 res = ''tes'' then Inr Success
      else if take 3 res = ''tec'' then Inr Reverted
      else Inl (tag ErrDatabase))"

definition BuildPaymentStatusResponse ::
  "tee_lib \<Rightarrow> address_codec \<Rightarrow> RawTransactionData \<Rightarrow> pay_message \<Rightarrow> DBTransaction \<Rightarrow>
   PaymentStatusResponse result" where
  "BuildPaymentStatusResponse lib codec raw msg tx =
     rbind (ensure (raw_TransactionType raw = ''Payment'') Plain) (\<lambda>_.
     rbind (ensure (length (msg_TokenId msg) = 0) Plain) (\<lambda>_.
     rbind (checkDropsBound (msg_Amount msg)) (\<lambda>_.
     rbind (checkDropsBound (msg_MaxFee msg)) (\<lambda>_.
     rbind (map_error wrap1 (getTransactionStatus (md_TransactionResult (raw_MetaData raw))))
       (\<lambda>transactionResult.
     rbind (map_error wrap1 (ParseNonNegativeBigInt (raw_Fee raw))) (\<lambda>transactionFee.
     rbind (checkDropsBound (Some transactionFee)) (\<lambda>_.
     rbind (map_error wrap1 (Hex32StringToCommonHash lib (tx_Hash tx))) (\<lambda>hashBytes.
     rbind (map_error wrap1 (NormalizeAddress codec (msg_RecipientAddress msg))) (\<lambda>recipientClassic.
     rbind (map_error wrap1 (FindReceivedAmountForAddress (Some (raw_MetaData raw)) recipientClassic))
       (\<lambda>receivedAmount.
     rbind (checkDropsBound (Some receivedAmount)) (\<lambda>_.
     let revertReason =
           (if transactionResult \<noteq> Success then md_TransactionResult (raw_MetaData raw) else '''')
     in Inr \<lparr>psr_RecipientAddress = msg_RecipientAddress msg,
             psr_TokenId = msg_TokenId msg,
             psr_Amount = msg_Amount msg,
             psr_MaxFee = msg_MaxFee msg,
             psr_PaymentReference = msg_PaymentReference msg,
             psr_TransactionStatus = status_uint8 transactionResult,
             psr_RevertReason = revertReason,
             psr_ReceivedAmount = Some receivedAmount,
             psr_TransactionFee = Some transactionFee,
             psr_TransactionId = hashBytes,
             psr_BlockNumber = tx_BlockNumber tx,
             psr_BlockTimestamp = tx_Timestamp tx\<rparr>)))))))))))"

section \<open>The verifier\<close>

text \<open>The parameters of both XRP indexer verifiers.\<close>

record xrp_lib =
  xl_tee :: tee_lib
  xl_codec :: address_codec
  xl_Unmarshal :: "string \<Rightarrow> RawTransactionData result"

record XRPVerifier =
  xv_Repo :: DBRepo
  xv_Config :: PMWPaymentStatusConfig

type_synonym 's seq_verifier = "hash \<Rightarrow> string \<Rightarrow> u64 \<Rightarrow> u64 \<Rightarrow> ('s, goerr, unit) io"

definition maxResponseSize :: nat where
  "maxResponseSize = 2 ^ 20"

definition parseRawTransactionData :: "xrp_lib \<Rightarrow> string \<Rightarrow> RawTransactionData result" where
  "parseRawTransactionData xl response =
     (if length response > maxResponseSize then Inl (tag ErrDatabase)
      else rbind (map_error (tag_with ErrDataSource) (xl_Unmarshal xl response)) (\<lambda>raw.
           if md_TransactionResult (raw_MetaData raw) = '''' then Inl (tag ErrDataSource)
           else Inr raw))"

definition PaymentStatus_Verify ::
  "xrp_lib \<Rightarrow> 's seq_verifier \<Rightarrow> XRPVerifier \<Rightarrow> PaymentStatusRequest \<Rightarrow>
   ('s, goerr, PaymentStatusResponse) io" where
  "PaymentStatus_Verify xl verifySequence x req =
     (let cfg = xv_Config x; lib = xl_tee xl;
          sourceID = enc_SourceIDEncoded (pc_enc cfg); teeABI = pc_ParsedTeeInstructionsABI cfg
      in
      io_bind (io_lift (map_error wrap1
        (GenerateInstructionID lib (psq_OpType req) sourceID (psq_SenderAddress req) (psq_PaymentId req))))
        (\<lambda>instructionID.
      io_bind (io_lift (TeeInstructionsSentEventSignature lib teeABI)) (\<lambda>eventHash.
      io_bind (io_lift (FetchInstructionLog lib (xv_Repo x) eventHash instructionID)) (\<lambda>chainLog.
      io_bind (io_lift (DecodeTeeInstructionsSentEventData lib chainLog teeABI Pay (psq_OpType req)))
        (\<lambda>paymentMessage.
      io_bind (io_lift (CheckInstructionConsistency paymentMessage sourceID (psq_SenderAddress req)
        (psq_PaymentId req))) (\<lambda>_.
      io_bind (verifySequence sourceID (psq_SenderAddress req) (psq_PaymentId req)
        (msg_Nonce paymentMessage)) (\<lambda>_.
      io_bind (io_lift (FetchTransactionBySourceAndSequence (xv_Repo x) (psq_SenderAddress req)
        (msg_Nonce paymentMessage))) (\<lambda>dbTransaction.
      io_bind (io_lift (parseRawTransactionData xl (tx_Response dbTransaction))) (\<lambda>raw.
      io_bind (io_lift (CheckRowConsistency (raw_Hash raw) (raw_Account raw) (raw_Sequence raw)
        dbTransaction)) (\<lambda>_.
      io_lift (map_error wrap1
        (BuildPaymentStatusResponse lib (xl_codec xl) raw paymentMessage dbTransaction))))))))))))"

text \<open>
  Construction. The two databases and the outcome of dialling the node are parameters; the
  boolean is whether an RPC connection stays open. Closing closes the binder.
\<close>

definition NewXRPVerifier ::
  "tee_lib \<Rightarrow> PMWPaymentStatusConfig \<Rightarrow> (tx_query \<Rightarrow> DBTransaction list result) \<Rightarrow>
   (log_query \<Rightarrow> db_log list result) \<Rightarrow> unit result \<Rightarrow> unit result \<Rightarrow>
   (XRPVerifier \<times> Binder) result \<times> bool" where
  "NewXRPVerifier lib cfg xrpDB cChainDB dial newCaller =
     (case NewOnChainBinder dial newCaller of
        (Inl err, open) \<Rightarrow> (Inl (wrap1 err), open)
      | (Inr binder, open) \<Rightarrow>
          (Inr (\<lparr>xv_Repo = NewDBRepo lib xrpDB cChainDB (pc_FlareTeeManagerContractAddress cfg),
                 xv_Config = cfg\<rparr>, binder), open))"

definition XRPVerifier_Close :: "Binder \<Rightarrow> Binder" where
  "XRPVerifier_Close binder = binder_Close binder"

section \<open>Lemmas: received amount\<close>

lemma extractBalance_bounds: "extractBalance s = Inr v \<Longrightarrow> 0 \<le> v \<and> v \<le> 10 ^ 17"
  by (auto simp: extractBalance_def result_simps ExceedsMaxXRPDrops_Some split: if_splits)

lemma extractFromNode_bounds:
  "extractFromNode node = Inr (Some (a, v)) \<Longrightarrow> 0 \<le> v \<and> v \<le> 10 ^ 17"
  by (auto simp: extractFromNode_def extractFromModifiedNode_def extractFromCreatedNode_def Let_def
      result_simps split: option.splits if_splits dest!: extractBalance_bounds)

text \<open>The credits of a transaction in ledger order, and the first credit of an address.\<close>

definition node_credits :: "(string \<times> int) option list \<Rightarrow> (string \<times> int) list" where
  "node_credits aas = List.map_filter id aas"

lemma node_credits_Cons [simp]:
  "node_credits [] = []"
  "node_credits (None # aas) = node_credits aas"
  "node_credits (Some a # aas) = a # node_credits aas"
  by (simp_all add: node_credits_def map_filter_simps)

lemma received_loop_eq:
  "received_loop nodes acc =
     rbind (mapM extractFromNode nodes) (\<lambda>aas. Inr (acc @ node_credits aas))"
proof (induction nodes arbitrary: acc)
  case (Cons node nodes)
  then show ?case
    by (cases "extractFromNode node"; cases "mapM extractFromNode nodes")
       (auto split: option.splits)
qed simp

lemma find_amount_map_of: "find_amount r xs = (case map_of xs r of None \<Rightarrow> 0 | Some v \<Rightarrow> v)"
  by (induction r xs rule: find_amount.induct) auto

lemma FindReceived_ok_iff:
  "FindReceivedAmountForAddress (Some md) r = Inr v \<longleftrightarrow>
     (\<exists>aas. mapM extractFromNode (md_AffectedNodes md) = Inr aas \<and>
        v = (case map_of (node_credits aas) r of None \<Rightarrow> 0 | Some w \<Rightarrow> w))"
  by (auto simp: FindReceivedAmountForAddress_def ReceivedAmount_def received_loop_eq
      result_simps find_amount_map_of)

lemma node_credits_mem: "(a, v) \<in> set (node_credits aas) \<longleftrightarrow> Some (a, v) \<in> set aas"
proof (induction aas)
  case (Cons x aas)
  then show ?case by (cases x) auto
qed simp

lemma FindReceived_credit:
  assumes "FindReceivedAmountForAddress (Some md) r = Inr v" and "v \<noteq> 0"
  shows "\<exists>node \<in> set (md_AffectedNodes md). extractFromNode node = Inr (Some (r, v))"
proof -
  from assms obtain aas where aas: "mapM extractFromNode (md_AffectedNodes md) = Inr aas"
    and "map_of (node_credits aas) r = Some v"
    by (auto simp: FindReceived_ok_iff split: option.splits)
  then have "Some (r, v) \<in> set aas" using node_credits_mem by (metis map_of_SomeD)
  then obtain i where "i < length aas" "aas ! i = Some (r, v)" by (auto simp: in_set_conv_nth)
  with aas mapM_nth [OF aas, of i] mapM_length [OF aas] show ?thesis by (metis nth_mem)
qed

lemma FindReceived_bounds:
  assumes "FindReceivedAmountForAddress (Some md) r = Inr v"
  shows "0 \<le> v \<and> v \<le> 10 ^ 17"
proof (cases "v = 0")
  case False
  with FindReceived_credit [OF assms] show ?thesis by (auto dest: extractFromNode_bounds)
qed simp

section \<open>Lemmas: the response\<close>

lemma checkDropsBound_ok_iff: "checkDropsBound v = Inr () \<longleftrightarrow> (\<exists>i. v = Some i \<and> 0 \<le> i \<and> i \<le> 10 ^ 17)"
  using ExceedsMaxXRPDrops_iff [of v] by (auto simp: checkDropsBound_def)

lemma getTransactionStatus_ok_iff:
  "getTransactionStatus res = Inr st \<longleftrightarrow>
     (st = Success \<and> take 3 res = ''tes'') \<or> (st = Reverted \<and> take 3 res = ''tec'')"
proof (cases "length res < 3")
  case True
  then have "take 3 res \<noteq> ''tes''" "take 3 res \<noteq> ''tec''"
    by (auto dest: arg_cong [of _ _ length])
  with True show ?thesis by (simp add: getTransactionStatus_def)
qed (auto simp: getTransactionStatus_def split: if_splits)

lemma BuildPaymentStatusResponse_InrD:
  assumes "BuildPaymentStatusResponse lib codec raw msg tx = Inr resp"
  shows "raw_TransactionType raw = ''Payment'' \<and> msg_TokenId msg = [] \<and>
    (\<exists>st fee h rec amt.
       getTransactionStatus (md_TransactionResult (raw_MetaData raw)) = Inr st \<and>
       ParseNonNegativeBigInt (raw_Fee raw) = Inr fee \<and> 0 \<le> fee \<and> fee \<le> 10 ^ 17 \<and>
       Hex32StringToCommonHash lib (tx_Hash tx) = Inr h \<and>
       NormalizeAddress codec (msg_RecipientAddress msg) = Inr rec \<and>
       FindReceivedAmountForAddress (Some (raw_MetaData raw)) rec = Inr amt \<and>
       resp = \<lparr>psr_RecipientAddress = msg_RecipientAddress msg, psr_TokenId = msg_TokenId msg,
         psr_Amount = msg_Amount msg, psr_MaxFee = msg_MaxFee msg,
         psr_PaymentReference = msg_PaymentReference msg, psr_TransactionStatus = status_uint8 st,
         psr_RevertReason = (if st \<noteq> Success then md_TransactionResult (raw_MetaData raw) else ''''),
         psr_ReceivedAmount = Some amt, psr_TransactionFee = Some fee, psr_TransactionId = h,
         psr_BlockNumber = tx_BlockNumber tx, psr_BlockTimestamp = tx_Timestamp tx\<rparr>) \<and>
    checkDropsBound (msg_Amount msg) = Inr () \<and> checkDropsBound (msg_MaxFee msg) = Inr ()"
proof -
  from assms obtain u1 u2 u3 st fee h rec amt where
    "raw_TransactionType raw = ''Payment''" "length (msg_TokenId msg) = 0"
    "checkDropsBound (msg_Amount msg) = Inr u1" "checkDropsBound (msg_MaxFee msg) = Inr u2"
    "getTransactionStatus (md_TransactionResult (raw_MetaData raw)) = Inr st"
    "ParseNonNegativeBigInt (raw_Fee raw) = Inr fee" "checkDropsBound (Some fee) = Inr u3"
    "Hex32StringToCommonHash lib (tx_Hash tx) = Inr h"
    "NormalizeAddress codec (msg_RecipientAddress msg) = Inr rec"
    "FindReceivedAmountForAddress (Some (raw_MetaData raw)) rec = Inr amt" and
    "\<lparr>psr_RecipientAddress = msg_RecipientAddress msg, psr_TokenId = msg_TokenId msg,
         psr_Amount = msg_Amount msg, psr_MaxFee = msg_MaxFee msg,
         psr_PaymentReference = msg_PaymentReference msg, psr_TransactionStatus = status_uint8 st,
         psr_RevertReason = (if st \<noteq> Success then md_TransactionResult (raw_MetaData raw) else ''''),
         psr_ReceivedAmount = Some amt, psr_TransactionFee = Some fee, psr_TransactionId = h,
         psr_BlockNumber = tx_BlockNumber tx, psr_BlockTimestamp = tx_Timestamp tx\<rparr> = resp"
    unfolding BuildPaymentStatusResponse_def rbind_eq_Inr_iff ensure_eq_Inr_iff
      map_error_eq_Inr_iff Let_def sum.inject by blast
  then show ?thesis using checkDropsBound_ok_iff [of "Some fee"] by simp
qed

section \<open>What an attested payment means\<close>

text \<open>
  \<open>payment_spec\<close> is the contract of the verifier over the tables of the two indexers and the
  on-chain nonces: the one instruction event of the payment, the one ledger transaction at
  the sequence the contract assigned to it, and a response built from these two.
\<close>

definition payment_spec ::
  "xrp_lib \<Rightarrow> XRPVerifier \<Rightarrow> (hash \<Rightarrow> string \<Rightarrow> u64) \<Rightarrow> db_log list \<Rightarrow> DBTransaction list \<Rightarrow>
   PaymentStatusRequest \<Rightarrow> PaymentStatusResponse \<Rightarrow> bool" where
  "payment_spec xl x truth logs txs req resp \<longleftrightarrow>
     (\<exists>iid ev row log msg tx raw.
        GenerateInstructionID (xl_tee xl) (psq_OpType req) (enc_SourceIDEncoded (pc_enc (xv_Config x)))
          (psq_SenderAddress req) (psq_PaymentId req) = Inr iid \<and>
        TeeInstructionsSentEventSignature (xl_tee xl) (pc_ParsedTeeInstructionsABI (xv_Config x)) = Inr ev \<and>
        filter (log_matches (instruction_query (xl_tee xl) (xv_Repo x) ev [iid] (Some 2))) logs = [row] \<and>
        ConvertDatabaseLogToChainLog (xl_tee xl) row = Inr log \<and>
        DecodeTeeInstructionsSentEventData (xl_tee xl) log (pc_ParsedTeeInstructionsABI (xv_Config x))
          Pay (psq_OpType req) = Inr msg \<and>
        msg_SourceId msg = enc_SourceIDEncoded (pc_enc (xv_Config x)) \<and>
        msg_SenderAddress msg = psq_SenderAddress req \<and> msg_PaymentId msg = psq_PaymentId req \<and>
        psq_PaymentId req \<noteq> 0 \<and>
        unat (msg_Nonce msg) =
          unat (truth (msg_SourceId msg) (psq_SenderAddress req)) + unat (psq_PaymentId req) - 1 \<and>
        filter (\<lambda>t. tx_SourceAddress t = psq_SenderAddress req \<and> tx_Sequence t = msg_Nonce msg) txs = [tx] \<and>
        parseRawTransactionData xl (tx_Response tx) = Inr raw \<and>
        strings_EqualFold (raw_Hash raw) (tx_Hash tx) \<and> raw_Account raw = psq_SenderAddress req \<and>
        raw_Sequence raw = msg_Nonce msg \<and>
        BuildPaymentStatusResponse (xl_tee xl) (xl_codec xl) raw msg tx = Inr resp)"

lemma Verify_InrD:
  assumes "PaymentStatus_Verify xl vs x req s = (Inr resp, s')"
  obtains iid ev log msg tx raw where
    "GenerateInstructionID (xl_tee xl) (psq_OpType req) (enc_SourceIDEncoded (pc_enc (xv_Config x)))
       (psq_SenderAddress req) (psq_PaymentId req) = Inr iid"
    "TeeInstructionsSentEventSignature (xl_tee xl) (pc_ParsedTeeInstructionsABI (xv_Config x)) = Inr ev"
    "FetchInstructionLog (xl_tee xl) (xv_Repo x) ev iid = Inr log"
    "DecodeTeeInstructionsSentEventData (xl_tee xl) log (pc_ParsedTeeInstructionsABI (xv_Config x))
       Pay (psq_OpType req) = Inr msg"
    "CheckInstructionConsistency msg (enc_SourceIDEncoded (pc_enc (xv_Config x)))
       (psq_SenderAddress req) (psq_PaymentId req) = Inr ()"
    "vs (enc_SourceIDEncoded (pc_enc (xv_Config x))) (psq_SenderAddress req) (psq_PaymentId req)
       (msg_Nonce msg) s = (Inr (), s')"
    "FetchTransactionBySourceAndSequence (xv_Repo x) (psq_SenderAddress req) (msg_Nonce msg) = Inr tx"
    "parseRawTransactionData xl (tx_Response tx) = Inr raw"
    "CheckRowConsistency (raw_Hash raw) (raw_Account raw) (raw_Sequence raw) tx = Inr ()"
    "BuildPaymentStatusResponse (xl_tee xl) (xl_codec xl) raw msg tx = Inr resp"
  using assms unfolding PaymentStatus_Verify_def Let_def
  by (auto simp: io_simps)

lemma Verify_intro:
  assumes "GenerateInstructionID (xl_tee xl) (psq_OpType req) (enc_SourceIDEncoded (pc_enc (xv_Config x)))
       (psq_SenderAddress req) (psq_PaymentId req) = Inr iid"
    "TeeInstructionsSentEventSignature (xl_tee xl) (pc_ParsedTeeInstructionsABI (xv_Config x)) = Inr ev"
    "FetchInstructionLog (xl_tee xl) (xv_Repo x) ev iid = Inr log"
    "DecodeTeeInstructionsSentEventData (xl_tee xl) log (pc_ParsedTeeInstructionsABI (xv_Config x))
       Pay (psq_OpType req) = Inr msg"
    "CheckInstructionConsistency msg (enc_SourceIDEncoded (pc_enc (xv_Config x)))
       (psq_SenderAddress req) (psq_PaymentId req) = Inr ()"
    "vs (enc_SourceIDEncoded (pc_enc (xv_Config x))) (psq_SenderAddress req) (psq_PaymentId req)
       (msg_Nonce msg) s = (Inr u, s')"
    "FetchTransactionBySourceAndSequence (xv_Repo x) (psq_SenderAddress req) (msg_Nonce msg) = Inr tx"
    "parseRawTransactionData xl (tx_Response tx) = Inr raw"
    "CheckRowConsistency (raw_Hash raw) (raw_Account raw) (raw_Sequence raw) tx = Inr ()"
    "BuildPaymentStatusResponse (xl_tee xl) (xl_codec xl) raw msg tx = Inr resp"
  shows "PaymentStatus_Verify xl vs x req s = (Inr resp, s')"
  unfolding PaymentStatus_Verify_def Let_def by (simp add: io_bind_def assms)

text \<open>A repository that answers every query.\<close>

definition repo_up :: "DBRepo \<Rightarrow> bool" where
  "repo_up r \<longleftrightarrow> (\<forall>q. is_ok (repo_cChainDb r q)) \<and> (\<forall>q. is_ok (repo_db r q))"

lemma fetch_log_complete:
  assumes "repo_up r" and "serves_logs r logs"
    and "filter (log_matches (instruction_query lib r ev [h] (Some 2))) logs = [row]"
  shows "FetchInstructionLog lib r ev h = ConvertDatabaseLogToChainLog lib row"
proof -
  let ?q = "instruction_query lib r ev [h] (Some 2)"
  obtain rows where rows: "repo_cChainDb r ?q = Inr rows"
    using assms(1) unfolding repo_up_def is_ok_iff by blast
  then have "rows = sql_logs logs ?q" using assms(2) unfolding serves_logs_def by blast
  moreover have "lq_limit ?q = Some 2" by (simp add: instruction_query_def)
  ultimately have "rows = [row]" by (simp add: sql_logs_def assms(3) apply_limit_def)
  with rows show ?thesis by (simp add: FetchInstructionLog_def)
qed

lemma fetch_tx_complete:
  assumes "repo_up r" and "serves_txs r txs"
    and "filter (\<lambda>t. tx_SourceAddress t = src \<and> tx_Sequence t = n) txs = [t]"
  shows "FetchTransactionBySourceAndSequence r src n = Inr t"
proof -
  let ?q = "\<lparr>tq_source_address = src, tq_sequence = [n], tq_limit = Some 2\<rparr>"
  obtain rows where rows: "repo_db r ?q = Inr rows"
    using assms(1) unfolding repo_up_def is_ok_iff by blast
  have eq: "tx_matches ?q = (\<lambda>t. tx_SourceAddress t = src \<and> tx_Sequence t = n)"
    by (auto simp: tx_matches_def)
  obtain ts where "mset ts = mset (filter (tx_matches ?q) txs)" "rows = apply_limit (tq_limit ?q) ts"
    using assms(2) rows unfolding serves_txs_def by blast
  then have "ts = [t]" "rows = take 2 ts"
    by (simp_all only: eq assms(3) apply_limit_def mset_single_iff mset.simps add_mset_eq_single
        tx_query.simps option.simps)
  with rows show ?thesis by (simp add: FetchTransactionBySourceAndSequence_def)
qed

context sequence_verifier
begin

text \<open>For every sequence verifier that keeps its contract: soundness, and state kept.\<close>

lemma payment_sound:
  assumes inv: "invar s" and logs: "serves_logs (xv_Repo x) logs" and txs: "serves_txs (xv_Repo x) txs"
    and ok: "PaymentStatus_Verify xl verify x req s = (Inr resp, s')"
  shows "payment_spec xl x truth logs txs req resp \<and> invar s'"
proof -
  from ok obtain iid ev log msg tx raw where
    st: "GenerateInstructionID (xl_tee xl) (psq_OpType req) (enc_SourceIDEncoded (pc_enc (xv_Config x)))
       (psq_SenderAddress req) (psq_PaymentId req) = Inr iid"
    "TeeInstructionsSentEventSignature (xl_tee xl) (pc_ParsedTeeInstructionsABI (xv_Config x)) = Inr ev"
    "DecodeTeeInstructionsSentEventData (xl_tee xl) log (pc_ParsedTeeInstructionsABI (xv_Config x))
       Pay (psq_OpType req) = Inr msg"
    "parseRawTransactionData xl (tx_Response tx) = Inr raw"
    "BuildPaymentStatusResponse (xl_tee xl) (xl_codec xl) raw msg tx = Inr resp" and
    log: "FetchInstructionLog (xl_tee xl) (xv_Repo x) ev iid = Inr log" and
    cons: "CheckInstructionConsistency msg (enc_SourceIDEncoded (pc_enc (xv_Config x)))
       (psq_SenderAddress req) (psq_PaymentId req) = Inr ()" and
    seq: "verify (enc_SourceIDEncoded (pc_enc (xv_Config x))) (psq_SenderAddress req) (psq_PaymentId req)
       (msg_Nonce msg) s = (Inr (), s')" and
    tx: "FetchTransactionBySourceAndSequence (xv_Repo x) (psq_SenderAddress req) (msg_Nonce msg) = Inr tx" and
    row: "CheckRowConsistency (raw_Hash raw) (raw_Account raw) (raw_Sequence raw) tx = Inr ()"
    by (rule Verify_InrD)
  obtain r where r: "filter (log_matches (instruction_query (xl_tee xl) (xv_Repo x) ev [iid] (Some 2))) logs = [r]"
    "ConvertDatabaseLogToChainLog (xl_tee xl) r = Inr log"
    using FetchInstructionLog_InrD [OF log] serves_logs_single [OF logs] by blast
  have t: "filter (\<lambda>t. tx_SourceAddress t = psq_SenderAddress req \<and> tx_Sequence t = msg_Nonce msg) txs = [tx]"
    by (rule serves_txs_single [OF txs FetchTransaction_InrD [OF tx]])
  then have "tx \<in> set (filter (\<lambda>t. tx_SourceAddress t = psq_SenderAddress req \<and> tx_Sequence t = msg_Nonce msg) txs)"
    by simp
  then have t': "tx_SourceAddress tx = psq_SenderAddress req" "tx_Sequence tx = msg_Nonce msg" by simp_all
  have "payment_spec xl x truth logs txs req resp"
    unfolding payment_spec_def
  proof (intro exI conjI)
    show "msg_SourceId msg = enc_SourceIDEncoded (pc_enc (xv_Config x))"
      "msg_SenderAddress msg = psq_SenderAddress req" "msg_PaymentId msg = psq_PaymentId req"
      using cons unfolding CheckInstructionConsistency_ok_iff by blast+
    then show "psq_PaymentId req \<noteq> 0" "unat (msg_Nonce msg) =
        unat (truth (msg_SourceId msg) (psq_SenderAddress req)) + unat (psq_PaymentId req) - 1"
      using verify_sound [OF inv seq] by simp_all
    show "strings_EqualFold (raw_Hash raw) (tx_Hash tx)" "raw_Account raw = psq_SenderAddress req"
      "raw_Sequence raw = msg_Nonce msg"
      using row t' unfolding CheckRowConsistency_ok_iff by simp_all
  qed (fact st r t)+
  with verify_invar [OF inv seq] show ?thesis by blast
qed

lemma payment_complete:
  assumes up: "repo_up (xv_Repo x)"
    and logs: "serves_logs (xv_Repo x) logs" and txs: "serves_txs (xv_Repo x) txs"
    and acc: "\<And>pid got. pid \<noteq> 0 \<Longrightarrow>
        unat got = unat (truth (enc_SourceIDEncoded (pc_enc (xv_Config x))) (psq_SenderAddress req)) + unat pid - 1 \<Longrightarrow>
        fst (verify (enc_SourceIDEncoded (pc_enc (xv_Config x))) (psq_SenderAddress req) pid got s) = Inr ()"
    and spec: "payment_spec xl x truth logs txs req resp"
  shows "fst (PaymentStatus_Verify xl verify x req s) = Inr resp"
proof -
  from spec obtain iid ev row log msg tx raw where P:
    "GenerateInstructionID (xl_tee xl) (psq_OpType req) (enc_SourceIDEncoded (pc_enc (xv_Config x)))
       (psq_SenderAddress req) (psq_PaymentId req) = Inr iid"
    "TeeInstructionsSentEventSignature (xl_tee xl) (pc_ParsedTeeInstructionsABI (xv_Config x)) = Inr ev"
    "DecodeTeeInstructionsSentEventData (xl_tee xl) log (pc_ParsedTeeInstructionsABI (xv_Config x))
       Pay (psq_OpType req) = Inr msg"
    "parseRawTransactionData xl (tx_Response tx) = Inr raw"
    "BuildPaymentStatusResponse (xl_tee xl) (xl_codec xl) raw msg tx = Inr resp" and
    r: "filter (log_matches (instruction_query (xl_tee xl) (xv_Repo x) ev [iid] (Some 2))) logs = [row]"
      "ConvertDatabaseLogToChainLog (xl_tee xl) row = Inr log" and
    c: "msg_SourceId msg = enc_SourceIDEncoded (pc_enc (xv_Config x))"
      "msg_SenderAddress msg = psq_SenderAddress req" "msg_PaymentId msg = psq_PaymentId req" and
    n: "psq_PaymentId req \<noteq> 0" "unat (msg_Nonce msg) =
          unat (truth (msg_SourceId msg) (psq_SenderAddress req)) + unat (psq_PaymentId req) - 1" and
    t: "filter (\<lambda>t. tx_SourceAddress t = psq_SenderAddress req \<and> tx_Sequence t = msg_Nonce msg) txs = [tx]" and
    w: "strings_EqualFold (raw_Hash raw) (tx_Hash tx)" "raw_Account raw = psq_SenderAddress req"
      "raw_Sequence raw = msg_Nonce msg"
    unfolding payment_spec_def by blast
  have "tx \<in> set (filter (\<lambda>t. tx_SourceAddress t = psq_SenderAddress req \<and> tx_Sequence t = msg_Nonce msg) txs)"
    unfolding t by simp
  then have row: "CheckRowConsistency (raw_Hash raw) (raw_Account raw) (raw_Sequence raw) tx = Inr ()"
    using w by (simp add: CheckRowConsistency_ok_iff)
  have cons: "CheckInstructionConsistency msg (enc_SourceIDEncoded (pc_enc (xv_Config x)))
       (psq_SenderAddress req) (psq_PaymentId req) = Inr ()"
    using c by (simp add: CheckInstructionConsistency_ok_iff)
  obtain s' where seq: "verify (enc_SourceIDEncoded (pc_enc (xv_Config x))) (psq_SenderAddress req)
      (psq_PaymentId req) (msg_Nonce msg) s = (Inr (), s')"
    using acc [OF n [unfolded c(1)]] by (metis prod.collapse)
  have log: "FetchInstructionLog (xl_tee xl) (xv_Repo x) ev iid = Inr log"
    using fetch_log_complete [OF up logs r(1)] r(2) by simp
  have "PaymentStatus_Verify xl verify x req s = (Inr resp, s')"
    using Verify_intro [where vs = verify and s = s, OF P(1,2) log P(3) cons]
      seq fetch_tx_complete [OF up txs t] P(4) row P(5) by blast
  then show ?thesis by simp
qed

end

section \<open>Which errors the verifier returns\<close>

definition pmw_tags :: "sentinel list" where
  "pmw_tags = [ErrRecordNotFound, ErrDatabase, ErrDataSource, DeadlineExceeded, Canceled, EthereumNotFound]"

definition xrp_lib_foreign :: "xrp_lib \<Rightarrow> bool" where
  "xrp_lib_foreign xl \<longleftrightarrow>
     tee_lib_foreign (xl_tee xl) \<and> (\<forall>a. foreign_result (XAddressToClassicAddress (xl_codec xl) a)) \<and>
     (\<forall>s. foreign_result (xl_Unmarshal xl s))"

lemma foreign_pmw_tags: "foreign_result r \<Longrightarrow> result_tags pmw_tags r"
  by (cases r) (auto simp: foreign_result_def pmw_tags_def foreign_sentinels_def intro: only_tags_foreign)



lemma tags_map_error:
  assumes "result_tags S r" and "\<And>e. only_tags S e \<Longrightarrow> only_tags S (g e)"
  shows "result_tags S (map_error g r)"
  using assms by (cases r) auto

lemma pmw_tag [simp]: "ErrDatabase \<in> set pmw_tags" "ErrRecordNotFound \<in> set pmw_tags"
  "ErrDataSource \<in> set pmw_tags"
  by (simp_all add: pmw_tags_def)

lemma lib_tags:
  assumes "tee_lib_foreign lib"
  shows "result_tags pmw_tags (StringToCommonHash lib s)" "result_tags pmw_tags (abi_Pack lib ts vs)"
    "result_tags pmw_tags (structs_DecodeTo lib c b)" "result_tags pmw_tags (ConvertDatabaseLogToChainLog lib l)"
    "result_tags pmw_tags (Hex32StringToCommonHash lib s)"
  using assms by (simp_all add: tee_lib_foreign_def foreign_pmw_tags)

lemma repo_tags:
  assumes "repo_foreign r"
  shows "result_tags pmw_tags (repo_cChainDb r q)" "result_tags pmw_tags (repo_db r q')"
  using assms by (simp_all add: repo_foreign_def foreign_pmw_tags)

lemma abi_tags: "abi_def_foreign a \<Longrightarrow> result_tags pmw_tags (abi_UnpackIntoInterface a n b)"
  by (simp add: abi_def_foreign_def foreign_pmw_tags)

lemma GenerateInstructionID_tags:
  "tee_lib_foreign lib \<Longrightarrow> result_tags pmw_tags (GenerateInstructionID lib op src acc n)"
  unfolding GenerateInstructionID_def
  by (intro result_tags_bind tags_map_error lib_tags) auto

lemma fetch_log_tags:
  "tee_lib_foreign lib \<Longrightarrow> repo_foreign r \<Longrightarrow> result_tags pmw_tags (FetchInstructionLog lib r ev h)"
  unfolding FetchInstructionLog_def
  by (intro result_tags_bind tags_map_error repo_tags) (auto intro: lib_tags)

lemma decode_tags:
  "tee_lib_foreign lib \<Longrightarrow> abi_def_foreign a \<Longrightarrow>
     result_tags pmw_tags (DecodeTeeInstructionsSentEventData lib log a c t)"
  unfolding DecodeTeeInstructionsSentEventData_def decodeInstructionEnvelope_def abiDecodeEventData_def
  by (intro result_tags_bind result_tags_ensure tags_map_error lib_tags abi_tags) auto

lemma fetch_tx_tags: "repo_foreign r \<Longrightarrow> result_tags pmw_tags (FetchTransactionBySourceAndSequence r a n)"
  unfolding FetchTransactionBySourceAndSequence_def
  by (intro result_tags_bind tags_map_error repo_tags) auto

lemma unmarshal_tags: "xrp_lib_foreign xl \<Longrightarrow> result_tags pmw_tags (xl_Unmarshal xl s)"
  by (simp add: xrp_lib_foreign_def foreign_pmw_tags)

lemma parse_raw_tags: "xrp_lib_foreign xl \<Longrightarrow> result_tags pmw_tags (parseRawTransactionData xl s)"
  unfolding parseRawTransactionData_def
  by (auto intro!: result_tags_bind tags_map_error unmarshal_tags)

lemma ParseNonNegative_tags: "result_tags S (ParseNonNegativeBigInt s)"
  by (auto simp: ParseNonNegativeBigInt_def split: option.splits)

lemma extractBalance_tags: "result_tags pmw_tags (extractBalance s)"
  unfolding extractBalance_def by (auto intro!: result_tags_bind result_tags_map_error)

lemma extractFromNode_tags: "result_tags pmw_tags (extractFromNode node)"
  unfolding extractFromNode_def extractFromModifiedNode_def extractFromCreatedNode_def Let_def
  by (auto split: option.splits intro!: result_tags_bind extractBalance_tags)

lemma FindReceived_tags: "result_tags pmw_tags (FindReceivedAmountForAddress (Some md) a)"
proof -
  have "result_tags pmw_tags (received_loop ns acc)" for ns acc
    by (induction ns arbitrary: acc) (auto intro!: result_tags_bind extractFromNode_tags)
  then show ?thesis
    by (auto simp: FindReceivedAmountForAddress_def ReceivedAmount_def intro!: result_tags_bind)
qed

lemma NormalizeAddress_tags:
  "xrp_lib_foreign xl \<Longrightarrow> result_tags pmw_tags (NormalizeAddress (xl_codec xl) a)"
  by (auto simp: NormalizeAddress_def xrp_lib_foreign_def intro: foreign_pmw_tags)

lemma checkDropsBound_tags: "result_tags pmw_tags (checkDropsBound v)"
  by (simp add: checkDropsBound_def)

lemma getTransactionStatus_tags: "result_tags pmw_tags (getTransactionStatus s)"
  by (simp add: getTransactionStatus_def)

lemma build_tags:
  assumes "xrp_lib_foreign xl"
  shows "result_tags pmw_tags (BuildPaymentStatusResponse (xl_tee xl) (xl_codec xl) raw msg tx)"
proof -
  have "tee_lib_foreign (xl_tee xl)" using assms by (simp add: xrp_lib_foreign_def)
  then show ?thesis
    unfolding BuildPaymentStatusResponse_def Let_def
    by (intro result_tags_bind result_tags_ensure tags_map_error checkDropsBound_tags
        getTransactionStatus_tags ParseNonNegative_tags lib_tags NormalizeAddress_tags [OF assms]
        FindReceived_tags result_tags_simps(1)) simp_all
qed

lemma signature_tags: "result_tags S (TeeInstructionsSentEventSignature lib a)"
  by (simp add: TeeInstructionsSentEventSignature_def split: option.splits)

lemma row_tags: "result_tags pmw_tags (CheckInstructionConsistency msg a b c)"
  "result_tags pmw_tags (CheckRowConsistency h a' n tx)"
  using CheckInstructionConsistency_InlD [of msg a b c] CheckRowConsistency_InlD [of h a' n tx]
  by (auto simp: result_tags_def)

context sequence_verifier
begin

lemma payment_tags:
  assumes "invar s" and "xrp_lib_foreign xl" and "repo_foreign (xv_Repo x)"
    and "abi_def_foreign (pc_ParsedTeeInstructionsABI (xv_Config x))"
  shows "io_tags pmw_tags (PaymentStatus_Verify xl verify x req) s"
proof -
  have tl: "tee_lib_foreign (xl_tee xl)" using assms(2) by (simp add: xrp_lib_foreign_def)
  have seq: "io_tags pmw_tags (verify a b c d) s" for a b c d
  proof -
    have "only_tags pmw_tags e" if "verify a b c d s = (Inl e, s')" for e s'
      using verify_error [OF assms(1) that] by simp
    then show ?thesis by (cases "verify a b c d s") (auto simp: io_tags_def result_tags_def)
  qed
  show ?thesis
    unfolding PaymentStatus_Verify_def Let_def
    by (intro io_tags_bind io_tags_lift [THEN iffD2] tags_map_error GenerateInstructionID_tags [OF tl]
        fetch_log_tags [OF tl assms(3)] decode_tags [OF tl assms(4)] fetch_tx_tags [OF assms(3)]
        parse_raw_tags [OF assms(2)] build_tags [OF assms(2)] signature_tags row_tags)
       (auto simp: seq)
qed

end

section \<open>A sample deployment\<close>

definition sample_msg :: pay_message where
  "sample_msg = \<lparr>msg_SourceId = 7, msg_SenderAddress = ''rS'', msg_PaymentId = 3, msg_Nonce = 102,
     msg_RecipientAddress = ''rR'', msg_TokenId = [], msg_Amount = Some 500, msg_MaxFee = Some 20,
     msg_PaymentReference = 11\<rparr>"

definition sample_tee :: tee_lib where
  "sample_tee = sample_lib\<lparr>structs_DecodeTo := \<lambda>c b. Inr sample_msg,
     ConvertDatabaseLogToChainLog := \<lambda>l. Inr \<lparr>cl_Topics = [], cl_Data = []\<rparr>,
     Hex32StringToCommonHash := \<lambda>s. Inr 9\<rparr>"

definition sample_raw :: RawTransactionData where
  "sample_raw = \<lparr>raw_Account = ''rS'', raw_TransactionType = ''Payment'', raw_Fee = ''12'',
     raw_Sequence = 102, raw_Hash = ''AB'',
     raw_MetaData = \<lparr>md_TransactionResult = ''tesSUCCESS'',
       md_AffectedNodes = [\<lparr>an_CreatedNode = None, an_ModifiedNode = Some
         \<lparr>mn_LedgerEntryType = ''AccountRoot'',
          mn_FinalFields = Some [''Account'' \<mapsto> JString ''rR'', ''Balance'' \<mapsto> JString ''1500''],
          mn_PreviousFields = Some [''Balance'' \<mapsto> JString ''1000'']\<rparr>\<rparr>]\<rparr>\<rparr>"

definition sample_xrp :: xrp_lib where
  "sample_xrp = \<lparr>xl_tee = sample_tee,
     xl_codec = \<lparr>IsValidXAddress = (\<lambda>_. False), XAddressToClassicAddress = (\<lambda>_. Inl Plain)\<rparr>,
     xl_Unmarshal = (\<lambda>_. Inr sample_raw)\<rparr>"

definition sample_abi :: abi_def where
  "sample_abi = \<lparr>abi_EventID = (\<lambda>_. Some 1),
     abi_UnpackIntoInterface = (\<lambda>_ _. Inr \<lparr>ev_OpType = 5, ev_OpCommand = sample_digest (map byte_of_char ''PAY''),
       ev_Message = []\<rparr>)\<rparr>"

definition sample_cfg :: PMWPaymentStatusConfig where
  "sample_cfg = \<lparr>pc_enc = \<lparr>enc_SourceID = ''XRP'', enc_SourceIDEncoded = 7,
       enc_AttestationType = PMWPaymentStatus, enc_AttestationTypeEncoded = 1, enc_Request = 0,
       enc_Response = 0, enc_DestinationChainSlug = ''flr'', enc_SourceURLSlug = ''xrp''\<rparr>,
     pc_SourceDatabaseURL = '''', pc_CchainDatabaseURL = '''', pc_FlareTeeManagerContractAddress = 1,
     pc_TeePaymentsContractAddress = 2, pc_FlareRPCURL = '''', pc_ParsedTeeInstructionsABI = sample_abi\<rparr>"

definition sample_iid :: hash where
  "sample_iid = Keccak256Hash sample_tee (sample_pack
     [VBytes32 5, VBytes32 (sample_digest (map byte_of_char ''PAY'')), VBytes32 7, VString ''rS'',
      VUint64 3, VUint64 0])"

definition sample_logs :: "db_log list" where
  "sample_logs = [\<lparr>dl_Address = normalizeAddress sample_tee 1,
     dl_Topic0 = removeHexPrefix (Hash_Hex sample_tee 1),
     dl_Topic1 = removeHexPrefix (Hash_Hex sample_tee 0),
     dl_Topic2 = removeHexPrefix (Hash_Hex sample_tee sample_iid), dl_Data = '''', dl_BlockNumber = 4,
     dl_LogIndex = 0, dl_Timestamp = 40\<rparr>]"

definition sample_txs :: "DBTransaction list" where
  "sample_txs = [\<lparr>tx_Hash = ''ab'', tx_BlockNumber = 90, tx_Timestamp = 1000, tx_PaymentReference = '''',
     tx_Response = ''{}'', tx_IsNativePayment = True, tx_SourceAddressesRoot = '''', tx_Sequence = 102,
     tx_TicketSequence = 0, tx_SourceAddress = ''rS''\<rparr>]"

definition sample_verifier :: XRPVerifier where
  "sample_verifier = \<lparr>xv_Repo = NewDBRepo sample_tee
       (\<lambda>q. Inr (apply_limit (tq_limit q) (filter (tx_matches q) sample_txs)))
       (\<lambda>q. Inr (sql_logs sample_logs q)) 1,
     xv_Config = sample_cfg\<rparr>"

definition sample_req :: PaymentStatusRequest where
  "sample_req = \<lparr>psq_OpType = 5, psq_SenderAddress = ''rS'', psq_PaymentId = 3\<rparr>"

lemma sample_serves:
  "serves_logs (xv_Repo sample_verifier) sample_logs" "serves_txs (xv_Repo sample_verifier) sample_txs"
  "repo_up (xv_Repo sample_verifier)"
proof -
  show "serves_txs (xv_Repo sample_verifier) sample_txs"
    unfolding serves_txs_def sample_verifier_def NewDBRepo_def by (metis DBRepo.select_convs(1) XRPVerifier.select_convs(1) sum.inject(2))
qed (auto simp: sample_verifier_def NewDBRepo_def serves_logs_def repo_up_def)

lemma sample_tee_env: "binder_env sample_tee (\<lambda>_ _. 100) sample_caller sample_bstate"
proof -
  have "Hash_Hex sample_tee = Hash_Hex sample_lib" by (simp add: sample_tee_def)
  with sample_env show ?thesis
    by (simp add: binder_env_def hex_ok_def binder_ok_def nonce_of_def nonceKey_def)
qed

lemma sample_fold: "strings_EqualFold ''AB'' ''ab''"
  by code_simp

lemma sample_verify:
  "\<exists>resp s'. PaymentStatus_Verify sample_xrp (VerifySequence sample_tee sample_caller)
     sample_verifier sample_req sample_bstate = (Inr resp, s') \<and>
     psr_ReceivedAmount resp = Some 500 \<and> psr_TransactionStatus resp = 0"
proof -
  let ?row = "hd sample_logs" and ?tx = "hd sample_txs" and ?log = "\<lparr>cl_Topics = [], cl_Data = []\<rparr>"
  have fields: "xl_tee sample_xrp = sample_tee" "enc_SourceIDEncoded (pc_enc (xv_Config sample_verifier)) = 7"
    "pc_ParsedTeeInstructionsABI (xv_Config sample_verifier) = sample_abi"
    "psq_OpType sample_req = 5" "psq_SenderAddress sample_req = ''rS''" "psq_PaymentId sample_req = 3"
    by (simp_all add: sample_xrp_def sample_verifier_def sample_cfg_def sample_req_def)
  have 1: "GenerateInstructionID sample_tee 5 7 ''rS'' 3 = Inr sample_iid"
    by (simp add: GenerateInstructionID_def sample_iid_def sample_tee_def sample_lib_def instruction_args_def)
  have 2: "TeeInstructionsSentEventSignature sample_tee sample_abi = Inr (Hash_Hex sample_tee 1)"
    by (simp add: TeeInstructionsSentEventSignature_def sample_abi_def)
  have "filter (log_matches (instruction_query sample_tee (xv_Repo sample_verifier) (Hash_Hex sample_tee 1)
      [sample_iid] (Some 2))) sample_logs = [?row]"
    by (simp add: sample_logs_def log_matches_def instruction_query_def sample_verifier_def NewDBRepo_def)
  then have 3: "FetchInstructionLog sample_tee (xv_Repo sample_verifier) (Hash_Hex sample_tee 1) sample_iid = Inr ?log"
    using fetch_log_complete [OF sample_serves(3,1)] by (simp add: sample_tee_def)
  have 4: "DecodeTeeInstructionsSentEventData sample_tee ?log sample_abi Pay 5 = Inr sample_msg"
    by (simp add: DecodeTeeInstructionsSentEventData_def decodeInstructionEnvelope_def abiDecodeEventData_def
        sample_abi_def sample_tee_def sample_lib_def maxEventDataSize_def)
  have 5: "CheckInstructionConsistency sample_msg 7 ''rS'' 3 = Inr ()"
    by (simp add: CheckInstructionConsistency_def sample_msg_def)
  have "fst (VerifySequence sample_tee sample_caller 7 ''rS'' 3 102 sample_bstate) = Inr ()"
    by (rule VerifySequence_accepts [OF sample_tee_env]) (simp_all add: caller_up_def sample_caller_def)
  then obtain s' where 6: "VerifySequence sample_tee sample_caller 7 ''rS'' 3 (msg_Nonce sample_msg) sample_bstate = (Inr (), s')"
    by (simp add: sample_msg_def) (metis prod.collapse)
  have 7: "FetchTransactionBySourceAndSequence (xv_Repo sample_verifier) ''rS'' (msg_Nonce sample_msg) = Inr ?tx"
    by (rule fetch_tx_complete [OF sample_serves(3,2)]) (simp add: sample_txs_def sample_msg_def)
  have 8: "parseRawTransactionData sample_xrp (tx_Response ?tx) = Inr sample_raw"
    by (simp add: parseRawTransactionData_def sample_txs_def maxResponseSize_def sample_xrp_def sample_raw_def)
  have 9: "CheckRowConsistency (raw_Hash sample_raw) (raw_Account sample_raw) (raw_Sequence sample_raw) ?tx = Inr ()"
    by (simp add: CheckRowConsistency_ok_iff sample_raw_def sample_txs_def sample_fold)
  have "\<exists>resp. BuildPaymentStatusResponse sample_tee (xl_codec sample_xrp) sample_raw sample_msg ?tx = Inr resp \<and>
      psr_ReceivedAmount resp = Some 500 \<and> psr_TransactionStatus resp = 0"
    by (simp add: BuildPaymentStatusResponse_def sample_raw_def sample_msg_def sample_xrp_def checkDropsBound_def
        ExceedsMaxXRPDrops_def bigint_IsUint64_def bigint_Uint64_def MaxXRPDrops_def getTransactionStatus_def
        ParseNonNegativeBigInt_def maxDropsDigits_def bigint_SetString10_def decimal_value_def digit_value_def
        sample_tee_def NormalizeAddress_def FindReceivedAmountForAddress_def ReceivedAmount_def
        extractFromNode_def extractFromModifiedNode_def getStringField_def extractBalance_def)
  then obtain resp where 10: "BuildPaymentStatusResponse sample_tee (xl_codec sample_xrp) sample_raw sample_msg ?tx = Inr resp"
    and R: "psr_ReceivedAmount resp = Some 500" "psr_TransactionStatus resp = 0" by blast
  have "PaymentStatus_Verify sample_xrp (VerifySequence sample_tee sample_caller)
     sample_verifier sample_req sample_bstate = (Inr resp, s')"
    using 1 2 3 4 5 6 7 8 9 10 by (intro Verify_intro) (simp_all add: fields)
  with R show ?thesis by blast
qed

section \<open>Properties\<close>

text \<open>
  C1. The payment-status verifier attests exactly the payments that meet its contract.
  With both indexers answering queries faithfully and the on-chain nonce readable, \<open>Verify\<close>
  with the on-chain binder returns a response if and only if \<open>payment_spec\<close> holds: one
  instruction event with the request's id, source, sender and payment id, one
  transaction of the sender at sequence \<open>initialNonce + paymentId - 1\<close>, whose JSON agrees
  with its row, and the response built from these. Whatever it returns, the binder stays valid.
\<close>

theorem payment_status_exact:
  assumes "binder_env (xl_tee xl) truth caller s"
    and "serves_logs (xv_Repo x) logs" and "serves_txs (xv_Repo x) txs" and "repo_up (xv_Repo x)"
    and "caller_up caller (enc_SourceIDEncoded (pc_enc (xv_Config x))) (psq_SenderAddress req)"
  shows "fst (PaymentStatus_Verify xl (VerifySequence (xl_tee xl) caller) x req s) = Inr resp \<longleftrightarrow>
    payment_spec xl x truth logs txs req resp"
proof
  assume "fst (PaymentStatus_Verify xl (VerifySequence (xl_tee xl) caller) x req s) = Inr resp"
  then obtain s' where "PaymentStatus_Verify xl (VerifySequence (xl_tee xl) caller) x req s = (Inr resp, s')"
    by (metis prod.collapse)
  from onchain.payment_sound [OF assms(1-3) this]
  show "payment_spec xl x truth logs txs req resp" by blast
next
  assume "payment_spec xl x truth logs txs req resp"
  then show "fst (PaymentStatus_Verify xl (VerifySequence (xl_tee xl) caller) x req s) = Inr resp"
    using onchain.payment_complete [OF assms(4,2,3)] VerifySequence_accepts [OF assms(1,5)] by blast
qed

theorem payment_status_exact_witness:
  "\<exists>resp. psr_ReceivedAmount resp = Some 500 \<and>
     payment_spec sample_xrp sample_verifier (\<lambda>_ _. 100) sample_logs sample_txs sample_req resp"
proof -
  have xl: "xl_tee sample_xrp = sample_tee" by (simp add: sample_xrp_def)
  have up: "caller_up sample_caller a b" for a b by (simp add: caller_up_def sample_caller_def)
  obtain resp where "psr_ReceivedAmount resp = Some 500"
    "fst (PaymentStatus_Verify sample_xrp (VerifySequence sample_tee sample_caller)
       sample_verifier sample_req sample_bstate) = Inr resp"
    using sample_verify by (metis fst_conv)
  then show ?thesis
    using payment_status_exact [of sample_xrp "\<lambda>_ _. 100" sample_caller sample_bstate sample_verifier
        sample_logs sample_txs sample_req resp, unfolded xl, OF sample_tee_env sample_serves up] by blast
qed

text \<open>
  C11. Where each field of a payment-status response comes from. Recipient, token, amount, maximum fee and payment reference are those of the
  instruction; transaction id, block number and block timestamp are those of the indexed row; the transaction fee is the number in the transaction's
  \<open>Fee\<close>; the received amount is the first credit of the normalized recipient among the affected nodes, 0 without one, and a non-zero one is
  the balance increase of one of these nodes. The four amounts lie between 0 and the XRP supply of \<open>10^17\<close> drops. The
  status is success exactly for a \<open>tes\<close> result, with an empty revert reason, and reverted exactly for a \<open>tec\<close> result, with that
  result as the reason; no other result class, no other transaction type than \<open>Payment\<close> and no token is attested.
\<close>

theorem payment_response_content:
  assumes "BuildPaymentStatusResponse lib codec raw msg tx = Inr resp"
  shows "psr_RecipientAddress resp = msg_RecipientAddress msg \<and> psr_TokenId resp = msg_TokenId msg \<and>
    psr_Amount resp = msg_Amount msg \<and> psr_MaxFee resp = msg_MaxFee msg \<and>
    psr_PaymentReference resp = msg_PaymentReference msg \<and>
    Hex32StringToCommonHash lib (tx_Hash tx) = Inr (psr_TransactionId resp) \<and>
    psr_BlockNumber resp = tx_BlockNumber tx \<and> psr_BlockTimestamp resp = tx_Timestamp tx \<and>
    (\<exists>a m f v r aas. psr_Amount resp = Some a \<and> 0 \<le> a \<and> a \<le> 10 ^ 17 \<and>
      psr_MaxFee resp = Some m \<and> 0 \<le> m \<and> m \<le> 10 ^ 17 \<and>
      psr_TransactionFee resp = Some f \<and> ParseNonNegativeBigInt (raw_Fee raw) = Inr f \<and> 0 \<le> f \<and> f \<le> 10 ^ 17 \<and>
      psr_ReceivedAmount resp = Some v \<and> 0 \<le> v \<and> v \<le> 10 ^ 17 \<and>
      NormalizeAddress codec (msg_RecipientAddress msg) = Inr r \<and>
      mapM extractFromNode (md_AffectedNodes (raw_MetaData raw)) = Inr aas \<and>
      v = (case map_of (node_credits aas) r of None \<Rightarrow> 0 | Some w \<Rightarrow> w) \<and>
      (v \<noteq> 0 \<longrightarrow> (\<exists>node \<in> set (md_AffectedNodes (raw_MetaData raw)). extractFromNode node = Inr (Some (r, v))))) \<and>
    (psr_TransactionStatus resp = 0 \<longleftrightarrow> take 3 (md_TransactionResult (raw_MetaData raw)) = ''tes'') \<and>
    (psr_TransactionStatus resp = 1 \<longleftrightarrow> take 3 (md_TransactionResult (raw_MetaData raw)) = ''tec'') \<and>
    psr_TransactionStatus resp \<in> {0, 1} \<and>
    psr_RevertReason resp = (if psr_TransactionStatus resp = 0 then '''' else md_TransactionResult (raw_MetaData raw)) \<and>
    (psr_RevertReason resp = '''' \<longleftrightarrow> psr_TransactionStatus resp = 0) \<and>
    raw_TransactionType raw = ''Payment'' \<and> psr_TokenId resp = []"
proof -
  from BuildPaymentStatusResponse_InrD [OF assms] obtain st fee h rec amt a m where
    P: "raw_TransactionType raw = ''Payment''" "msg_TokenId msg = []"
      "getTransactionStatus (md_TransactionResult (raw_MetaData raw)) = Inr st"
      "ParseNonNegativeBigInt (raw_Fee raw) = Inr fee" "0 \<le> fee" "fee \<le> 10 ^ 17"
      "NormalizeAddress codec (msg_RecipientAddress msg) = Inr rec"
      "Hex32StringToCommonHash lib (tx_Hash tx) = Inr h"
      "msg_Amount msg = Some a" "0 \<le> a" "a \<le> 10 ^ 17" "msg_MaxFee msg = Some m" "0 \<le> m" "m \<le> 10 ^ 17" and
    F: "FindReceivedAmountForAddress (Some (raw_MetaData raw)) rec = Inr amt" and
    R: "resp = \<lparr>psr_RecipientAddress = msg_RecipientAddress msg, psr_TokenId = msg_TokenId msg,
         psr_Amount = msg_Amount msg, psr_MaxFee = msg_MaxFee msg,
         psr_PaymentReference = msg_PaymentReference msg, psr_TransactionStatus = status_uint8 st,
         psr_RevertReason = (if st \<noteq> Success then md_TransactionResult (raw_MetaData raw) else ''''),
         psr_ReceivedAmount = Some amt, psr_TransactionFee = Some fee, psr_TransactionId = h,
         psr_BlockNumber = tx_BlockNumber tx, psr_BlockTimestamp = tx_Timestamp tx\<rparr>"
    unfolding checkDropsBound_ok_iff by blast
  obtain aas where aas: "mapM extractFromNode (md_AffectedNodes (raw_MetaData raw)) = Inr aas"
    "amt = (case map_of (node_credits aas) rec of None \<Rightarrow> 0 | Some w \<Rightarrow> w)" using F unfolding FindReceived_ok_iff by blast
  note amt = FindReceived_bounds [OF F] FindReceived_credit [OF F]
  have ne: "md_TransactionResult (raw_MetaData raw) \<noteq> ''''"
    using P(3) by (auto simp: getTransactionStatus_ok_iff)
  have st: "status_uint8 st = 0 \<longleftrightarrow> take 3 (md_TransactionResult (raw_MetaData raw)) = ''tes''"
    "status_uint8 st = 1 \<longleftrightarrow> take 3 (md_TransactionResult (raw_MetaData raw)) = ''tec''"
    "st = Success \<longleftrightarrow> status_uint8 st = 0" "status_uint8 st \<in> {0, 1}"
    using P(3) by (cases st; auto simp: getTransactionStatus_ok_iff)+
  have "\<exists>a m f v r aas. psr_Amount resp = Some a \<and> 0 \<le> a \<and> a \<le> 10 ^ 17 \<and>
      psr_MaxFee resp = Some m \<and> 0 \<le> m \<and> m \<le> 10 ^ 17 \<and>
      psr_TransactionFee resp = Some f \<and> ParseNonNegativeBigInt (raw_Fee raw) = Inr f \<and> 0 \<le> f \<and> f \<le> 10 ^ 17 \<and>
      psr_ReceivedAmount resp = Some v \<and> 0 \<le> v \<and> v \<le> 10 ^ 17 \<and>
      NormalizeAddress codec (msg_RecipientAddress msg) = Inr r \<and>
      mapM extractFromNode (md_AffectedNodes (raw_MetaData raw)) = Inr aas \<and>
      v = (case map_of (node_credits aas) r of None \<Rightarrow> 0 | Some w \<Rightarrow> w) \<and>
      (v \<noteq> 0 \<longrightarrow> (\<exists>node \<in> set (md_AffectedNodes (raw_MetaData raw)). extractFromNode node = Inr (Some (r, v))))"
    by (intro exI [of _ a] exI [of _ m] exI [of _ fee] exI [of _ amt] exI [of _ rec] exI [of _ aas])
       (use P aas amt in \<open>simp add: R\<close>)
  moreover have "psr_RecipientAddress resp = msg_RecipientAddress msg \<and> psr_TokenId resp = msg_TokenId msg \<and>
    psr_Amount resp = msg_Amount msg \<and> psr_MaxFee resp = msg_MaxFee msg \<and>
    psr_PaymentReference resp = msg_PaymentReference msg \<and>
    Hex32StringToCommonHash lib (tx_Hash tx) = Inr (psr_TransactionId resp) \<and>
    psr_BlockNumber resp = tx_BlockNumber tx \<and> psr_BlockTimestamp resp = tx_Timestamp tx" using P by (simp add: R)
  ultimately show ?thesis using P st ne by (intro conjI; (elim conjE)?) (assumption | simp add: R)+
qed

theorem payment_response_content_witness:
  "\<exists>resp. BuildPaymentStatusResponse sample_tee (xl_codec sample_xrp) sample_raw sample_msg (hd sample_txs) = Inr resp \<and>
     psr_RecipientAddress resp = ''rR'' \<and> psr_Amount resp = Some 500 \<and> psr_MaxFee resp = Some 20 \<and> psr_PaymentReference resp = 11 \<and>
     psr_BlockNumber resp = 90 \<and> psr_TransactionStatus resp = 0 \<and> psr_RevertReason resp = ''''"
proof -
  have "\<exists>resp. BuildPaymentStatusResponse sample_tee (xl_codec sample_xrp) sample_raw sample_msg (hd sample_txs) = Inr resp"
    by (simp add: BuildPaymentStatusResponse_def sample_raw_def sample_msg_def sample_xrp_def checkDropsBound_def
        ExceedsMaxXRPDrops_def bigint_IsUint64_def bigint_Uint64_def MaxXRPDrops_def getTransactionStatus_def
        ParseNonNegativeBigInt_def maxDropsDigits_def bigint_SetString10_def decimal_value_def digit_value_def
        sample_tee_def NormalizeAddress_def FindReceivedAmountForAddress_def ReceivedAmount_def
        extractFromNode_def extractFromModifiedNode_def getStringField_def extractBalance_def)
  then obtain resp where r: "BuildPaymentStatusResponse sample_tee (xl_codec sample_xrp) sample_raw sample_msg (hd sample_txs) = Inr resp"
    by blast
  have fields: "msg_RecipientAddress sample_msg = ''rR''" "msg_Amount sample_msg = Some 500" "msg_MaxFee sample_msg = Some 20"
    "msg_PaymentReference sample_msg = 11" "tx_BlockNumber (hd sample_txs) = 90"
    "take 3 (md_TransactionResult (raw_MetaData sample_raw)) = ''tes''"
    by (simp_all add: sample_msg_def sample_txs_def sample_raw_def)
  from payment_response_content [OF r, unfolded fields] r show ?thesis by blast
qed

text \<open>
  C12. The received amount never needs the final bound check. Every credit extracted from a
  transaction is already between 0 and the XRP supply, so after the balance checks
  \<open>checkDropsBound\<close> accepts every amount \<open>FindReceivedAmountForAddress\<close> returns, and the
  loop with early returns computes the first credit of the address among the credits of all nodes.
\<close>

theorem received_amount_reference:
  "FindReceivedAmountForAddress (Some md) a = Inr v \<longleftrightarrow>
     (\<exists>aas. mapM extractFromNode (md_AffectedNodes md) = Inr aas \<and>
        v = (case map_of (node_credits aas) a of None \<Rightarrow> 0 | Some w \<Rightarrow> w) \<and>
        checkDropsBound (Some v) = Inr ())"
  using FindReceived_ok_iff [of md a v] FindReceived_bounds [of md a v]
  by (auto simp: checkDropsBound_ok_iff)

end
