(* ===== verification/Fee_Proof.thy ===== *)
theory Fee_Proof
  imports Payment_Status
begin

text \<open>
  \<open>internal/attestation/pmwfeeproof/xrp/verifier.go\<close>: the fee-proof verifier. For a batch of
  consecutive payments it adds up the fees the instructions allowed (each payment's maximum
  fee plus what its reissues added) and the fees the ledger transactions paid.

  The scan over reissues is a loop with a cap, here a terminating recursion on the 64-bit reissue
  number; the sums are unbounded integers as \<open>big.Int\<close> is. As in \<open>Payment_Status\<close>, the sequence
  check is an argument and the client lemmas are proved in the locale \<open>sequence_verifier\<close>.
  \<open>unat BatchCount\<close> stands for \<open>int(req.BatchCount)\<close>, equal for every count below
  \<open>2^63\<close>, in particular for every count the default cap admits.
\<close>

section \<open>Data\<close>

definition MaxBatchRange :: u64 where "MaxBatchRange = 200"
definition MaxReissuesPerPayment :: u64 where "MaxReissuesPerPayment = 32"

record FeeProofRequest =
  fq_OpType :: hash
  fq_SenderAddress :: string
  fq_FirstPaymentId :: u64
  fq_BatchCount :: u64
  fq_UntilTimestamp :: u64

record FeeProofResponse =
  fr_LastPaymentId :: u64
  fr_ActualFee :: int
  fr_EstimatedFee :: int

record tx_identity =
  id_Account :: string
  id_Sequence :: u64
  id_Hash :: string

record fee_lib =
  fl_tee :: tee_lib
  fl_UnmarshalIdentity :: "string \<Rightarrow> tx_identity result"
  fl_UnmarshalFee :: "string \<Rightarrow> string result"

record FeeProofVerifier =
  fv_Repo :: DBRepo
  fv_Config :: PMWFeeProofConfig
  fv_maxBatchRange :: u64

abbreviation fv_source :: "FeeProofVerifier \<Rightarrow> hash" where
  "fv_source x \<equiv> enc_SourceIDEncoded (pc_enc (fv_Config x))"

section \<open>Batch bounds\<close>

definition validateBatchRange :: "FeeProofVerifier \<Rightarrow> FeeProofRequest \<Rightarrow> unit result" where
  "validateBatchRange x req =
     (if fq_BatchCount req = 0 then Inl (tag ErrBatchRangeTooLarge)
      else let maxBatch = (if fv_maxBatchRange x = 0 then MaxBatchRange else fv_maxBatchRange x)
           in if fq_BatchCount req > maxBatch then Inl (tag ErrBatchRangeTooLarge)
              else if fq_FirstPaymentId req > math_MaxUint64 - (fq_BatchCount req - 1)
              then Inl (tag ErrBatchRangeTooLarge)
              else Inr ())"

section \<open>Estimated fee\<close>

text \<open>
  The reissue event with a given number, if it exists within the window; \<open>None\<close> ends the
  scan. The same three steps, with the same errors, serve the scan and the probe after it.
\<close>

definition fetchReissue ::
  "fee_lib \<Rightarrow> FeeProofVerifier \<Rightarrow> FeeProofRequest \<Rightarrow> string \<Rightarrow> u64 \<Rightarrow> u64 \<Rightarrow>
   InstructionLogResult option result" where
  "fetchReissue fl x req eventHash paymentId reissueNum =
     rbind (map_error wrap1 (GenerateReissueInstructionID (fl_tee fl) (fq_OpType req) (fv_source x)
              (fq_SenderAddress req) paymentId reissueNum)) (\<lambda>reissueID.
     case FetchInstructionLogTS (fl_tee fl) (fv_Repo x) eventHash reissueID of
       Inl err \<Rightarrow> if errors_Is err ErrRecordNotFound then Inr None else Inl (wrap1 err)
     | Inr reissueResult \<Rightarrow>
         if ilr_BlockTimestamp reissueResult > fq_UntilTimestamp req then Inr None
         else Inr (Some reissueResult))"

definition reissueMaxFee ::
  "fee_lib \<Rightarrow> FeeProofVerifier \<Rightarrow> FeeProofRequest \<Rightarrow> u64 \<Rightarrow> chain_log \<Rightarrow> int result" where
  "reissueMaxFee fl x req paymentId log =
     rbind (map_error wrap1 (DecodeTeeInstructionsSentEventData (fl_tee fl) log
              (pc_ParsedTeeInstructionsABI (fv_Config x)) Reissue (fq_OpType req))) (\<lambda>reissueMessage.
     rbind (map_error wrap1 (CheckInstructionConsistency reissueMessage (fv_source x)
              (fq_SenderAddress req) paymentId)) (\<lambda>_.
     case msg_MaxFee reissueMessage of
       None \<Rightarrow> Inl (tag ErrDatabase)
     | Some maxFee \<Rightarrow> if ExceedsMaxXRPDrops (Some maxFee) then Inl (tag ErrDatabase) else Inr maxFee))"

definition reissueFeeAt ::
  "fee_lib \<Rightarrow> FeeProofVerifier \<Rightarrow> FeeProofRequest \<Rightarrow> string \<Rightarrow> u64 \<Rightarrow> u64 \<Rightarrow> int option result" where
  "reissueFeeAt fl x req eventHash paymentId reissueNum =
     rbind (fetchReissue fl x req eventHash paymentId reissueNum) (\<lambda>r.
     case r of
       None \<Rightarrow> Inr None
     | Some res \<Rightarrow> rbind (reissueMaxFee fl x req paymentId (ilr_Log res)) (\<lambda>maxFee. Inr (Some maxFee)))"

lemma unat_next_reissue: "n \<le> MaxReissuesPerPayment \<Longrightarrow> unat (n + 1) = Suc (unat n)"
proof -
  assume "n \<le> MaxReissuesPerPayment"
  then have "unat n \<le> 32" unfolding word_le_nat_alt MaxReissuesPerPayment_def by simp
  then show ?thesis by (simp add: unat_word_ariths)
qed

lemma le_cap_iff: "n \<le> MaxReissuesPerPayment \<longleftrightarrow> unat n \<le> 32"
  unfolding word_le_nat_alt MaxReissuesPerPayment_def by simp

text \<open>The scan: the new sum and whether it ended before the cap (\<open>terminatedEarly\<close>).\<close>

function reissueLoop :: "(u64 \<Rightarrow> int option result) \<Rightarrow> int \<Rightarrow> u64 \<Rightarrow> int \<Rightarrow> (bool \<times> int) result" where
  "reissueLoop feeAt payMaxFee reissueNum estimatedFee =
     (if reissueNum \<le> MaxReissuesPerPayment then
        rbind (feeAt reissueNum) (\<lambda>r.
        case r of
          None \<Rightarrow> Inr (True, estimatedFee)
        | Some maxFee \<Rightarrow>
            (let residual = maxFee - payMaxFee
             in reissueLoop feeAt payMaxFee (reissueNum + 1)
                  (if residual > 0 then estimatedFee + residual else estimatedFee)))
      else Inr (False, estimatedFee))"
  by pat_completeness auto

termination
proof (relation "measure (\<lambda>(_, _, n, _). 33 - unat n)")
  fix n :: u64
  assume "n \<le> MaxReissuesPerPayment"
  then show "((a, b, n + 1, d), a', b', n, d') \<in> measure (\<lambda>(_, _, n, _). 33 - unat n)" for a b d a' b' d'
    using unat_next_reissue [of n] by (simp add: le_cap_iff)
qed simp

declare reissueLoop.simps [simp del]

definition paymentEstimatedFee ::
  "fee_lib \<Rightarrow> FeeProofVerifier \<Rightarrow> FeeProofRequest \<Rightarrow> string \<Rightarrow> u64 \<Rightarrow> int \<Rightarrow> int \<Rightarrow> int result" where
  "paymentEstimatedFee fl x req eventHash paymentId payMaxFee estimatedFee =
     rbind (reissueLoop (reissueFeeAt fl x req eventHash paymentId) payMaxFee 1 (estimatedFee + payMaxFee))
       (\<lambda>(terminatedEarly, estimatedFee').
     if terminatedEarly then Inr estimatedFee'
     else rbind (fetchReissue fl x req eventHash paymentId (MaxReissuesPerPayment + 1)) (\<lambda>nextResult.
          case nextResult of
            None \<Rightarrow> Inr estimatedFee'
          | Some _ \<Rightarrow> Inl (tag ErrReissueLimitExceeded)))"

text \<open>One iteration of the loop over payments, then the loop.\<close>

definition decodePay ::
  "fee_lib \<Rightarrow> FeeProofVerifier \<Rightarrow> FeeProofRequest \<Rightarrow> (hash \<rightharpoonup> chain_log) \<Rightarrow> u64 \<Rightarrow> hash \<Rightarrow> pay_message result" where
  "decodePay fl x req payLogs paymentId payID =
     (case payLogs payID of
        None \<Rightarrow> Inl (tag ErrMissingPayEvent)
      | Some payLog \<Rightarrow>
          rbind (map_error wrap1 (DecodeTeeInstructionsSentEventData (fl_tee fl) payLog
                   (pc_ParsedTeeInstructionsABI (fv_Config x)) Pay (fq_OpType req))) (\<lambda>payMessage.
          rbind (map_error wrap1 (CheckInstructionConsistency payMessage (fv_source x)
                   (fq_SenderAddress req) paymentId)) (\<lambda>_.
          Inr payMessage)))"

definition checkPayMaxFee :: "pay_message \<Rightarrow> int result" where
  "checkPayMaxFee payMessage =
     (case msg_MaxFee payMessage of
        None \<Rightarrow> Inl (tag ErrDatabase)
      | Some payMaxFee \<Rightarrow>
          if ExceedsMaxXRPDrops (Some payMaxFee) then Inl (tag ErrDatabase) else Inr payMaxFee)"

fun computeEstimatedFee ::
  "fee_lib \<Rightarrow> 's seq_verifier \<Rightarrow> FeeProofVerifier \<Rightarrow> FeeProofRequest \<Rightarrow> string \<Rightarrow> (hash \<rightharpoonup> chain_log) \<Rightarrow>
   (u64 \<times> hash) list \<Rightarrow> int \<Rightarrow> u64 list \<Rightarrow> ('s, goerr, int \<times> u64 list) io" where
  "computeEstimatedFee fl vs x req eventHash payLogs [] estimatedFee sequences =
     io_return (estimatedFee, sequences)"
| "computeEstimatedFee fl vs x req eventHash payLogs ((paymentId, payID) # rest) estimatedFee sequences =
     io_bind (io_lift (decodePay fl x req payLogs paymentId payID)) (\<lambda>payMessage.
     io_bind (io_map_error wrap1 (vs (fv_source x) (fq_SenderAddress req) paymentId (msg_Nonce payMessage))) (\<lambda>_.
     io_bind (io_lift (checkPayMaxFee payMessage)) (\<lambda>payMaxFee.
     io_bind (io_lift (paymentEstimatedFee fl x req eventHash paymentId payMaxFee estimatedFee)) (\<lambda>estimatedFee'.
     computeEstimatedFee fl vs x req eventHash payLogs rest estimatedFee'
       (sequences @ [msg_Nonce payMessage])))))"

section \<open>Actual fee\<close>

definition checkTxRowConsistency :: "fee_lib \<Rightarrow> DBTransaction \<Rightarrow> unit result" where
  "checkTxRowConsistency fl tx =
     (if length (tx_Response tx) > maxResponseSize then Inl (tag ErrDatabase)
      else rbind (map_error (tag_with ErrDataSource) (fl_UnmarshalIdentity fl (tx_Response tx))) (\<lambda>i.
           CheckRowConsistency (id_Hash i) (id_Account i) (id_Sequence i) tx))"

definition parseTxFee :: "fee_lib \<Rightarrow> string \<Rightarrow> int result" where
  "parseTxFee fl response =
     (if length response > maxResponseSize then Inl (tag ErrDatabase)
      else rbind (map_error (tag_with ErrDataSource) (fl_UnmarshalFee fl response)) (\<lambda>Fee.
           if Fee = '''' then Inl (tag ErrDataSource)
           else rbind (map_error (tag_with ErrDataSource) (ParseNonNegativeBigInt Fee)) (\<lambda>fee.
                if ExceedsMaxXRPDrops (Some fee) then Inl (tag ErrDatabase) else Inr fee)))"

fun actual_loop ::
  "fee_lib \<Rightarrow> (u64 \<rightharpoonup> DBTransaction) \<Rightarrow> u64 list \<Rightarrow> int \<Rightarrow> int result" where
  "actual_loop fl txMap [] actualFee = Inr actualFee"
| "actual_loop fl txMap (sequence # rest) actualFee =
     (case txMap sequence of
        None \<Rightarrow> Inl (tag ErrMissingTransaction)
      | Some tx \<Rightarrow>
          rbind (map_error wrap1 (checkTxRowConsistency fl tx)) (\<lambda>_.
          rbind (map_error wrap1 (parseTxFee fl (tx_Response tx))) (\<lambda>fee.
          actual_loop fl txMap rest (actualFee + fee))))"

definition computeActualFee ::
  "fee_lib \<Rightarrow> FeeProofVerifier \<Rightarrow> string \<Rightarrow> u64 list \<Rightarrow> int result" where
  "computeActualFee fl x senderAddress sequences =
     rbind (map_error wrap1 (FetchTransactionsBySourceAndSequences (fv_Repo x) senderAddress sequences))
       (\<lambda>txMap. actual_loop fl txMap sequences 0)"

section \<open>The verifier\<close>

text \<open>\<open>(*big.Int).BitLen\<close>.\<close>

fun nat_bits :: "nat \<Rightarrow> nat" where
  "nat_bits n = (if n = 0 then 0 else Suc (nat_bits (n div 2)))"

declare nat_bits.simps [simp del]

definition bigint_BitLen :: "int \<Rightarrow> nat" where
  "bigint_BitLen v = nat_bits (nat \<bar>v\<bar>)"

text \<open>
  The slices of ids are allocated before the loop over \<open>int(req.BatchCount)\<close>; the allocation already panics for a count of \<open>2^63\<close> or more, which the default
  cap of 200 excludes, so the count is read as the number it is.
\<close>

definition batchPaymentIDs :: "FeeProofRequest \<Rightarrow> u64 list" where
  "batchPaymentIDs req =
     map (\<lambda>i. fq_FirstPaymentId req + word_of_nat i) [0..<unat (fq_BatchCount req)]"

definition FeeProof_Verify ::
  "fee_lib \<Rightarrow> 's seq_verifier \<Rightarrow> FeeProofVerifier \<Rightarrow> FeeProofRequest \<Rightarrow> ('s, goerr, FeeProofResponse) io" where
  "FeeProof_Verify fl vs x req =
     io_bind (io_lift (validateBatchRange x req)) (\<lambda>_.
     io_bind (io_lift (TeeInstructionsSentEventSignature (fl_tee fl)
       (pc_ParsedTeeInstructionsABI (fv_Config x)))) (\<lambda>eventHash.
     io_bind (io_lift (mapM (\<lambda>paymentId. map_error wrap1
       (GeneratePayInstructionID (fl_tee fl) (fq_OpType req) (fv_source x) (fq_SenderAddress req) paymentId))
       (batchPaymentIDs req))) (\<lambda>payIDs.
     io_bind (io_lift (map_error wrap1
       (FetchInstructionLogs (fl_tee fl) (fv_Repo x) eventHash payIDs))) (\<lambda>payLogs.
     io_bind (computeEstimatedFee fl vs x req eventHash payLogs (zip (batchPaymentIDs req) payIDs) 0 [])
       (\<lambda>(estimatedFee, sequences).
     io_bind (io_lift (computeActualFee fl x (fq_SenderAddress req) sequences)) (\<lambda>actualFee.
     if bigint_BitLen estimatedFee > 256 \<or> bigint_BitLen actualFee > 256
     then io_lift (Inl (tag ErrDatabase))
     else io_return \<lparr>fr_LastPaymentId = fq_FirstPaymentId req + fq_BatchCount req - 1,
                     fr_ActualFee = actualFee, fr_EstimatedFee = estimatedFee\<rparr>))))))"

definition NewFeeProofVerifier ::
  "tee_lib \<Rightarrow> PMWFeeProofConfig \<Rightarrow> (tx_query \<Rightarrow> DBTransaction list result) \<Rightarrow>
   (log_query \<Rightarrow> db_log list result) \<Rightarrow> unit result \<Rightarrow> unit result \<Rightarrow>
   (FeeProofVerifier \<times> Binder) result \<times> bool" where
  "NewFeeProofVerifier lib cfg xrpDB cChainDB dial newCaller =
     (case NewOnChainBinder dial newCaller of
        (Inl err, open) \<Rightarrow> (Inl (wrap1 err), open)
      | (Inr binder, open) \<Rightarrow>
          (Inr (\<lparr>fv_Repo = NewDBRepo lib xrpDB cChainDB (pc_FlareTeeManagerContractAddress cfg),
                 fv_Config = cfg, fv_maxBatchRange = 0\<rparr>, binder), open))"

definition FeeProofVerifier_Close :: "Binder \<Rightarrow> Binder" where
  "FeeProofVerifier_Close binder = binder_Close binder"

section \<open>Lemmas: batch bounds\<close>

lemma validateBatchRange_ok_iff:
  "validateBatchRange x req = Inr () \<longleftrightarrow>
     0 < unat (fq_BatchCount req) \<and>
     unat (fq_BatchCount req) \<le> (if fv_maxBatchRange x = 0 then 200 else unat (fv_maxBatchRange x)) \<and>
     unat (fq_FirstPaymentId req) + unat (fq_BatchCount req) - 1 < 2 ^ 64"
proof -
  let ?c = "fq_BatchCount req" and ?f = "fq_FirstPaymentId req"
  have guard: "?f > - 1 - (?c - 1) \<longleftrightarrow> 2 ^ 64 \<le> unat ?f + unat ?c - 1" if "?c \<noteq> 0"
    using that unat_pos_iff [of ?c] unfolding add_guard_iff by (auto simp: unat_sub_one)
  have cap: "?c > (if fv_maxBatchRange x = 0 then MaxBatchRange else fv_maxBatchRange x) \<longleftrightarrow>
      \<not> unat ?c \<le> (if fv_maxBatchRange x = 0 then 200 else unat (fv_maxBatchRange x))"
    by (simp add: word_less_nat_alt MaxBatchRange_def not_le)
  show ?thesis
  proof (cases "?c = 0")
    case True
    then show ?thesis by (simp add: validateBatchRange_def)
  next
    case False
    then show ?thesis
      unfolding validateBatchRange_def Let_def cap math_MaxUint64_eq guard [OF False]
      using unat_pos_iff [of ?c] by (auto split: if_splits)
  qed
qed

lemma length_batchPaymentIDs [simp]: "length (batchPaymentIDs req) = unat (fq_BatchCount req)"
  by (simp add: batchPaymentIDs_def)

lemma unat_batchPaymentIDs:
  assumes "validateBatchRange x req = Inr ()" and "i < unat (fq_BatchCount req)"
  shows "unat (batchPaymentIDs req ! i) = unat (fq_FirstPaymentId req) + i"
proof -
  have "unat (fq_FirstPaymentId req) + i < 2 ^ 64"
    using assms by (auto simp: validateBatchRange_ok_iff)
  moreover from this have "unat (word_of_nat i :: u64) = i" by (simp add: unat_of_nat)
  ultimately show ?thesis using assms(2) by (simp add: batchPaymentIDs_def unat_word_ariths)
qed

section \<open>Lemmas: estimated fee\<close>

text \<open>
  The reference: with maximum fee \<open>p\<close> of the payment and \<open>rs\<close> of its reissues in the
  window, the payment may cost \<open>p\<close> plus what each reissue added over \<open>p\<close>.
\<close>

definition payment_total :: "int \<Rightarrow> int list \<Rightarrow> int" where
  "payment_total p rs = p + (\<Sum>r\<leftarrow>rs. max 0 (r - p))"

text \<open>\<open>rs\<close> are the fees of exactly the reissues \<open>1, ..., length rs\<close>, and there is no next one.\<close>

definition reissues_of ::
  "fee_lib \<Rightarrow> FeeProofVerifier \<Rightarrow> FeeProofRequest \<Rightarrow> string \<Rightarrow> u64 \<Rightarrow> int list \<Rightarrow> bool" where
  "reissues_of fl x req ev pid rs \<longleftrightarrow>
     length rs \<le> 32 \<and>
     (\<forall>i < length rs. reissueFeeAt fl x req ev pid (word_of_nat (Suc i)) = Inr (Some (rs ! i))) \<and>
     fetchReissue fl x req ev pid (word_of_nat (Suc (length rs))) = Inr None"

text \<open>What a scan of the reissues from number \<open>n\<close> has found: the fees of a run of reissues, up to a missing one or the cap.\<close>

definition scanned :: "(u64 \<Rightarrow> int option result) \<Rightarrow> int \<Rightarrow> u64 \<Rightarrow> int \<Rightarrow> bool \<Rightarrow> int \<Rightarrow> int list \<Rightarrow> bool" where
  "scanned f p n fee early fee' rs \<longleftrightarrow> fee' = fee + (\<Sum>r\<leftarrow>rs. max 0 (r - p)) \<and>
     (\<forall>i < length rs. f (n + word_of_nat i) = Inr (Some (rs ! i))) \<and>
     (if early then unat n + length rs \<le> 32 \<and> f (n + word_of_nat (length rs)) = Inr None
      else unat n + length rs = 33)"

lemma scanned_Cons:
  assumes "scanned f p (n + 1) (if m - p > 0 then fee + (m - p) else fee) early fee' rs"
    and "f n = Inr (Some m)" and un: "unat (n + 1) = unat n + 1"
  shows "scanned f p n fee early fee' (m # rs)"
proof -
  have "f (n + word_of_nat i) = Inr (Some ((m # rs) ! i))" if "i < length (m # rs)" for i
    using that assms(1,2) by (cases i) (simp_all add: scanned_def add.assoc)
  then show ?thesis
    using assms(1) un unfolding scanned_def by (auto simp: add.assoc split: if_splits)
qed

lemma reissueLoop_scanned:
  "reissueLoop f p n fee = Inr (early, fee') \<Longrightarrow> unat n \<le> 33 \<Longrightarrow> \<exists>rs. scanned f p n fee early fee' rs"
proof (induction f p n fee arbitrary: early fee' rule: reissueLoop.induct)
  case (1 f p n fee)
  consider "\<not> n \<le> MaxReissuesPerPayment" | (none) "n \<le> MaxReissuesPerPayment" "f n = Inr None"
    | (some) m where "n \<le> MaxReissuesPerPayment" "f n = Inr (Some m)"
    using "1.prems"(1) by (cases "f n"; cases "projr (f n)") (auto simp: reissueLoop.simps [of f p n fee] result_simps split: if_splits)
  then show ?case
  proof cases
    case 1
    with "1.prems" have "scanned f p n fee early fee' []"
      by (auto simp: reissueLoop.simps [of f p n fee] le_cap_iff scanned_def)
    then show ?thesis by blast
  next
    case none
    with "1.prems" have "scanned f p n fee early fee' []"
      by (auto simp: reissueLoop.simps [of f p n fee] le_cap_iff scanned_def)
    then show ?thesis by blast
  next
    case some
    let ?fee = "if m - p > 0 then fee + (m - p) else fee"
    have rec: "reissueLoop f p (n + 1) ?fee = Inr (early, fee')"
      using some "1.prems"(1) by (simp add: reissueLoop.simps [of f p n fee] Let_def)
    note un = unat_next_reissue [OF some(1)]
    with some(1) have "unat (n + 1) \<le> 33" by (simp add: le_cap_iff)
    from "1.IH" [OF some(1,2) refl refl rec this] obtain rs where "scanned f p (n + 1) ?fee early fee' rs" ..
    then have "scanned f p n fee early fee' (m # rs)" by (rule scanned_Cons) (simp_all add: some(2) un)
    then show ?thesis ..
  qed
qed

lemma reissueLoop_InrD:
  "reissueLoop f p n fee = Inr (early, fee') \<Longrightarrow> unat n \<le> 33 \<Longrightarrow>
     \<exists>rs. fee' = fee + (\<Sum>r\<leftarrow>rs. max 0 (r - p)) \<and>
       (\<forall>i < length rs. f (n + word_of_nat i) = Inr (Some (rs ! i))) \<and>
       (if early then unat n + length rs \<le> 32 \<and> f (n + word_of_nat (length rs)) = Inr None
        else unat n + length rs = 33)"
  using reissueLoop_scanned unfolding scanned_def by blast

lemma reissueFeeAt_None:
  "reissueFeeAt fl x req ev pid n = Inr None \<longleftrightarrow> fetchReissue fl x req ev pid n = Inr None"
  by (auto simp: reissueFeeAt_def result_simps split: option.splits)

lemma reissueFeeAt_bounds: "reissueFeeAt fl x req ev pid n = Inr (Some v) \<Longrightarrow> 0 \<le> v \<and> v \<le> 10 ^ 17"
  using ExceedsMaxXRPDrops_Some
  by (auto simp: reissueFeeAt_def reissueMaxFee_def result_simps split: option.splits if_splits)

lemma checkPayMaxFee_ok_iff:
  "checkPayMaxFee m = Inr p \<longleftrightarrow> msg_MaxFee m = Some p \<and> 0 \<le> p \<and> p \<le> 10 ^ 17"
  using ExceedsMaxXRPDrops_Some by (auto simp: checkPayMaxFee_def split: option.splits)

lemma paymentEstimatedFee_InrD:
  assumes "paymentEstimatedFee fl x req ev pid p fee = Inr fee'"
  shows "\<exists>rs. reissues_of fl x req ev pid rs \<and> fee' = fee + payment_total p rs"
proof -
  let ?f = "reissueFeeAt fl x req ev pid"
  from assms obtain early fee'' where L: "reissueLoop ?f p 1 (fee + p) = Inr (early, fee'')"
    and rest: "fee' = fee''" "\<not> early \<Longrightarrow> fetchReissue fl x req ev pid 33 = Inr None"
    by (auto simp: paymentEstimatedFee_def result_simps MaxReissuesPerPayment_def
        split: if_splits option.splits)
  have one: "unat (1 :: u64) = 1" by simp
  have "(1 :: nat) \<le> 33" by simp
  from reissueLoop_InrD [OF L, unfolded one, OF this] obtain rs where rs:
    "fee'' = fee + p + (\<Sum>r\<leftarrow>rs. max 0 (r - p))"
    "\<forall>i < length rs. ?f (1 + word_of_nat i) = Inr (Some (rs ! i))"
    "if early then 1 + length rs \<le> 32 \<and> ?f (1 + word_of_nat (length rs)) = Inr None
     else 1 + length rs = 33"
    by blast
  have "reissues_of fl x req ev pid rs"
    using rs(2,3) rest(2) by (cases early) (auto simp: reissues_of_def reissueFeeAt_None)
  moreover have "fee' = fee + payment_total p rs" using rs(1) rest(1) by (simp add: payment_total_def)
  ultimately show ?thesis by blast
qed

lemma payment_total_bounds:
  assumes "0 \<le> p" "p \<le> 10 ^ 17" "length rs \<le> 32" "\<And>r. r \<in> set rs \<Longrightarrow> r \<le> 10 ^ 17"
  shows "0 \<le> payment_total p rs \<and> payment_total p rs \<le> 33 * 10 ^ 17"
proof -
  have "(\<Sum>r\<leftarrow>rs. max 0 (r - p)) \<le> (\<Sum>r\<leftarrow>rs. 10 ^ 17)"
    using assms by (intro sum_list_mono) (smt (verit))
  also have "\<dots> = int (length rs) * 10 ^ 17" by (simp add: sum_list_triv)
  also have "\<dots> \<le> 32 * 10 ^ 17" using assms(3) by simp
  finally have "(\<Sum>r\<leftarrow>rs. max 0 (r - p)) \<le> 32 * 10 ^ 17" .
  moreover have "0 \<le> (\<Sum>r\<leftarrow>rs. max 0 (r - p))" by (intro sum_list_nonneg) auto
  ultimately show ?thesis using assms(1,2) by (simp add: payment_total_def)
qed

lemma reissues_of_bounds:
  "reissues_of fl x req ev pid rs \<Longrightarrow> length rs \<le> 32 \<and> (\<forall>r \<in> set rs. r \<le> 10 ^ 17)"
  unfolding reissues_of_def by (metis in_set_conv_nth reissueFeeAt_bounds)

text \<open>What holds of one payment of an accepted batch: its event, maximum fee and reissue fees.\<close>

fun pay_ok ::
  "fee_lib \<Rightarrow> FeeProofVerifier \<Rightarrow> FeeProofRequest \<Rightarrow> (hash \<Rightarrow> string \<Rightarrow> u64) \<Rightarrow> string \<Rightarrow> (hash \<rightharpoonup> chain_log) \<Rightarrow>
   u64 \<times> hash \<Rightarrow> pay_message \<times> int \<times> int list \<Rightarrow> bool" where
  "pay_ok fl x req truth ev payLogs (pid, payID) (m, p, rs) \<longleftrightarrow>
     decodePay fl x req payLogs pid payID = Inr m \<and> pid \<noteq> 0 \<and>
     unat (msg_Nonce m) = unat (truth (fv_source x) (fq_SenderAddress req)) + unat pid - 1 \<and>
     checkPayMaxFee m = Inr p \<and> reissues_of fl x req ev pid rs"

abbreviation pm_total :: "pay_message \<times> int \<times> int list \<Rightarrow> int" where
  "pm_total \<equiv> (\<lambda>(m, p, rs). payment_total p rs)"

abbreviation pm_nonce :: "pay_message \<times> int \<times> int list \<Rightarrow> u64" where
  "pm_nonce \<equiv> (\<lambda>(m, p, rs). msg_Nonce m)"

lemma pay_ok_total_bounds: "pay_ok fl x req truth ev payLogs q pm \<Longrightarrow> 0 \<le> pm_total pm \<and> pm_total pm \<le> 33 * 10 ^ 17"
proof -
  assume ok: "pay_ok fl x req truth ev payLogs q pm"
  obtain pid payID m p rs where qp: "q = (pid, payID)" "pm = (m, p, rs)" by (cases q; cases pm) blast
  with ok have "0 \<le> p" "p \<le> 10 ^ 17" "reissues_of fl x req ev pid rs"
    by (auto simp: checkPayMaxFee_ok_iff)
  with reissues_of_bounds [OF this(3)] show ?thesis
    using payment_total_bounds [of p rs] by (auto simp: qp)
qed

context sequence_verifier
begin

lemma estimated_InrD:
  assumes "invar s"
    and "computeEstimatedFee fl verify x req ev payLogs qs fee seqs s = (Inr (fee', seqs'), s')"
  shows "invar s' \<and> (\<exists>pms. list_all2 (pay_ok fl x req truth ev payLogs) qs pms \<and>
    fee' = fee + (\<Sum>pm\<leftarrow>pms. pm_total pm) \<and> seqs' = seqs @ map pm_nonce pms)"
  using assms
proof (induction qs arbitrary: fee seqs s)
  case Nil
  then show ?case by (auto intro: exI [of _ "[]"])
next
  case (Cons q qs)
  obtain pid payID where q: "q = (pid, payID)" by (cases q)
  from Cons.prems(2) obtain m u t p fee1 where
    m: "decodePay fl x req payLogs pid payID = Inr m" and
    v: "verify (fv_source x) (fq_SenderAddress req) pid (msg_Nonce m) s = (Inr u, t)" and
    p: "checkPayMaxFee m = Inr p" and
    f: "paymentEstimatedFee fl x req ev pid p fee = Inr fee1" and
    rec: "computeEstimatedFee fl verify x req ev payLogs qs fee1 (seqs @ [msg_Nonce m]) t = (Inr (fee', seqs'), s')"
    by (auto simp: q io_simps)
  from Cons.IH [OF verify_invar [OF Cons.prems(1) v] rec] obtain pms where IH:
    "invar s'" "list_all2 (pay_ok fl x req truth ev payLogs) qs pms"
    "fee' = fee1 + (\<Sum>pm\<leftarrow>pms. pm_total pm)" "seqs' = (seqs @ [msg_Nonce m]) @ map pm_nonce pms"
    by blast
  obtain rs where rs: "reissues_of fl x req ev pid rs" "fee1 = fee + payment_total p rs"
    using paymentEstimatedFee_InrD [OF f] by blast
  have "pay_ok fl x req truth ev payLogs q (m, p, rs)"
    using m p rs(1) verify_sound [OF Cons.prems(1) v] by (simp add: q)
  with IH rs(2) show ?case by (auto intro!: exI [of _ "(m, p, rs) # pms"])
qed

end

section \<open>Lemmas: actual fee\<close>

text \<open>What holds of the transaction of one payment: its row, and the fee in its response.\<close>

definition tx_fee_ok :: "fee_lib \<Rightarrow> DBTransaction \<Rightarrow> int \<Rightarrow> bool" where
  "tx_fee_ok fl tx fee \<longleftrightarrow>
     checkTxRowConsistency fl tx = Inr () \<and> parseTxFee fl (tx_Response tx) = Inr fee"

lemma parseTxFee_bounds: "parseTxFee fl r = Inr fee \<Longrightarrow> 0 \<le> fee \<and> fee \<le> 10 ^ 17"
  using ExceedsMaxXRPDrops_Some
  by (auto simp: parseTxFee_def result_simps split: if_splits)

lemma actual_loop_InrD:
  "actual_loop fl txMap seqs fee = Inr fee' \<Longrightarrow>
     \<exists>ts. list_all2 (\<lambda>n (tx, f). txMap n = Some tx \<and> tx_fee_ok fl tx f) seqs ts \<and>
       fee' = fee + (\<Sum>t\<leftarrow>ts. snd t)"
proof (induction seqs arbitrary: fee)
  case Nil
  then show ?case by (auto intro: exI [of _ "[]"])
next
  case (Cons n seqs)
  then obtain tx f where tx: "txMap n = Some tx" "tx_fee_ok fl tx f"
    and rec: "actual_loop fl txMap seqs (fee + f) = Inr fee'"
    by (auto simp: result_simps tx_fee_ok_def split: option.splits)
  from Cons.IH [OF rec] obtain ts where
    "list_all2 (\<lambda>n (tx, f). txMap n = Some tx \<and> tx_fee_ok fl tx f) seqs ts"
    "fee' = fee + f + (\<Sum>t\<leftarrow>ts. snd t)" by blast
  with tx show ?case by (auto intro!: exI [of _ "(tx, f) # ts"])
qed

lemma distinct_singleton: "distinct xs \<Longrightarrow> set xs = {t} \<Longrightarrow> xs = [t]"
proof -
  assume d: "distinct xs" and s: "set xs = {t}"
  have "length xs = 1" using distinct_card [OF d] s by simp
  then obtain y where "xs = [y]" by (auto simp: length_Suc_conv)
  with s show ?thesis by simp
qed

lemma fetch_txs_unique:
  assumes "FetchTransactionsBySourceAndSequences r src ns = Inr m" and "serves_txs r txs"
    and "m n = Some t"
  shows "filter (\<lambda>t. tx_SourceAddress t = src \<and> tx_Sequence t = n) txs = [t]"
proof -
  let ?q = "\<lparr>tq_source_address = src, tq_sequence = ns, tq_limit = None\<rparr>"
  have "ns \<noteq> []" using assms by (auto simp: FetchTransactionsBySourceAndSequences_def)
  with assms(1) obtain rows where rows: "repo_db r ?q = Inr rows" "collect_txs rows Map.empty = Inr m"
    by (auto simp: FetchTransactionsBySourceAndSequences_def result_simps)
  obtain ts where ts: "mset ts = mset (filter (tx_matches ?q) txs)" "rows = apply_limit (tq_limit ?q) ts"
    using assms(2) rows(1) unfolding serves_txs_def by blast
  then have ms: "mset rows = mset (filter (tx_matches ?q) txs)" by (simp add: apply_limit_def)
  have D: "distinct (map tx_Sequence rows)" using collect_txs_InrD [OF rows(2)] by blast
  note t = collect_txs_lookup [OF rows(2) assms(3)]
  have src: "tx_SourceAddress u = src \<and> tx_Sequence u \<in> set ns" if "u \<in> set rows" for u
  proof -
    have "set rows = set (filter (tx_matches ?q) txs)" using ms by (rule mset_eq_setD)
    with that show ?thesis by (simp add: tx_matches_def)
  qed
  have n: "n \<in> set ns" using src t by blast
  have "filter (\<lambda>u. tx_Sequence u = n) rows = [t]"
  proof -
    have "set (filter (\<lambda>u. tx_Sequence u = n) rows) = {t}" using t by auto
    moreover have "distinct (filter (\<lambda>u. tx_Sequence u = n) rows)"
      using D by (simp add: distinct_map)
    ultimately show ?thesis by (intro distinct_singleton)
  qed
  then have "mset (filter (\<lambda>u. tx_Sequence u = n) (filter (tx_matches ?q) txs)) = {#t#}"
    using arg_cong [OF ms, of "filter_mset (\<lambda>u. tx_Sequence u = n)"]
    by (simp only: mset_filter [symmetric]) simp
  moreover have "filter (\<lambda>u. tx_Sequence u = n) (filter (tx_matches ?q) txs) =
      filter (\<lambda>t. tx_SourceAddress t = src \<and> tx_Sequence t = n) txs"
    using n by (auto simp: tx_matches_def intro: filter_cong)
  ultimately show ?thesis by (simp only: mset_single_iff)
qed

section \<open>Lemmas: the sums\<close>

lemma nat_bits_le: "n < 2 ^ k \<Longrightarrow> nat_bits n \<le> k"
proof (induction k arbitrary: n)
  case 0
  then show ?case by (simp add: nat_bits.simps)
next
  case (Suc k)
  then have "nat_bits (n div 2) \<le> k" by (intro Suc.IH) auto
  then show ?case by (simp add: nat_bits.simps [of n])
qed

lemma bigint_BitLen_le: "\<bar>v\<bar> < 2 ^ k \<Longrightarrow> bigint_BitLen v \<le> k"
  unfolding bigint_BitLen_def by (intro nat_bits_le) (simp add: nat_less_iff)

lemma sum_list_bounds:
  assumes "\<And>y. y \<in> set ys \<Longrightarrow> 0 \<le> f y \<and> f y \<le> (B :: int)"
  shows "0 \<le> (\<Sum>y\<leftarrow>ys. f y) \<and> (\<Sum>y\<leftarrow>ys. f y) \<le> int (length ys) * B"
  using assms
proof (induction ys)
  case (Cons y ys)
  then have "0 \<le> f y \<and> f y \<le> B" "0 \<le> (\<Sum>y\<leftarrow>ys. f y) \<and> (\<Sum>y\<leftarrow>ys. f y) \<le> int (length ys) * B" by auto
  then show ?case by (simp add: algebra_simps)
qed simp

lemma pay_total_sum_bounds:
  assumes "list_all2 (pay_ok fl x req truth ev payLogs) qs pms"
  shows "0 \<le> (\<Sum>pm\<leftarrow>pms. pm_total pm) \<and> (\<Sum>pm\<leftarrow>pms. pm_total pm) \<le> int (length qs) * (33 * 10 ^ 17)"
proof -
  have "0 \<le> pm_total pm \<and> pm_total pm \<le> 33 * 10 ^ 17" if "pm \<in> set pms" for pm
  proof -
    from list_all2_in_set2 [OF assms that] obtain q where "pay_ok fl x req truth ev payLogs q pm"
      by blast
    then show ?thesis by (rule pay_ok_total_bounds)
  qed
  from sum_list_bounds [of pms pm_total, OF this] show ?thesis
    unfolding list_all2_lengthD [OF assms] .
qed

lemma tx_fee_sum_bounds:
  assumes "list_all2 (\<lambda>n (tx, f). P n tx \<and> tx_fee_ok fl tx f) seqs ts"
  shows "0 \<le> (\<Sum>t\<leftarrow>ts. snd t) \<and> (\<Sum>t\<leftarrow>ts. snd t) \<le> int (length seqs) * 10 ^ 17"
proof -
  have "0 \<le> snd t \<and> snd t \<le> 10 ^ 17" if "t \<in> set ts" for t
  proof -
    from list_all2_in_set2 [OF assms that]
    obtain n where "case t of (tx, f) \<Rightarrow> P n tx \<and> tx_fee_ok fl tx f" by blast
    then have "parseTxFee fl (tx_Response (fst t)) = Inr (snd t)" by (cases t) (simp add: tx_fee_ok_def)
    then show ?thesis by (rule parseTxFee_bounds)
  qed
  from sum_list_bounds [of ts snd, OF this] show ?thesis
    unfolding list_all2_lengthD [OF assms] .
qed

section \<open>What an attested batch means\<close>

text \<open>
  \<open>pms\<close> lists, per payment, its event with its maximum fee and reissue fees, \<open>ts\<close> its
  ledger transaction and fee.
\<close>

definition fee_spec ::
  "fee_lib \<Rightarrow> FeeProofVerifier \<Rightarrow> (hash \<Rightarrow> string \<Rightarrow> u64) \<Rightarrow> DBTransaction list \<Rightarrow> FeeProofRequest \<Rightarrow>
   FeeProofResponse \<Rightarrow> bool" where
  "fee_spec fl x truth txs req resp \<longleftrightarrow>
     (\<exists>ev payIDs payLogs pms ts.
        TeeInstructionsSentEventSignature (fl_tee fl) (pc_ParsedTeeInstructionsABI (fv_Config x)) = Inr ev \<and>
        length payIDs = unat (fq_BatchCount req) \<and> length pms = unat (fq_BatchCount req) \<and>
        length ts = unat (fq_BatchCount req) \<and>
        FetchInstructionLogs (fl_tee fl) (fv_Repo x) ev payIDs = Inr payLogs \<and>
        (\<forall>i < unat (fq_BatchCount req). \<exists>pid.
           unat pid = unat (fq_FirstPaymentId req) + i \<and>
           GenerateInstructionID (fl_tee fl) (fq_OpType req) (fv_source x) (fq_SenderAddress req) pid =
             Inr (payIDs ! i) \<and>
           pay_ok fl x req truth ev payLogs (pid, payIDs ! i) (pms ! i) \<and>
           filter (\<lambda>t. tx_SourceAddress t = fq_SenderAddress req \<and> tx_Sequence t = pm_nonce (pms ! i)) txs =
             [fst (ts ! i)] \<and>
           tx_fee_ok fl (fst (ts ! i)) (snd (ts ! i))) \<and>
        unat (fr_LastPaymentId resp) = unat (fq_FirstPaymentId req) + unat (fq_BatchCount req) - 1 \<and>
        fr_EstimatedFee resp = (\<Sum>pm\<leftarrow>pms. pm_total pm) \<and> fr_ActualFee resp = (\<Sum>t\<leftarrow>ts. snd t))"

lemma unat_last_payment:
  assumes "validateBatchRange x req = Inr ()"
  shows "unat (fq_FirstPaymentId req + fq_BatchCount req - 1) =
    unat (fq_FirstPaymentId req) + unat (fq_BatchCount req) - 1"
proof -
  let ?n = "unat (fq_BatchCount req) - 1"
  have n: "?n < unat (fq_BatchCount req)" "0 < unat (fq_BatchCount req)"
    using assms by (auto simp: validateBatchRange_ok_iff)
  have "word_of_nat ?n = fq_BatchCount req - 1"
    using n by (simp add: of_nat_diff Suc_leI)
  then have "batchPaymentIDs req ! ?n = fq_FirstPaymentId req + fq_BatchCount req - 1"
    using n by (simp add: batchPaymentIDs_def)
  with unat_batchPaymentIDs [OF assms n(1)] n show ?thesis by simp
qed

lemma FeeProof_Verify_InrE:
  assumes "FeeProof_Verify fl vs x req s = (Inr resp, s')"
  obtains ev payIDs payLogs est seqs act where "validateBatchRange x req = Inr ()"
    "TeeInstructionsSentEventSignature (fl_tee fl) (pc_ParsedTeeInstructionsABI (fv_Config x)) = Inr ev"
    "mapM (\<lambda>pid. map_error wrap1 (GeneratePayInstructionID (fl_tee fl) (fq_OpType req) (fv_source x)
        (fq_SenderAddress req) pid)) (batchPaymentIDs req) = Inr payIDs"
    "FetchInstructionLogs (fl_tee fl) (fv_Repo x) ev payIDs = Inr payLogs"
    "computeEstimatedFee fl vs x req ev payLogs (zip (batchPaymentIDs req) payIDs) 0 [] s = (Inr (est, seqs), s')"
    "computeActualFee fl x (fq_SenderAddress req) seqs = Inr act"
    "resp = \<lparr>fr_LastPaymentId = fq_FirstPaymentId req + fq_BatchCount req - 1, fr_ActualFee = act, fr_EstimatedFee = est\<rparr>"
  using assms unfolding FeeProof_Verify_def by (auto simp: io_simps split: if_splits)

text \<open>The actual fee adds up the fees of the only rows of the sender with these sequences.\<close>

lemma computeActualFee_InrD:
  assumes "computeActualFee fl x src seqs = Inr act" and "serves_txs (fv_Repo x) txs"
  obtains ts where
    "list_all2 (\<lambda>n (tx, f). filter (\<lambda>t. tx_SourceAddress t = src \<and> tx_Sequence t = n) txs = [tx] \<and> tx_fee_ok fl tx f) seqs ts"
    "act = (\<Sum>t\<leftarrow>ts. snd t)"
proof -
  from assms(1) obtain txMap where m: "FetchTransactionsBySourceAndSequences (fv_Repo x) src seqs = Inr txMap"
    and loop: "actual_loop fl txMap seqs 0 = Inr act"
    by (auto simp: computeActualFee_def result_simps)
  from actual_loop_InrD [OF loop] obtain ts where
    ts: "list_all2 (\<lambda>n (tx, f). txMap n = Some tx \<and> tx_fee_ok fl tx f) seqs ts" and a: "act = (\<Sum>t\<leftarrow>ts. snd t)" by auto
  from ts have "list_all2 (\<lambda>n (tx, f). filter (\<lambda>t. tx_SourceAddress t = src \<and> tx_Sequence t = n) txs = [tx] \<and>
      tx_fee_ok fl tx f) seqs ts"
    by (rule list.rel_mono_strong) (use fetch_txs_unique [OF m assms(2)] in auto)
  from that [OF this a] show ?thesis .
qed

context sequence_verifier
begin

lemma fee_sound:
  assumes inv: "invar s" and txs: "serves_txs (fv_Repo x) txs"
    and ok: "FeeProof_Verify fl verify x req s = (Inr resp, s')"
  shows "fee_spec fl x truth txs req resp \<and> invar s'"
proof -
  let ?c = "unat (fq_BatchCount req)" and ?ids = "batchPaymentIDs req"
  from ok obtain ev payIDs payLogs est seqs act where
    v: "validateBatchRange x req = Inr ()" and
    ev: "TeeInstructionsSentEventSignature (fl_tee fl) (pc_ParsedTeeInstructionsABI (fv_Config x)) = Inr ev" and
    ids: "mapM (\<lambda>pid. map_error wrap1 (GenerateInstructionID (fl_tee fl) (fq_OpType req) (fv_source x)
        (fq_SenderAddress req) pid)) ?ids = Inr payIDs" and
    logs: "FetchInstructionLogs (fl_tee fl) (fv_Repo x) ev payIDs = Inr payLogs" and
    est: "computeEstimatedFee fl verify x req ev payLogs (zip ?ids payIDs) 0 [] s = (Inr (est, seqs), s')" and
    act: "computeActualFee fl x (fq_SenderAddress req) seqs = Inr act" and
    resp: "resp = \<lparr>fr_LastPaymentId = fq_FirstPaymentId req + fq_BatchCount req - 1,
      fr_ActualFee = act, fr_EstimatedFee = est\<rparr>"
    by (rule FeeProof_Verify_InrE)
  have len: "length payIDs = ?c" using mapM_length [OF ids] by simp
  from estimated_InrD [OF inv est] obtain pms where inv': "invar s'" and
    pms: "list_all2 (pay_ok fl x req truth ev payLogs) (zip ?ids payIDs) pms" and
    sums: "est = (\<Sum>pm\<leftarrow>pms. pm_total pm)" "seqs = map pm_nonce pms" by auto
  from computeActualFee_InrD [OF act txs] obtain ts where
    ts: "list_all2 (\<lambda>n (tx, f). filter (\<lambda>t. tx_SourceAddress t = fq_SenderAddress req \<and> tx_Sequence t = n) txs = [tx] \<and>
      tx_fee_ok fl tx f) seqs ts" and
    a: "act = (\<Sum>t\<leftarrow>ts. snd t)" .
  have lens: "length pms = ?c" "length ts = ?c"
    using list_all2_lengthD [OF pms] list_all2_lengthD [OF ts] len sums(2) by simp_all
  have each: "\<exists>pid. unat pid = unat (fq_FirstPaymentId req) + i \<and>
      GenerateInstructionID (fl_tee fl) (fq_OpType req) (fv_source x) (fq_SenderAddress req) pid = Inr (payIDs ! i) \<and>
      pay_ok fl x req truth ev payLogs (pid, payIDs ! i) (pms ! i) \<and>
      filter (\<lambda>t. tx_SourceAddress t = fq_SenderAddress req \<and> tx_Sequence t = pm_nonce (pms ! i)) txs = [fst (ts ! i)] \<and>
      tx_fee_ok fl (fst (ts ! i)) (snd (ts ! i))" if i: "i < ?c" for i
  proof (intro exI [of _ "?ids ! i"] conjI)
    show "unat (?ids ! i) = unat (fq_FirstPaymentId req) + i"
      using unat_batchPaymentIDs [of x req i] v i by simp
    show "GenerateInstructionID (fl_tee fl) (fq_OpType req) (fv_source x) (fq_SenderAddress req) (?ids ! i) = Inr (payIDs ! i)"
      using mapM_nth [OF ids, of i] i by simp
    show "pay_ok fl x req truth ev payLogs (?ids ! i, payIDs ! i) (pms ! i)"
      using list_all2_nthD [OF pms, of i] i len by simp
    show "filter (\<lambda>t. tx_SourceAddress t = fq_SenderAddress req \<and> tx_Sequence t = pm_nonce (pms ! i)) txs = [fst (ts ! i)]"
      "tx_fee_ok fl (fst (ts ! i)) (snd (ts ! i))"
      using list_all2_nthD [OF ts, of i] i lens sums(2) by (simp_all add: split_beta)
  qed
  have "unat (fr_LastPaymentId resp) = unat (fq_FirstPaymentId req) + ?c - 1"
    using unat_last_payment [of x req] v by (simp add: resp)
  with ev len lens logs each sums(1) a inv' show ?thesis
    unfolding fee_spec_def by (auto simp: resp)
qed

text \<open>The sums grow at most linearly in the batch and always fit 256 bits, so the check after them never refuses a batch.\<close>

lemma fee_sums_bounds:
  assumes inv: "invar s"
    and est: "computeEstimatedFee fl verify x req ev payLogs (zip (batchPaymentIDs req) payIDs) 0 [] s = (Inr (est, seqs), s')"
    and act: "computeActualFee fl x a seqs = Inr act"
  shows "0 \<le> est \<and> est \<le> int (unat (fq_BatchCount req)) * (33 * 10 ^ 17) \<and>
    0 \<le> act \<and> act \<le> int (unat (fq_BatchCount req)) * 10 ^ 17"
proof -
  let ?c = "unat (fq_BatchCount req)"
  from estimated_InrD [OF inv est] obtain pms where
    pms: "list_all2 (pay_ok fl x req truth ev payLogs) (zip (batchPaymentIDs req) payIDs) pms" and
    sums: "est = (\<Sum>pm\<leftarrow>pms. pm_total pm)" "seqs = map pm_nonce pms" by auto
  from act obtain ts txMap where
    ts: "list_all2 (\<lambda>n (tx, f). txMap n = Some tx \<and> tx_fee_ok fl tx f) seqs ts" and
    a: "act = (\<Sum>t\<leftarrow>ts. snd t)"
    by (auto simp: computeActualFee_def result_simps dest!: actual_loop_InrD)
  have len: "length (zip (batchPaymentIDs req) payIDs) \<le> ?c" "length seqs \<le> ?c"
    using list_all2_lengthD [OF pms] sums(2) by simp_all
  have "int (length (zip (batchPaymentIDs req) payIDs)) * (33 * 10 ^ 17) \<le> int ?c * (33 * 10 ^ 17)"
    "int (length seqs) * 10 ^ 17 \<le> int ?c * 10 ^ 17"
    using len by (intro mult_right_mono; (subst of_nat_le_iff)?; simp del: length_zip)+
  with pay_total_sum_bounds [OF pms] tx_fee_sum_bounds [OF ts] show ?thesis
    unfolding sums(1) a by linarith
qed

lemma fee_sums_fit:
  assumes "invar s"
    and "computeEstimatedFee fl verify x req ev payLogs (zip (batchPaymentIDs req) payIDs) 0 [] s = (Inr (est, seqs), s')"
    and "computeActualFee fl x a seqs = Inr act"
  shows "est < 2 ^ 256 \<and> act < 2 ^ 256 \<and> bigint_BitLen est \<le> 256 \<and> bigint_BitLen act \<le> 256"
proof -
  have c: "int (unat (fq_BatchCount req)) < 2 ^ 64" using unsigned_less [of "fq_BatchCount req"] by simp
  have "int (unat (fq_BatchCount req)) * (33 * 10 ^ 17) < 2 ^ 64 * (33 * 10 ^ 17)" using c by simp
  also have "\<dots> < (2 :: int) ^ 256" by simp
  finally have "int (unat (fq_BatchCount req)) * (33 * 10 ^ 17) < 2 ^ 256" .
  with fee_sums_bounds [OF assms] have "0 \<le> est" "est < 2 ^ 256" "0 \<le> act" "act < 2 ^ 256" by linarith+
  then show ?thesis by (simp add: bigint_BitLen_le)
qed

end

section \<open>Which errors the verifier returns\<close>

definition fee_tags :: "sentinel list" where
  "fee_tags = [ErrBatchRangeTooLarge, ErrMissingPayEvent, ErrMissingTransaction, ErrReissueLimitExceeded] @ pmw_tags"

definition fee_lib_foreign :: "fee_lib \<Rightarrow> bool" where
  "fee_lib_foreign fl \<longleftrightarrow>
     tee_lib_foreign (fl_tee fl) \<and> (\<forall>s. foreign_result (fl_UnmarshalIdentity fl s)) \<and>
     (\<forall>s. foreign_result (fl_UnmarshalFee fl s))"

lemma fee_tag [simp]: "ErrBatchRangeTooLarge \<in> set fee_tags" "ErrMissingPayEvent \<in> set fee_tags"
  "ErrMissingTransaction \<in> set fee_tags" "ErrReissueLimitExceeded \<in> set fee_tags"
  "ErrDatabase \<in> set fee_tags" "ErrDataSource \<in> set fee_tags"
  by (simp_all add: fee_tags_def)

lemma pmw_fee_tags: "result_tags pmw_tags r \<Longrightarrow> result_tags fee_tags r"
  by (auto simp: result_tags_def fee_tags_def intro: only_tags_mono)

lemma fetch_logTS_tags:
  "tee_lib_foreign lib \<Longrightarrow> repo_foreign r \<Longrightarrow> result_tags pmw_tags (FetchInstructionLogTS lib r ev h)"
  unfolding FetchInstructionLogTS_def
  by (intro result_tags_bind tags_map_error repo_tags) (auto intro!: result_tags_bind lib_tags)

lemma collect_logs_tags: "tee_lib_foreign lib \<Longrightarrow> result_tags pmw_tags (collect_logs lib ls m)"
  by (induction lib ls m rule: collect_logs.induct)
     (auto simp: Let_def intro!: result_tags_bind tags_map_error lib_tags)

lemma fetch_logs_tags:
  "tee_lib_foreign lib \<Longrightarrow> repo_foreign r \<Longrightarrow> result_tags pmw_tags (FetchInstructionLogs lib r ev hs)"
  unfolding FetchInstructionLogs_def
  by (auto intro!: result_tags_bind tags_map_error repo_tags collect_logs_tags)

lemma collect_txs_tags: "result_tags pmw_tags (collect_txs ts m)"
  by (induction ts m rule: collect_txs.induct) (auto simp: fun_upd_def)

lemma fetch_txs_tags: "repo_foreign r \<Longrightarrow> result_tags pmw_tags (FetchTransactionsBySourceAndSequences r a ns)"
  unfolding FetchTransactionsBySourceAndSequences_def
  by (auto intro!: result_tags_bind tags_map_error repo_tags collect_txs_tags)

lemma reissueID_tags:
  "tee_lib_foreign lib \<Longrightarrow> result_tags pmw_tags (GenerateReissueInstructionID lib op src acc n k)"
  unfolding GenerateReissueInstructionID_def
  by (intro result_tags_bind tags_map_error lib_tags) auto

lemma fetchReissue_tags:
  assumes "fee_lib_foreign fl" and "repo_foreign (fv_Repo x)"
  shows "result_tags pmw_tags (fetchReissue fl x req ev pid n)"
proof -
  have tl: "tee_lib_foreign (fl_tee fl)" using assms by (simp add: fee_lib_foreign_def)
  have "only_tags pmw_tags e" if "FetchInstructionLogTS (fl_tee fl) (fv_Repo x) ev h = Inl e" for e h
    using fetch_logTS_tags [OF tl assms(2)] that by (rule result_tagsD)
  then show ?thesis
    unfolding fetchReissue_def
    by (intro result_tags_bind tags_map_error reissueID_tags [OF tl]) (auto split: sum.splits)
qed

lemma reissueFeeAt_tags:
  assumes "fee_lib_foreign fl" and "repo_foreign (fv_Repo x)"
    and "abi_def_foreign (pc_ParsedTeeInstructionsABI (fv_Config x))"
  shows "result_tags pmw_tags (reissueFeeAt fl x req ev pid n)"
proof -
  have tl: "tee_lib_foreign (fl_tee fl)" using assms by (simp add: fee_lib_foreign_def)
  have "result_tags pmw_tags (reissueMaxFee fl x req pid log)" for log
    unfolding reissueMaxFee_def
    by (intro result_tags_bind tags_map_error decode_tags [OF tl assms(3)] row_tags)
       (auto split: option.splits)
  then show ?thesis
    unfolding reissueFeeAt_def
    by (intro result_tags_bind fetchReissue_tags [OF assms(1,2)])
       (auto split: option.splits intro!: result_tags_bind)
qed

lemma reissueLoop_tags:
  "(\<And>n. result_tags S (f n)) \<Longrightarrow> result_tags S (reissueLoop f p n fee)"
proof (induction f p n fee rule: reissueLoop.induct)
  case (1 f p n fee)
  show ?case
    unfolding reissueLoop.simps [of f p n fee]
    using 1 by (auto simp: Let_def split: option.splits intro!: result_tags_bind)
qed

lemma actual_loop_tags:
  assumes "fee_lib_foreign fl"
  shows "result_tags fee_tags (actual_loop fl m ns fee)"
proof -
  have u: "result_tags pmw_tags (fl_UnmarshalIdentity fl s)" "result_tags pmw_tags (fl_UnmarshalFee fl s)" for s
    using assms by (simp_all add: fee_lib_foreign_def foreign_pmw_tags)
  have c: "result_tags pmw_tags (checkTxRowConsistency fl tx)" for tx
    unfolding checkTxRowConsistency_def
    by (auto intro!: result_tags_bind tags_map_error u row_tags)
  have p: "result_tags pmw_tags (parseTxFee fl r)" for r
    unfolding parseTxFee_def
    by (auto intro!: result_tags_bind tags_map_error u ParseNonNegative_tags)
  show ?thesis
    by (induction ns arbitrary: fee)
       (auto split: option.splits intro!: result_tags_bind tags_map_error pmw_fee_tags [OF c] pmw_fee_tags [OF p])
qed

context sequence_verifier
begin

lemma estimated_tags:
  assumes F: "fee_lib_foreign fl" "repo_foreign (fv_Repo x)"
    "abi_def_foreign (pc_ParsedTeeInstructionsABI (fv_Config x))"
  shows "invar s \<Longrightarrow> io_tags fee_tags (computeEstimatedFee fl verify x req ev payLogs qs fee seqs) s"
proof (induction qs arbitrary: fee seqs s)
  case Nil
  then show ?case by (simp add: io_tags_def)
next
  case (Cons q qs)
  have tl: "tee_lib_foreign (fl_tee fl)" using F by (simp add: fee_lib_foreign_def)
  have seq: "io_tags fee_tags (io_map_error wrap1 (verify a b c d)) s" for a b c d
  proof -
    have "only_tags fee_tags e" if "verify a b c d s = (Inl e, s')" for e s'
      using verify_error [OF Cons.prems that] by simp
    then show ?thesis
      by (cases "verify a b c d s") (auto simp: io_tags_def io_map_error_def result_tags_def map_error_eq_Inl_iff)
  qed
  have d: "result_tags fee_tags (decodePay fl x req payLogs a b)" for a b
    unfolding decodePay_def
    by (auto split: option.splits intro!: result_tags_bind tags_map_error
        pmw_fee_tags [OF decode_tags [OF tl F(3)]] pmw_fee_tags [OF row_tags(1)])
  have e: "result_tags fee_tags (paymentEstimatedFee fl x req ev a b c)" for a b c
    unfolding paymentEstimatedFee_def
    by (auto split: option.splits intro!: result_tags_bind reissueLoop_tags
        pmw_fee_tags [OF reissueFeeAt_tags [OF F]] pmw_fee_tags [OF fetchReissue_tags [OF F(1,2)]])
  have m: "result_tags fee_tags (checkPayMaxFee msg)" for msg
    by (auto simp: checkPayMaxFee_def split: option.splits)
  obtain pid h where q: "q = (pid, h)" by (cases q)
  show ?case
    unfolding q computeEstimatedFee.simps
    using Cons.prems verify_invar
    by (intro io_tags_bind io_tags_lift [THEN iffD2] d e m Cons.IH) (auto simp: io_simps intro: seq)
qed

lemma fee_proof_tags:
  assumes "invar s" and F: "fee_lib_foreign fl" "repo_foreign (fv_Repo x)"
    "abi_def_foreign (pc_ParsedTeeInstructionsABI (fv_Config x))"
  shows "io_tags fee_tags (FeeProof_Verify fl verify x req) s"
proof -
  have tl: "tee_lib_foreign (fl_tee fl)" using F by (simp add: fee_lib_foreign_def)
  have v: "result_tags fee_tags (validateBatchRange x req)"
    by (simp add: validateBatchRange_def Let_def)
  have i: "result_tags fee_tags (mapM (\<lambda>pid. map_error wrap1 (GenerateInstructionID (fl_tee fl) a b c pid)) pids)"
    for a b c pids
    by (induction pids)
       (auto intro!: result_tags_bind tags_map_error pmw_fee_tags [OF GenerateInstructionID_tags [OF tl]])
  have act: "result_tags fee_tags (computeActualFee fl x a ns)" for a ns
    unfolding computeActualFee_def
    by (intro result_tags_bind tags_map_error pmw_fee_tags [OF fetch_txs_tags [OF F(2)]]
        actual_loop_tags [OF F(1)]) auto
  show ?thesis
    unfolding FeeProof_Verify_def
    by (intro io_tags_bind io_tags_lift [THEN iffD2] v i signature_tags tags_map_error
        pmw_fee_tags [OF fetch_logs_tags [OF tl F(2)]])
       (auto split: prod.splits intro!: io_tags_bind estimated_tags [OF F] act assms(1)
          simp: io_tags_def [of _ "io_return _"])
qed

end

section \<open>A sample batch\<close>

definition sample_fee_tee :: tee_lib where
  "sample_fee_tee = sample_tee\<lparr>Keccak256Hash := \<lambda>b. if last b = byte_of_char (CHR ''0'') then 1 else 2,
     ConvertDatabaseLogToChainLog := \<lambda>l. Inr \<lparr>cl_Topics = [1, 0, 1], cl_Data = []\<rparr>\<rparr>"

definition sample_fee_lib :: fee_lib where
  "sample_fee_lib = \<lparr>fl_tee = sample_fee_tee,
     fl_UnmarshalIdentity = (\<lambda>_. Inr \<lparr>id_Account = ''rS'', id_Sequence = 102, id_Hash = ''AB''\<rparr>),
     fl_UnmarshalFee = (\<lambda>_. Inr ''12'')\<rparr>"

definition sample_fee_logs :: "db_log list" where
  "sample_fee_logs = [(hd sample_logs)\<lparr>dl_Topic2 := removeHexPrefix (Hash_Hex sample_tee 1)\<rparr>]"

definition sample_fee_verifier :: FeeProofVerifier where
  "sample_fee_verifier = \<lparr>fv_Repo = (xv_Repo sample_verifier)\<lparr>repo_cChainDb := \<lambda>q. Inr (sql_logs sample_fee_logs q)\<rparr>,
     fv_Config = sample_cfg, fv_maxBatchRange = 0\<rparr>"

definition sample_fee_req :: FeeProofRequest where
  "sample_fee_req = \<lparr>fq_OpType = 5, fq_SenderAddress = ''rS'', fq_FirstPaymentId = 3, fq_BatchCount = 1,
     fq_UntilTimestamp = 50\<rparr>"



lemma sample_hex_inj:
  "removeHexPrefix (Hash_Hex sample_lib a) = removeHexPrefix (Hash_Hex sample_lib b) \<longleftrightarrow> a = b"
proof -
  have "removeHexPrefix (Hash_Hex sample_lib h) = hex_fixed 64 (unat h)" for h
    using hex_no_0X [of 64 "unat h"]
    by (simp add: removeHexPrefix_def sample_lib_def strings_TrimPrefix_def)
      (simp add: strings_HasPrefix_def)
  then show ?thesis by (simp add: hex_hash_inj)
qed

lemma sample_fee_env: "binder_env sample_fee_tee (\<lambda>_ _. 100) sample_caller sample_bstate"
proof -
  have "Hash_Hex sample_fee_tee = Hash_Hex sample_lib" by (simp add: sample_fee_tee_def sample_tee_def)
  with sample_env show ?thesis
    by (simp add: binder_env_def hex_ok_def binder_ok_def nonce_of_def nonceKey_def)
qed

lemma sample_fee_hex:
  "Hash_Hex sample_fee_tee = Hash_Hex sample_lib" "Hash_Hex sample_tee = Hash_Hex sample_lib"
  by (simp_all add: sample_fee_tee_def sample_tee_def)

lemma sample_fee_repo: "repo_cChainDb (fv_Repo sample_fee_verifier) = (\<lambda>q. Inr (sql_logs sample_fee_logs q))"
  by (simp add: sample_fee_verifier_def)

lemma sample_fee_match:
  "filter (log_matches (instruction_query sample_fee_tee (fv_Repo sample_fee_verifier) (Hash_Hex sample_fee_tee 1) [h] l))
     sample_fee_logs = (if h = 1 then [hd sample_fee_logs] else [])"
  using sample_hex_inj [of h 1]
  by (auto simp: sample_fee_logs_def sample_logs_def log_matches_def instruction_query_def sample_fee_hex
      sample_fee_verifier_def sample_verifier_def NewDBRepo_def)

lemma sample_fee_fields:
  "fl_tee sample_fee_lib = sample_fee_tee" "enc_SourceIDEncoded (pc_enc sample_cfg) = 7"
  "fv_Config sample_fee_verifier = sample_cfg" "pc_ParsedTeeInstructionsABI sample_cfg = sample_abi"
  "fq_OpType sample_fee_req = 5" "fq_SenderAddress sample_fee_req = ''rS''"
  "fq_FirstPaymentId sample_fee_req = 3" "fq_BatchCount sample_fee_req = 1"
  by (simp_all add: sample_fee_lib_def sample_fee_verifier_def sample_cfg_def sample_fee_req_def)

lemma sample_no_reissue:
  "fetchReissue sample_fee_lib sample_fee_verifier sample_fee_req (Hash_Hex sample_fee_tee 1) 3 1 = Inr None"
proof -
  have rid: "GenerateReissueInstructionID sample_fee_tee 5 7 ''rS'' 3 1 = Inr 2"
    by (simp add: GenerateReissueInstructionID_def sample_fee_tee_def sample_tee_def sample_lib_def
        instruction_args_def sample_pack_def last_map hex_char_def) code_simp
  have log: "FetchInstructionLogTS sample_fee_tee (fv_Repo sample_fee_verifier) (Hash_Hex sample_fee_tee 1) 2 =
      Inl (tag ErrRecordNotFound)"
    using sample_fee_match [of 2 "Some 2"]
    by (simp add: FetchInstructionLogTS_def sample_fee_repo sql_logs_def apply_limit_def split: option.splits)
  show ?thesis by (simp add: fetchReissue_def sample_fee_fields rid log)
qed

lemma sample_payment_fee:
  "paymentEstimatedFee sample_fee_lib sample_fee_verifier sample_fee_req (Hash_Hex sample_fee_tee 1) 3 20 0 = Inr 20"
  by (simp add: paymentEstimatedFee_def reissueLoop.simps [of _ _ 1] reissueFeeAt_def sample_no_reissue
      MaxReissuesPerPayment_def)

lemma sample_fee_verify:
  "\<exists>s'. FeeProof_Verify sample_fee_lib (VerifySequence sample_fee_tee sample_caller)
     sample_fee_verifier sample_fee_req sample_bstate =
     (Inr \<lparr>fr_LastPaymentId = 3, fr_ActualFee = 12, fr_EstimatedFee = 20\<rparr>, s')"
proof -
  let ?tee = sample_fee_tee and ?repo = "fv_Repo sample_fee_verifier"
  have ev: "TeeInstructionsSentEventSignature ?tee sample_abi = Inr (Hash_Hex ?tee 1)"
    by (simp add: TeeInstructionsSentEventSignature_def sample_abi_def)
  have pid: "GenerateInstructionID ?tee 5 7 ''rS'' 3 = Inr 1"
    by (simp add: GenerateInstructionID_def sample_fee_tee_def sample_tee_def sample_lib_def
        instruction_args_def sample_pack_def last_map hex_char_def) code_simp
  let ?l = "\<lparr>cl_Topics = [1, 0, 1], cl_Data = []\<rparr>"
  have logs: "FetchInstructionLogs ?tee ?repo (Hash_Hex ?tee 1) [1] = Inr [1 \<mapsto> ?l]"
    using sample_fee_match [of 1 None]
    by (simp add: FetchInstructionLogs_def sample_fee_repo sql_logs_def apply_limit_def instruction_query_def)
      (simp add: sample_fee_tee_def)
  have dec: "decodePay sample_fee_lib sample_fee_verifier sample_fee_req [1 \<mapsto> ?l] 3 1 = Inr sample_msg"
    by (simp add: decodePay_def sample_fee_fields DecodeTeeInstructionsSentEventData_def decodeInstructionEnvelope_def
        abiDecodeEventData_def sample_abi_def sample_fee_tee_def sample_tee_def sample_lib_def
        maxEventDataSize_def CheckInstructionConsistency_def sample_msg_def)
  have act: "computeActualFee sample_fee_lib sample_fee_verifier ''rS'' [102] = Inr 12"
    by (simp add: computeActualFee_def FetchTransactionsBySourceAndSequences_def sample_fee_verifier_def
        sample_verifier_def NewDBRepo_def apply_limit_def sample_txs_def tx_matches_def
        checkTxRowConsistency_def CheckRowConsistency_def sample_fee_lib_def sample_fold maxResponseSize_def
        parseTxFee_def ParseNonNegativeBigInt_def maxDropsDigits_def bigint_SetString10_def
        decimal_value_def digit_value_def ExceedsMaxXRPDrops_def bigint_IsUint64_def bigint_Uint64_def
        MaxXRPDrops_def)
  have "fst (VerifySequence ?tee sample_caller 7 ''rS'' 3 102 sample_bstate) = Inr ()"
    by (rule VerifySequence_accepts [OF sample_fee_env]) (simp_all add: caller_up_def sample_caller_def)
  then obtain s' where seq: "VerifySequence ?tee sample_caller 7 ''rS'' 3 102 sample_bstate = (Inr (), s')"
    by (metis prod.collapse)
  have msg: "msg_Nonce sample_msg = 102" "checkPayMaxFee sample_msg = Inr 20"
    by (simp_all add: sample_msg_def checkPayMaxFee_def ExceedsMaxXRPDrops_def bigint_IsUint64_def
        bigint_Uint64_def MaxXRPDrops_def)
  have ids: "batchPaymentIDs sample_fee_req = [3]" by (simp add: batchPaymentIDs_def sample_fee_req_def)
  have v: "validateBatchRange sample_fee_verifier sample_fee_req = Inr ()"
    by (simp add: validateBatchRange_def sample_fee_req_def sample_fee_verifier_def MaxBatchRange_def)
  have bits: "bigint_BitLen 20 \<le> 256" "bigint_BitLen 12 \<le> 256"
    by (intro bigint_BitLen_le; simp)+
  show ?thesis
    unfolding FeeProof_Verify_def
    using bits by (simp add: v sample_fee_fields ev ids pid logs dec msg seq sample_payment_fee act io_bind_def io_map_error_def)
qed

section \<open>Properties\<close>

text \<open>
  C2. A fee proof that is returned is right. Whenever \<open>Verify\<close> with the on-chain binder
  returns a response, \<open>fee_spec\<close> holds: every payment id from the first to the last of the batch, with no
  wrap-around, has a pay event bound to it, its sequence is the one the contract assigned,
  the sender has exactly one transaction at that sequence whose row and response agree, the
  estimated fee is the reference sum over payments and reissues, and the actual fee is the
  sum of the fees of those transactions.
\<close>

theorem fee_proof_sound:
  assumes "binder_env (fl_tee fl) truth caller s" and "serves_txs (fv_Repo x) txs"
    and "FeeProof_Verify fl (VerifySequence (fl_tee fl) caller) x req s = (Inr resp, s')"
  shows "fee_spec fl x truth txs req resp \<and> binder_env (fl_tee fl) truth caller s'"
  by (rule onchain.fee_sound [OF assms])

theorem fee_proof_sound_witness:
  "fee_spec sample_fee_lib sample_fee_verifier (\<lambda>_ _. 100) sample_txs sample_fee_req
     \<lparr>fr_LastPaymentId = 3, fr_ActualFee = 12, fr_EstimatedFee = 20\<rparr>"
proof -
  have t: "fl_tee sample_fee_lib = sample_fee_tee" by (simp add: sample_fee_lib_def)
  have r: "serves_txs (fv_Repo sample_fee_verifier) sample_txs"
    using sample_serves(2) by (simp add: sample_fee_verifier_def serves_txs_def)
  obtain s' where "FeeProof_Verify sample_fee_lib (VerifySequence sample_fee_tee sample_caller)
     sample_fee_verifier sample_fee_req sample_bstate =
     (Inr \<lparr>fr_LastPaymentId = 3, fr_ActualFee = 12, fr_EstimatedFee = 20\<rparr>, s')"
    using sample_fee_verify by blast
  then show ?thesis
    using fee_proof_sound [of sample_fee_lib "\<lambda>_ _. 100" sample_caller sample_bstate sample_fee_verifier
        sample_txs sample_fee_req, unfolded t, OF sample_fee_env r] by blast
qed

text \<open>
  C14. The batch bounds are exact. \<open>validateBatchRange\<close> accepts a request exactly when the
  count is at least 1, at most the cap (200 unless the instance overrides it), and the last
  payment id still fits 64 bits; then the ids the verifier iterates over are the
  consecutive numbers from the first id on.
\<close>

theorem batch_range_exact:
  "(validateBatchRange x req = Inr () \<longleftrightarrow>
      1 \<le> unat (fq_BatchCount req) \<and>
      unat (fq_BatchCount req) \<le> (if fv_maxBatchRange x = 0 then 200 else unat (fv_maxBatchRange x)) \<and>
      unat (fq_FirstPaymentId req) + unat (fq_BatchCount req) - 1 < 2 ^ 64) \<and>
   (validateBatchRange x req = Inr () \<longrightarrow>
      map unat (batchPaymentIDs req) =
        [unat (fq_FirstPaymentId req)..<unat (fq_FirstPaymentId req) + unat (fq_BatchCount req)])"
proof (intro conjI impI)
  show "validateBatchRange x req = Inr () \<longleftrightarrow>
      1 \<le> unat (fq_BatchCount req) \<and>
      unat (fq_BatchCount req) \<le> (if fv_maxBatchRange x = 0 then 200 else unat (fv_maxBatchRange x)) \<and>
      unat (fq_FirstPaymentId req) + unat (fq_BatchCount req) - 1 < 2 ^ 64"
    unfolding validateBatchRange_ok_iff One_nat_def Suc_le_eq ..
  assume "validateBatchRange x req = Inr ()"
  then show "map unat (batchPaymentIDs req) =
      [unat (fq_FirstPaymentId req)..<unat (fq_FirstPaymentId req) + unat (fq_BatchCount req)]"
    by (intro nth_equalityI) (simp_all add: unat_batchPaymentIDs)
qed

theorem batch_range_exact_witness:
  "map unat (batchPaymentIDs sample_fee_req) = [3]"
  using batch_range_exact [of sample_fee_verifier sample_fee_req]
  by (simp add: sample_fee_req_def sample_fee_verifier_def)

text \<open>
  C13. The scan over reissues ends, looks at no more than 32 reissues and undercounts
  nothing. If it succeeds, it has added exactly the fees above the payment's own maximum of reissues 1 to some
  \<open>k \<le> 32\<close>, all in the window, and reissue \<open>k + 1\<close> does not exist in the window; a
  33rd reissue in the window is refused.
\<close>

theorem reissue_scan_complete:
  "(paymentEstimatedFee fl x req ev pid p fee = Inr fee' \<longrightarrow>
      (\<exists>rs. reissues_of fl x req ev pid rs \<and> fee' = fee + payment_total p rs)) \<and>
   (length rs = 32 \<and> (\<forall>i < 32. reissueFeeAt fl x req ev pid (word_of_nat (Suc i)) = Inr (Some (rs ! i))) \<and>
      fetchReissue fl x req ev pid 33 = Inr (Some r) \<longrightarrow>
    paymentEstimatedFee fl x req ev pid p fee = Inl (tag ErrReissueLimitExceeded))"
proof (intro conjI impI)
  assume "paymentEstimatedFee fl x req ev pid p fee = Inr fee'"
  then show "\<exists>rs. reissues_of fl x req ev pid rs \<and> fee' = fee + payment_total p rs"
    by (rule paymentEstimatedFee_InrD)
next
  let ?f = "reissueFeeAt fl x req ev pid"
  assume A: "length rs = 32 \<and> (\<forall>i < 32. ?f (word_of_nat (Suc i)) = Inr (Some (rs ! i))) \<and>
    fetchReissue fl x req ev pid 33 = Inr (Some r)"
  have "\<exists>e. reissueLoop ?f p (word_of_nat (Suc (32 - k))) g = Inr (False, e)" if "k \<le> 32" for k g
    using that
  proof (induction k arbitrary: g)
    case 0
    show ?case by (simp add: reissueLoop.simps [of ?f] MaxReissuesPerPayment_def)
  next
    case (Suc k)
    define n where "n = Suc (32 - Suc k)"
    have n: "n \<le> 32" "Suc n = Suc (32 - k)" "n - 1 < 32" "Suc (n - 1) = n"
      using Suc.prems by (auto simp: n_def)
    have u: "unat (word_of_nat n :: u64) = n" unfolding unat_of_nat using n(1) by simp
    have next_: "(word_of_nat n :: u64) + 1 = word_of_nat (Suc (32 - k))"
      unfolding n(2) [symmetric] by simp
    from A n(3,4) have "?f (word_of_nat n) = Inr (Some (rs ! (n - 1)))" by metis
    with Suc u next_ n(1) show ?case
      unfolding n_def [symmetric]
      by (simp add: reissueLoop.simps [of ?f _ "word_of_nat n"] le_cap_iff Let_def del: of_nat_Suc)
  qed
  from this [of 32] obtain e where "reissueLoop ?f p 1 (fee + p) = Inr (False, e)" by auto
  with A show "paymentEstimatedFee fl x req ev pid p fee = Inl (tag ErrReissueLimitExceeded)"
    by (simp add: paymentEstimatedFee_def MaxReissuesPerPayment_def)
qed

theorem reissue_scan_complete_witness:
  "\<exists>rs. reissues_of sample_fee_lib sample_fee_verifier sample_fee_req (Hash_Hex sample_fee_tee 1) 3 rs \<and>
     20 = 0 + payment_total 20 rs"
proof -
  have "paymentEstimatedFee sample_fee_lib sample_fee_verifier sample_fee_req (Hash_Hex sample_fee_tee 1) 3 20 0 = Inr 20"
    by (rule sample_payment_fee)
  with reissue_scan_complete [of sample_fee_lib sample_fee_verifier sample_fee_req "Hash_Hex sample_fee_tee 1" 3 20 0 20]
  show ?thesis by blast
qed

text \<open>
  C15. What a fee proof reports is a \<open>uint256\<close>, and the 256-bit check never refuses a batch. With a valid binder the sums of
  a returned fee proof are not negative and at most the XRP supply for each payment (for the estimated fee, for each payment and
  each of its 32 reissues), so they lie below \<open>2^256\<close> whatever batch cap the instance uses; and whenever the range is
  valid and both sums are computed, \<open>Verify\<close> returns exactly them.
\<close>

theorem fee_sums_fit_uint256:
  assumes "binder_env (fl_tee fl) truth caller s"
  shows "(FeeProof_Verify fl (VerifySequence (fl_tee fl) caller) x req s = (Inr resp, s') \<longrightarrow>
      0 \<le> fr_ActualFee resp \<and> fr_ActualFee resp \<le> int (unat (fq_BatchCount req)) * 10 ^ 17 \<and> fr_ActualFee resp < 2 ^ 256 \<and>
      0 \<le> fr_EstimatedFee resp \<and> fr_EstimatedFee resp \<le> int (unat (fq_BatchCount req)) * (33 * 10 ^ 17) \<and>
      fr_EstimatedFee resp < 2 ^ 256) \<and>
    (validateBatchRange x req = Inr () \<and>
     TeeInstructionsSentEventSignature (fl_tee fl) (pc_ParsedTeeInstructionsABI (fv_Config x)) = Inr ev \<and>
     mapM (\<lambda>pid. map_error wrap1 (GeneratePayInstructionID (fl_tee fl) (fq_OpType req) (fv_source x)
        (fq_SenderAddress req) pid)) (batchPaymentIDs req) = Inr payIDs \<and>
     FetchInstructionLogs (fl_tee fl) (fv_Repo x) ev payIDs = Inr payLogs \<and>
     computeEstimatedFee fl (VerifySequence (fl_tee fl) caller) x req ev payLogs (zip (batchPaymentIDs req) payIDs) 0 [] s =
       (Inr (est, seqs), s') \<and>
     computeActualFee fl x (fq_SenderAddress req) seqs = Inr act \<longrightarrow>
     FeeProof_Verify fl (VerifySequence (fl_tee fl) caller) x req s =
       (Inr \<lparr>fr_LastPaymentId = fq_FirstPaymentId req + fq_BatchCount req - 1, fr_ActualFee = act, fr_EstimatedFee = est\<rparr>, s'))"
proof (intro conjI impI)
  assume "FeeProof_Verify fl (VerifySequence (fl_tee fl) caller) x req s = (Inr resp, s')"
  then obtain ev payIDs payLogs est seqs act where
    r: "computeEstimatedFee fl (VerifySequence (fl_tee fl) caller) x req ev payLogs (zip (batchPaymentIDs req) payIDs) 0 [] s = (Inr (est, seqs), s')"
      "computeActualFee fl x (fq_SenderAddress req) seqs = Inr act" and
    f: "fr_ActualFee resp = act" "fr_EstimatedFee resp = est"
    by (rule FeeProof_Verify_InrE) auto
  note sums = onchain.fee_sums_bounds [OF assms r] onchain.fee_sums_fit [OF assms r]
  from sums show "0 \<le> fr_ActualFee resp" "fr_ActualFee resp \<le> int (unat (fq_BatchCount req)) * 10 ^ 17" "fr_ActualFee resp < 2 ^ 256"
    "0 \<le> fr_EstimatedFee resp" "fr_EstimatedFee resp \<le> int (unat (fq_BatchCount req)) * (33 * 10 ^ 17)" "fr_EstimatedFee resp < 2 ^ 256"
    unfolding f by blast+
qed (use onchain.fee_sums_fit [OF assms] in \<open>auto simp: FeeProof_Verify_def io_simps leD io_bind_def\<close>)

theorem fee_sums_fit_uint256_witness:
  "\<exists>est act seqs s'. FeeProof_Verify sample_fee_lib (VerifySequence sample_fee_tee sample_caller) sample_fee_verifier sample_fee_req sample_bstate =
      (Inr \<lparr>fr_LastPaymentId = 3, fr_ActualFee = act, fr_EstimatedFee = est\<rparr>, s') \<and>
     computeActualFee sample_fee_lib sample_fee_verifier ''rS'' seqs = Inr act \<and> act = 12 \<and> est = 20 \<and>
     act \<le> int (unat (fq_BatchCount sample_fee_req)) * 10 ^ 17 \<and> est \<le> int (unat (fq_BatchCount sample_fee_req)) * (33 * 10 ^ 17)"
proof -
  have t: "fl_tee sample_fee_lib = sample_fee_tee" by (simp add: sample_fee_lib_def)
  have q: "fq_SenderAddress sample_fee_req = ''rS''" "fq_FirstPaymentId sample_fee_req + fq_BatchCount sample_fee_req - 1 = 3"
    by (simp_all add: sample_fee_req_def)
  note bounds = fee_sums_fit_uint256 [of sample_fee_lib "\<lambda>_ _. 100" sample_caller sample_bstate, unfolded t, OF sample_fee_env]
  obtain s' where run: "FeeProof_Verify sample_fee_lib (VerifySequence sample_fee_tee sample_caller) sample_fee_verifier sample_fee_req
      sample_bstate = (Inr \<lparr>fr_LastPaymentId = 3, fr_ActualFee = 12, fr_EstimatedFee = 20\<rparr>, s')"
    using sample_fee_verify by blast
  then obtain ev payIDs payLogs est seqs act where
    i: "validateBatchRange sample_fee_verifier sample_fee_req = Inr ()"
      "TeeInstructionsSentEventSignature sample_fee_tee (pc_ParsedTeeInstructionsABI (fv_Config sample_fee_verifier)) = Inr ev"
      "mapM (\<lambda>pid. map_error wrap1 (GeneratePayInstructionID sample_fee_tee (fq_OpType sample_fee_req) (fv_source sample_fee_verifier)
        (fq_SenderAddress sample_fee_req) pid)) (batchPaymentIDs sample_fee_req) = Inr payIDs"
      "FetchInstructionLogs sample_fee_tee (fv_Repo sample_fee_verifier) ev payIDs = Inr payLogs"
      "computeEstimatedFee sample_fee_lib (VerifySequence sample_fee_tee sample_caller) sample_fee_verifier sample_fee_req ev payLogs
        (zip (batchPaymentIDs sample_fee_req) payIDs) 0 [] sample_bstate = (Inr (est, seqs), s')"
      "computeActualFee sample_fee_lib sample_fee_verifier (fq_SenderAddress sample_fee_req) seqs = Inr act"
    by (rule FeeProof_Verify_InrE) (auto simp: t)
  from i have again: "FeeProof_Verify sample_fee_lib (VerifySequence sample_fee_tee sample_caller) sample_fee_verifier sample_fee_req sample_bstate =
      (Inr \<lparr>fr_LastPaymentId = fq_FirstPaymentId sample_fee_req + fq_BatchCount sample_fee_req - 1, fr_ActualFee = act, fr_EstimatedFee = est\<rparr>, s')"
    by (intro bounds [THEN conjunct2, THEN mp] conjI)
  with run have "act = 12" "est = 20" by simp_all
  with again i(6) bounds [THEN conjunct1, THEN mp, OF run] show ?thesis unfolding q by (intro exI conjI) auto
qed

end
