(* ===== verification/Multisig.thy ===== *)
theory Multisig
  imports Config
begin

text \<open>
  \<open>internal/attestation/pmwmultisigconfigured/xrp\<close> and the request checks of
  \<open>internal/api/types/pmw_multisig_account_configured.go\<close>: whether an XRPL account is controlled by
  exactly a given set of keys, and the pinning of the node to the network of the source.

  The XRPL node (behind the \<open>PostWithRetry\<close> of go-flare-common) and the clock are
  parameters over a state \<open>'w\<close> of the outside world; the verifier's own state is the time of
  the last network confirmation. Public-key parsing and the address codec are parameters;
  a parsed key is an opaque handle.
\<close>

section \<open>Requests\<close>

record MultisigRequest =
  mq_AccountAddress :: string
  mq_PublicKeys :: "bytes list"
  mq_Threshold :: u64

record MultisigResponse =
  mr_Status :: u8
  mr_Sequence :: u64

definition PMWMultisigAccountStatusOK :: u8 where "PMWMultisigAccountStatusOK = 0"
definition PMWMultisigAccountStatusERROR :: u8 where "PMWMultisigAccountStatusERROR = 1"

definition MaxPublicKeys :: nat where "MaxPublicKeys = 32"

fun validate_keys_loop :: "bytes list \<Rightarrow> bytes list \<Rightarrow> unit result" where
  "validate_keys_loop [] seen = Inr ()"
| "validate_keys_loop (pk # pks) seen =
     (if length pk = 0 then Inl Plain
      else if pk \<in> set seen then Inl Plain
      else validate_keys_loop pks (pk # seen))"

definition ValidatePublicKeys :: "bytes list \<Rightarrow> unit result" where
  "ValidatePublicKeys publicKeys =
     (if length publicKeys > MaxPublicKeys then Inl Plain else validate_keys_loop publicKeys [])"

definition ValidateMultisigRequest :: "bytes list \<Rightarrow> u64 \<Rightarrow> unit result" where
  "ValidateMultisigRequest publicKeys threshold =
     (if length publicKeys = 0 then Inl Plain
      else rbind (ValidatePublicKeys publicKeys) (\<lambda>_.
           if threshold = 0 then Inl Plain else Inr ()))"

definition Multisig_ToInternal :: "MultisigRequest \<Rightarrow> MultisigRequest result" where
  "Multisig_ToInternal requestBody =
     rbind (ValidateMultisigRequest (mq_PublicKeys requestBody) (mq_Threshold requestBody)) (\<lambda>_.
     Inr requestBody)"

section \<open>Replies of the node\<close>

record SignerEntry =
  se_Account :: string
  se_SignerWeight :: u16

record SignerList =
  sl_SignerQuorum :: u64
  sl_SignerEntries :: "SignerEntry list"

record AccountFlags =
  af_DisableMasterKey :: bool
  af_DepositAuth :: bool
  af_RequireDestinationTag :: bool
  af_DisallowIncomingXRP :: bool

record AccountData =
  ad_Account :: string
  ad_Sequence :: u64
  ad_RegularKey :: string
  ad_SignerLists :: "SignerList list"

record AccountInfoResult =
  ai_AccountData :: AccountData
  ai_AccountFlags :: "AccountFlags option"
  ai_SignerLists :: "SignerList list"
  ai_Status :: string
  ai_Error :: string
  ai_Validated :: "bool option"

text \<open>\<open>si_NetworkID\<close> is the raw text of the field, \<open>None\<close> when it is absent.\<close>

record ServerInfo =
  si_Status :: string
  si_NetworkID :: "string option"

definition ResolveSignerLists :: "AccountInfoResult \<Rightarrow> SignerList list" where
  "ResolveSignerLists r =
     (if length (ad_SignerLists (ai_AccountData r)) > 0 then ad_SignerLists (ai_AccountData r)
      else ai_SignerLists r)"

definition AccountsMap :: "SignerList \<Rightarrow> (string \<times> u16) list" where
  "AccountsMap sl = fold (\<lambda>e m. AList.update (se_Account e) (se_SignerWeight e) m) (sl_SignerEntries sl) []"

definition NetworkID_UnmarshalJSON :: "string \<Rightarrow> u32 option result" where
  "NetworkID_UnmarshalJSON b =
     (let s = bytes_Trim (strings_TrimSpace b) (CHR 0x22)
      in if s = '''' \<or> s = ''null'' then Inr None
         else rbind (map_error wrap1 (strconv_ParseUint10 s 32)) (\<lambda>v. Inr (Some (word_of_nat v))))"

section \<open>The client\<close>

record 'w xrpl_node =
  PostAccountInfo :: "string \<Rightarrow> 'w \<Rightarrow> AccountInfoResult result \<times> 'w"
  PostServerInfo :: "'w \<Rightarrow> ServerInfo result \<times> 'w"
  node_clock :: "'w \<Rightarrow> instant \<times> 'w"

definition transientRPCErrors :: "string list" where
  "transientRPCErrors =
     [''noNetwork'', ''noCurrent'', ''noClosed'', ''tooBusy'', ''slowDown'', ''internal'', ''amendmentBlocked'']"

definition rpcStatusError :: "string \<Rightarrow> goerr" where
  "rpcStatusError errorCode =
     (if errorCode \<in> set transientRPCErrors then tag ErrRPCTransient else tag ErrRPCNonSuccess)"

definition FetchAccountInfo :: "'w xrpl_node \<Rightarrow> string \<Rightarrow> 'w \<Rightarrow> AccountInfoResult result \<times> 'w" where
  "FetchAccountInfo node account w =
     (case PostAccountInfo node account w of
        (Inl err, w') \<Rightarrow> (Inl (tag_with ErrFetchAccountInfo err), w')
      | (Inr r, w') \<Rightarrow>
          if ai_Status r \<noteq> ''success'' then (Inl (rpcStatusError (ai_Error r)), w') else (Inr r, w'))"

text \<open>The field is decoded while the reply is, so its error is a fetch error.\<close>

definition Client_NetworkID :: "'w xrpl_node \<Rightarrow> 'w \<Rightarrow> u32 option result \<times> 'w" where
  "Client_NetworkID node w =
     (case PostServerInfo node w of
        (Inl err, w') \<Rightarrow> (Inl (tag_with ErrFetchServerInfo err), w')
      | (Inr r, w') \<Rightarrow>
          (rbind (map_error (tag_with ErrFetchServerInfo)
             (case si_NetworkID r of None \<Rightarrow> Inr None | Some b \<Rightarrow> NetworkID_UnmarshalJSON b)) (\<lambda>nid.
           if si_Status r \<noteq> ''success'' then Inl (tag ErrFetchServerInfo) else Inr nid), w'))"

section \<open>Network pinning\<close>

record 'w ms_state =
  ms_lastVerifiedNano :: instant
  ms_world :: 'w

definition networkVerifyTTL :: duration where "networkVerifyTTL = 30 * minute_ns"

definition ms_clock :: "'w xrpl_node \<Rightarrow> ('w ms_state, goerr, instant) io" where
  "ms_clock node s = (case node_clock node (ms_world s) of (t, w) \<Rightarrow> (Inr t, s\<lparr>ms_world := w\<rparr>))"

definition verifiedFresh :: "'w xrpl_node \<Rightarrow> ('w ms_state, goerr, bool) io" where
  "verifiedFresh node s =
     (let last = ms_lastVerifiedNano s
      in if last = 0 then (Inr False, s)
         else io_bind (ms_clock node) (\<lambda>now. io_return (now - last < networkVerifyTTL)) s)"

definition expectedNetworkID :: "source_name \<Rightarrow> u32 option" where
  "expectedNetworkID source =
     (if source = SourceXRP then Some 0 else if source = SourceTestXRP then Some 1 else None)"

definition store_now :: "'w xrpl_node \<Rightarrow> ('w ms_state, goerr, unit) io" where
  "store_now node = io_bind (ms_clock node) (\<lambda>t. io_modify (\<lambda>s. s\<lparr>ms_lastVerifiedNano := t\<rparr>))"

definition ms_NetworkID :: "'w xrpl_node \<Rightarrow> ('w ms_state, goerr, u32 option) io" where
  "ms_NetworkID node s = (case Client_NetworkID node (ms_world s) of (r, w) \<Rightarrow> (r, s\<lparr>ms_world := w\<rparr>))"

definition checkNetwork :: "'w xrpl_node \<Rightarrow> PMWMultisigAccountConfig \<Rightarrow> ('w ms_state, goerr, unit) io" where
  "checkNetwork node cfg =
     (case expectedNetworkID (enc_SourceID (mc_enc cfg)) of
        None \<Rightarrow> store_now node
      | Some expected \<Rightarrow>
          io_bind (ms_NetworkID node) (\<lambda>nid.
          case nid of
            None \<Rightarrow> io_lift (Inl (tag ErrFetchServerInfo))
          | Some got \<Rightarrow>
              if got \<noteq> expected then io_lift (Inl (tag ErrNetworkMismatch)) else store_now node))"

definition VerifyNetwork :: "'w xrpl_node \<Rightarrow> PMWMultisigAccountConfig \<Rightarrow> ('w ms_state, goerr, unit) io" where
  "VerifyNetwork node cfg s =
     (case checkNetwork node cfg s of
        (Inr u, s') \<Rightarrow> (Inr u, s')
      | (Inl err, s') \<Rightarrow> if errors_Is err ErrNetworkMismatch then (Inl err, s') else (Inr (), s'))"

definition ensureNetworkVerified ::
  "'w xrpl_node \<Rightarrow> PMWMultisigAccountConfig \<Rightarrow> ('w ms_state, goerr, unit) io" where
  "ensureNetworkVerified node cfg =
     io_bind (verifiedFresh node) (\<lambda>fresh.
     if fresh then io_return ()
     else io_bind (verifiedFresh node) (\<lambda>fresh.
          if fresh then io_return () else checkNetwork node cfg))"

section \<open>Account validation\<close>

record key_lib =
  ParsePubKeyBytes :: "bytes \<Rightarrow> nat result"
  CompressPubkey :: "nat \<Rightarrow> bytes"
  PubToAddress :: "string \<Rightarrow> string result"

definition XRPAddressFromPubKey :: "key_lib \<Rightarrow> bytes \<Rightarrow> string result" where
  "XRPAddressFromPubKey kl pubkey =
     rbind (ParsePubKeyBytes kl pubkey) (\<lambda>pk.
     PubToAddress kl (hex_EncodeToString (CompressPubkey kl pk)))"

definition checkAccountFlags :: "AccountFlags \<Rightarrow> unit result" where
  "checkAccountFlags flags =
     (if \<not> af_DisableMasterKey flags then Inl Plain
      else if af_DepositAuth flags then Inl Plain
      else if af_RequireDestinationTag flags then Inl Plain
      else if af_DisallowIncomingXRP flags then Inl Plain
      else Inr ())"

text \<open>\<open>expectedAccounts\<close> is a Go set: a list without duplicates.\<close>

fun expected_accounts :: "key_lib \<Rightarrow> bytes list \<Rightarrow> string list \<Rightarrow> string list option" where
  "expected_accounts kl [] acc = Some acc"
| "expected_accounts kl (pk # pks) acc =
     (case XRPAddressFromPubKey kl pk of
        Inl err \<Rightarrow> None
      | Inr addrStr \<Rightarrow> expected_accounts kl pks (List.insert addrStr acc))"

definition validateSignerList :: "key_lib \<Rightarrow> SignerList \<Rightarrow> MultisigRequest \<Rightarrow> bool" where
  "validateSignerList kl signerList req =
     (case expected_accounts kl (mq_PublicKeys req) [] of
        None \<Rightarrow> False
      | Some expectedAccounts \<Rightarrow>
          (let actualAccounts = AccountsMap signerList
           in if length actualAccounts \<noteq> length expectedAccounts then False
              else if \<not> list_all (\<lambda>acc. map_of actualAccounts acc = Some 1) expectedAccounts then False
              else sl_SignerQuorum signerList = mq_Threshold req))"

definition validateMultisigConfiguration ::
  "key_lib \<Rightarrow> AccountInfoResult \<Rightarrow> MultisigRequest \<Rightarrow> u64 result" where
  "validateMultisigConfiguration kl r req =
     (if ad_Account (ai_AccountData r) \<noteq> mq_AccountAddress req then Inl (tag ErrValidationFailed)
      else if ai_Validated r \<noteq> Some True then Inl (tag ErrValidationFailed)
      else (case ResolveSignerLists r of
              [] \<Rightarrow> Inl (tag ErrValidationFailed)
            | signerList # _ \<Rightarrow>
                if \<not> validateSignerList kl signerList req then Inl (tag ErrValidationFailed)
                else (case ai_AccountFlags r of
                        None \<Rightarrow> Inl (tag ErrValidationFailed)
                      | Some flags \<Rightarrow>
                          rbind (map_error (\<lambda>err. Wrap [err, Sentinel ErrValidationFailed]) (checkAccountFlags flags)) (\<lambda>_.
                          if ad_RegularKey (ai_AccountData r) \<noteq> '''' then Inl (tag ErrValidationFailed)
                          else Inr (ad_Sequence (ai_AccountData r))))))"

definition ms_FetchAccountInfo :: "'w xrpl_node \<Rightarrow> string \<Rightarrow> ('w ms_state, goerr, AccountInfoResult) io" where
  "ms_FetchAccountInfo node account s =
     (case FetchAccountInfo node account (ms_world s) of (r, w) \<Rightarrow> (r, s\<lparr>ms_world := w\<rparr>))"

definition Multisig_Verify ::
  "'w xrpl_node \<Rightarrow> key_lib \<Rightarrow> PMWMultisigAccountConfig \<Rightarrow> MultisigRequest \<Rightarrow>
   ('w ms_state, goerr, MultisigResponse) io" where
  "Multisig_Verify node kl cfg req =
     io_bind (io_lift (map_error (tag_with ErrInvalidRequest)
       (ValidateMultisigRequest (mq_PublicKeys req) (mq_Threshold req)))) (\<lambda>_.
     io_bind (ensureNetworkVerified node cfg) (\<lambda>_.
     io_bind (ms_FetchAccountInfo node (mq_AccountAddress req)) (\<lambda>accountInfo.
     case validateMultisigConfiguration kl accountInfo req of
       Inl err \<Rightarrow> io_return \<lparr>mr_Status = PMWMultisigAccountStatusERROR, mr_Sequence = 0\<rparr>
     | Inr sequence \<Rightarrow> io_return \<lparr>mr_Status = PMWMultisigAccountStatusOK, mr_Sequence = sequence\<rparr>)))"

section \<open>Lemmas: requests\<close>

lemma validate_keys_loop_ok:
  "validate_keys_loop pks seen = Inr () \<longleftrightarrow>
     [] \<notin> set pks \<and> distinct pks \<and> set pks \<inter> set seen = {}"
  by (induction pks seen rule: validate_keys_loop.induct) auto

lemma ValidateMultisigRequest_ok_iff:
  "ValidateMultisigRequest pks n = Inr () \<longleftrightarrow>
     1 \<le> length pks \<and> length pks \<le> 32 \<and> [] \<notin> set pks \<and> distinct pks \<and> n \<noteq> 0"
  by (cases pks)
     (auto simp: ValidateMultisigRequest_def ValidatePublicKeys_def MaxPublicKeys_def
       validate_keys_loop_ok result_simps split: if_splits)

section \<open>Lemmas: signer list\<close>

lemma expected_accounts_eq:
  "expected_accounts kl pks acc =
     (case mapM (XRPAddressFromPubKey kl) pks of
        Inl e \<Rightarrow> None
      | Inr addrs \<Rightarrow> Some (fold List.insert addrs acc))"
proof (induction pks arbitrary: acc)
  case (Cons pk pks)
  then show ?case
    by (cases "XRPAddressFromPubKey kl pk"; cases "mapM (XRPAddressFromPubKey kl) pks") auto
qed simp

lemma fold_insert_facts:
  "distinct acc \<Longrightarrow> distinct (fold List.insert xs acc) \<and> set (fold List.insert xs acc) = set xs \<union> set acc"
  by (induction xs arbitrary: acc) auto

lemma AccountsMap_distinct: "distinct (map fst (AccountsMap sl))"
proof -
  have "distinct (map fst m) \<Longrightarrow>
      distinct (map fst (fold (\<lambda>e m. AList.update (se_Account e) (se_SignerWeight e) m) es m))" for es :: "SignerEntry list" and m
    by (induction es arbitrary: m) (auto simp: AList.distinct_update)
  then show ?thesis by (simp add: AccountsMap_def)
qed

lemma AccountsMap_map_of:
  "map_of (AccountsMap sl) = map_of (rev (map (\<lambda>e. (se_Account e, se_SignerWeight e)) (sl_SignerEntries sl)))"
proof -
  have "map_of (fold (\<lambda>e m. AList.update (se_Account e) (se_SignerWeight e) m) es m) =
      map_of m ++ map_of (rev (map (\<lambda>e. (se_Account e, se_SignerWeight e)) es))"
    for es :: "SignerEntry list" and m
    by (induction es arbitrary: m) (auto simp: AList.update_conv' map_add_def fun_eq_iff split: option.splits)
  then show ?thesis by (simp add: AccountsMap_def)
qed

lemma length_alist_card: "distinct (map fst m) \<Longrightarrow> length m = card (dom (map_of m))"
  by (metis distinct_card dom_map_of_conv_image_fst length_map set_map)

text \<open>The weights the ledger holds are exactly weight 1 for each of the given addresses.\<close>

definition exact_signers :: "SignerList \<Rightarrow> string list \<Rightarrow> bool" where
  "exact_signers sl addrs \<longleftrightarrow>
     map_of (AccountsMap sl) = (\<lambda>a. if a \<in> set addrs then Some 1 else None)"

lemma validateSignerList_iff:
  "validateSignerList kl sl req \<longleftrightarrow>
     (\<exists>addrs. mapM (XRPAddressFromPubKey kl) (mq_PublicKeys req) = Inr addrs \<and>
        exact_signers sl addrs \<and> sl_SignerQuorum sl = mq_Threshold req)"
proof (cases "mapM (XRPAddressFromPubKey kl) (mq_PublicKeys req)")
  case (Inl e)
  then show ?thesis by (simp add: validateSignerList_def expected_accounts_eq)
next
  case (Inr addrs)
  let ?m = "map_of (AccountsMap sl)" and ?ex = "fold List.insert addrs []"
  have ex: "distinct ?ex" "set ?ex = set addrs" using fold_insert_facts [of "[]" addrs] by auto
  have lens: "length (AccountsMap sl) = card (dom ?m)" "length ?ex = card (set addrs)"
    using length_alist_card [OF AccountsMap_distinct] distinct_card [OF ex(1)] ex(2) by auto
  have "(card (dom ?m) = card (set addrs) \<and> (\<forall>a \<in> set addrs. ?m a = Some 1)) \<longleftrightarrow> exact_signers sl addrs"
  proof
    assume A: "card (dom ?m) = card (set addrs) \<and> (\<forall>a \<in> set addrs. ?m a = Some 1)"
    then have "set addrs \<subseteq> dom ?m" by auto
    then have "set addrs = dom ?m"
      using A card_subset_eq [of "dom ?m" "set addrs"] finite_dom_map_of by metis
    with A show "exact_signers sl addrs" unfolding exact_signers_def by (auto simp: fun_eq_iff)
  next
    assume E: "exact_signers sl addrs"
    then have "dom ?m = set addrs" unfolding exact_signers_def by (auto split: if_splits)
    with E show "card (dom ?m) = card (set addrs) \<and> (\<forall>a \<in> set addrs. ?m a = Some 1)"
      unfolding exact_signers_def by simp
  qed
  then show ?thesis
    unfolding validateSignerList_def expected_accounts_eq Let_def list_all_iff
    using Inr ex lens by auto
qed

section \<open>Lemmas: account validation\<close>

text \<open>The account is controlled by exactly the requested keys, and accepts payments.\<close>

definition account_configured :: "key_lib \<Rightarrow> AccountInfoResult \<Rightarrow> MultisigRequest \<Rightarrow> bool" where
  "account_configured kl r req \<longleftrightarrow>
     ad_Account (ai_AccountData r) = mq_AccountAddress req \<and> ai_Validated r = Some True \<and>
     (\<exists>sl rest addrs. ResolveSignerLists r = sl # rest \<and>
        mapM (XRPAddressFromPubKey kl) (mq_PublicKeys req) = Inr addrs \<and>
        exact_signers sl addrs \<and> sl_SignerQuorum sl = mq_Threshold req) \<and>
     ai_AccountFlags r = Some \<lparr>af_DisableMasterKey = True, af_DepositAuth = False,
        af_RequireDestinationTag = False, af_DisallowIncomingXRP = False\<rparr> \<and>
     ad_RegularKey (ai_AccountData r) = ''''"

lemma checkAccountFlags_ok_iff:
  "checkAccountFlags f = Inr () \<longleftrightarrow>
     f = \<lparr>af_DisableMasterKey = True, af_DepositAuth = False, af_RequireDestinationTag = False,
          af_DisallowIncomingXRP = False\<rparr>"
  by (cases f) (auto simp: checkAccountFlags_def)

lemma validateMultisigConfiguration_ok_iff:
  "validateMultisigConfiguration kl r req = Inr n \<longleftrightarrow>
     account_configured kl r req \<and> n = ad_Sequence (ai_AccountData r)"
  by (cases "ResolveSignerLists r"; cases "ai_AccountFlags r")
     (auto simp: validateMultisigConfiguration_def account_configured_def validateSignerList_iff
       result_simps checkAccountFlags_ok_iff)

section \<open>Lemmas: network\<close>

text \<open>The node answered with the network of the source, and the clock then read \<open>t\<close>.\<close>

definition confirmed_at :: "'w xrpl_node \<Rightarrow> PMWMultisigAccountConfig \<Rightarrow> instant \<Rightarrow> bool" where
  "confirmed_at node cfg t \<longleftrightarrow>
     (\<exists>n w w' w''. expectedNetworkID (enc_SourceID (mc_enc cfg)) = Some n \<and>
        Client_NetworkID node w = (Inr (Some n), w') \<and> node_clock node w' = (t, w''))"

definition network_inv :: "'w xrpl_node \<Rightarrow> PMWMultisigAccountConfig \<Rightarrow> 'w ms_state \<Rightarrow> bool" where
  "network_inv node cfg s \<longleftrightarrow>
     expectedNetworkID (enc_SourceID (mc_enc cfg)) \<noteq> None \<longrightarrow>
     ms_lastVerifiedNano s = 0 \<or> confirmed_at node cfg (ms_lastVerifiedNano s)"

lemma store_now_eq:
  "store_now node s = (case node_clock node (ms_world s) of
     (t, w) \<Rightarrow> (Inr (), s\<lparr>ms_world := w, ms_lastVerifiedNano := t\<rparr>))"
  by (simp add: store_now_def ms_clock_def io_bind_def split: prod.splits)

lemma checkNetwork_facts:
  assumes "checkNetwork node cfg s = (r, s')" and "expectedNetworkID (enc_SourceID (mc_enc cfg)) \<noteq> None"
  shows "r = Inr u \<Longrightarrow> confirmed_at node cfg (ms_lastVerifiedNano s')"
    and "r = Inl e \<Longrightarrow> ms_lastVerifiedNano s' = ms_lastVerifiedNano s"
proof -
  from assms(2) obtain n where n: "expectedNetworkID (enc_SourceID (mc_enc cfg)) = Some n" by blast
  obtain a w where a: "Client_NetworkID node (ms_world s) = (a, w)"
    by (cases "Client_NetworkID node (ms_world s)") blast
  obtain t w' where t: "node_clock node w = (t, w')" by (cases "node_clock node w") blast
  show "r = Inr u \<Longrightarrow> confirmed_at node cfg (ms_lastVerifiedNano s')"
    using assms(1) n a t unfolding confirmed_at_def
    by (auto simp: checkNetwork_def ms_NetworkID_def io_bind_def store_now_eq
        split: sum.splits option.splits if_splits prod.splits) blast
  show "r = Inl e \<Longrightarrow> ms_lastVerifiedNano s' = ms_lastVerifiedNano s"
    using assms(1) n a t
    by (auto simp: checkNetwork_def ms_NetworkID_def io_bind_def store_now_eq
        split: sum.splits option.splits if_splits prod.splits)
qed

lemma checkNetwork_inv:
  "network_inv node cfg s \<Longrightarrow> checkNetwork node cfg s = (r, s') \<Longrightarrow> network_inv node cfg s'"
  using checkNetwork_facts [of node cfg s r s'] by (cases r) (auto simp: network_inv_def)

lemma verifiedFresh_facts:
  assumes "verifiedFresh node s = (r, s')"
  shows "ms_lastVerifiedNano s' = ms_lastVerifiedNano s"
    and "r = Inr True \<Longrightarrow> ms_lastVerifiedNano s \<noteq> 0 \<and>
      (\<exists>w now w'. node_clock node w = (now, w') \<and> now - ms_lastVerifiedNano s < networkVerifyTTL)"
  using assms by (auto simp: verifiedFresh_def ms_clock_def io_bind_def Let_def split: if_splits prod.splits)
    blast

lemma network_inv_last:
  "network_inv node cfg s \<Longrightarrow> ms_lastVerifiedNano s' = ms_lastVerifiedNano s \<Longrightarrow> network_inv node cfg s'"
  by (simp add: network_inv_def)

text \<open>A confirmation recent at some clock reading, or made just now.\<close>

definition network_fresh :: "'w xrpl_node \<Rightarrow> PMWMultisigAccountConfig \<Rightarrow> bool" where
  "network_fresh node cfg \<longleftrightarrow>
     (\<exists>t w now w'. confirmed_at node cfg t \<and> node_clock node w = (now, w') \<and> now - t < networkVerifyTTL)"

lemma confirmed_fresh: "confirmed_at node cfg t \<Longrightarrow> network_fresh node cfg"
  unfolding network_fresh_def confirmed_at_def networkVerifyTTL_def by fastforce

lemma ensureNetworkVerified_facts:
  assumes inv: "network_inv node cfg s" and "ensureNetworkVerified node cfg s = (r, s')"
  shows "network_inv node cfg s'"
    and "r = Inr u \<Longrightarrow> expectedNetworkID (enc_SourceID (mc_enc cfg)) \<noteq> None \<Longrightarrow> network_fresh node cfg"
proof -
  obtain r1 s1 where 1: "verifiedFresh node s = (r1, s1)" by (cases "verifiedFresh node s") blast
  obtain r2 s2 where 2: "verifiedFresh node s1 = (r2, s2)" by (cases "verifiedFresh node s1") blast
  have r: "\<exists>b. r1 = Inr b" "\<exists>b. r2 = Inr b"
    using 1 2 by (auto simp: verifiedFresh_def ms_clock_def io_bind_def Let_def split: if_splits prod.splits)
  have inv1: "network_inv node cfg s1" and inv2: "network_inv node cfg s2"
    using verifiedFresh_facts(1) [OF 1] verifiedFresh_facts(1) [OF 2] inv by (simp_all add: network_inv_def)
  have fresh: "network_fresh node cfg" if "network_inv node cfg t" "verifiedFresh node t = (Inr True, t')"
    "expectedNetworkID (enc_SourceID (mc_enc cfg)) \<noteq> None" for t t'
    using verifiedFresh_facts(2) [OF that(2) refl] that(1,3)
    by (auto simp: network_inv_def network_fresh_def)
  show "network_inv node cfg s'"
    using assms(2) r 1 2 inv1 inv2 checkNetwork_inv [OF inv2]
    by (auto simp: ensureNetworkVerified_def io_bind_def split: if_splits)
  show "network_fresh node cfg" if "r = Inr u" "expectedNetworkID (enc_SourceID (mc_enc cfg)) \<noteq> None"
  proof (cases "r1 = Inr True \<or> r2 = Inr True")
    case True
    then show ?thesis using fresh [OF inv] fresh [OF inv1] 1 2 that by blast
  next
    case False
    with r have "r1 = Inr False" "r2 = Inr False" by auto
    then have "checkNetwork node cfg s2 = (Inr u, s')"
      using assms(2) 1 2 that(1) by (simp add: ensureNetworkVerified_def io_bind_def)
    from checkNetwork_facts(1) [OF this that(2) refl] show ?thesis by (rule confirmed_fresh)
  qed
qed

text \<open>
  The clock is read at most twice before the node is asked. \<open>confirmed_for\<close> relates the states before and after
  the network check of one request: the recorded confirmation was younger than its time-to-live at one of these
  readings and stays recorded, or the node was asked, reported the network of the source, and the time
  read after its answer is recorded.
\<close>

definition clock_readings :: "'w xrpl_node \<Rightarrow> 'w \<Rightarrow> instant list" where
  "clock_readings node w =
     (case node_clock node w of (t1, w1) \<Rightarrow> case node_clock node w1 of (t2, w2) \<Rightarrow> [t1, t2])"

definition probe_world :: "'w xrpl_node \<Rightarrow> 'w ms_state \<Rightarrow> 'w" where
  "probe_world node s =
     (if ms_lastVerifiedNano s = 0 then ms_world s
      else snd (node_clock node (snd (node_clock node (ms_world s)))))"

definition confirmed_for ::
  "'w xrpl_node \<Rightarrow> PMWMultisigAccountConfig \<Rightarrow> 'w ms_state \<Rightarrow> 'w ms_state \<Rightarrow> bool" where
  "confirmed_for node cfg s s' \<longleftrightarrow>
     ms_lastVerifiedNano s \<noteq> 0 \<and> ms_lastVerifiedNano s' = ms_lastVerifiedNano s \<and>
       (\<exists>now \<in> set (clock_readings node (ms_world s)). now - ms_lastVerifiedNano s < networkVerifyTTL) \<or>
     (\<exists>n w t w'. expectedNetworkID (enc_SourceID (mc_enc cfg)) = Some n \<and>
        Client_NetworkID node (probe_world node s) = (Inr (Some n), w) \<and> node_clock node w = (t, w') \<and>
        ms_lastVerifiedNano s' = t)"

lemma checkNetwork_asked:
  assumes "checkNetwork node cfg s = (Inr u, s')" and "expectedNetworkID (enc_SourceID (mc_enc cfg)) = Some n"
  shows "\<exists>w t w'. Client_NetworkID node (ms_world s) = (Inr (Some n), w) \<and> node_clock node w = (t, w') \<and>
    ms_lastVerifiedNano s' = t"
  using assms
  by (auto simp: checkNetwork_def ms_NetworkID_def io_bind_def store_now_eq
      split: sum.splits option.splits if_splits prod.splits)

lemma ensureNetworkVerified_confirmed:
  assumes "ensureNetworkVerified node cfg s = (Inr u, s')" and n: "expectedNetworkID (enc_SourceID (mc_enc cfg)) = Some n"
  shows "confirmed_for node cfg s s'"
proof -
  obtain t1 w1 where 1: "node_clock node (ms_world s) = (t1, w1)" by (cases "node_clock node (ms_world s)") blast
  obtain t2 w2 where 2: "node_clock node w1 = (t2, w2)" by (cases "node_clock node w1") blast
  let ?last = "ms_lastVerifiedNano s" and ?s2 = "s\<lparr>ms_world := probe_world node s\<rparr>"
  have pw: "probe_world node s = (if ?last = 0 then ms_world s else w2)" by (simp add: probe_world_def 1 2)
  have "?last \<noteq> 0 \<and> ms_lastVerifiedNano s' = ?last \<and> (t1 - ?last < networkVerifyTTL \<or> t2 - ?last < networkVerifyTTL) \<or>
      checkNetwork node cfg ?s2 = (Inr u, s')"
    using assms(1) 1 2 by (auto simp: ensureNetworkVerified_def verifiedFresh_def ms_clock_def io_bind_def pw
        split: if_splits)
  moreover have "set (clock_readings node (ms_world s)) = {t1, t2}" by (simp add: clock_readings_def 1 2)
  ultimately show ?thesis
    using checkNetwork_asked [of node cfg ?s2 u s' n] n unfolding confirmed_for_def by auto
qed

lemma Multisig_Verify_InrD:
  assumes "Multisig_Verify node kl cfg req s = (Inr resp, s')"
  obtains u s1 r w where
    "ValidateMultisigRequest (mq_PublicKeys req) (mq_Threshold req) = Inr ()"
    "ensureNetworkVerified node cfg s = (Inr u, s1)"
    "PostAccountInfo node (mq_AccountAddress req) (ms_world s1) = (Inr r, w)" "ai_Status r = ''success''"
    "s' = s1\<lparr>ms_world := w\<rparr>"
    "resp = (if account_configured kl r req
       then \<lparr>mr_Status = PMWMultisigAccountStatusOK, mr_Sequence = ad_Sequence (ai_AccountData r)\<rparr>
       else \<lparr>mr_Status = PMWMultisigAccountStatusERROR, mr_Sequence = 0\<rparr>)"
proof -
  from assms obtain v u s1 r s2 where *:
    "ValidateMultisigRequest (mq_PublicKeys req) (mq_Threshold req) = Inr v"
    "ensureNetworkVerified node cfg s = (Inr u, s1)"
    "ms_FetchAccountInfo node (mq_AccountAddress req) s1 = (Inr r, s2)" and
    last: "(case validateMultisigConfiguration kl r req of
       Inl err \<Rightarrow> io_return \<lparr>mr_Status = PMWMultisigAccountStatusERROR, mr_Sequence = 0\<rparr>
     | Inr sequence \<Rightarrow> io_return \<lparr>mr_Status = PMWMultisigAccountStatusOK, mr_Sequence = sequence\<rparr>) s2
     = (Inr resp :: MultisigResponse result, s')"
    unfolding Multisig_Verify_def io_bind_eq_Inr_iff io_lift_apply prod.inject map_error_eq_Inr_iff
    by blast
  from *(3) obtain w where "PostAccountInfo node (mq_AccountAddress req) (ms_world s1) = (Inr r, w)"
    "ai_Status r = ''success''" "s2 = s1\<lparr>ms_world := w\<rparr>"
    by (auto simp: ms_FetchAccountInfo_def FetchAccountInfo_def split: prod.splits sum.splits if_splits)
  moreover have "s' = s2 \<and> resp = (if account_configured kl r req
       then \<lparr>mr_Status = PMWMultisigAccountStatusOK, mr_Sequence = ad_Sequence (ai_AccountData r)\<rparr>
       else \<lparr>mr_Status = PMWMultisigAccountStatusERROR, mr_Sequence = 0\<rparr>)"
    using last validateMultisigConfiguration_ok_iff [of kl r req]
    by (cases "validateMultisigConfiguration kl r req") auto
  ultimately show thesis using * that by simp
qed

section \<open>Which errors the verifier returns\<close>

definition multisig_tags :: "sentinel list" where
  "multisig_tags = [ErrInvalidRequest, ErrNetworkMismatch, ErrFetchServerInfo, ErrFetchAccountInfo,
     ErrRPCTransient, ErrRPCNonSuccess, DeadlineExceeded, Canceled, EthereumNotFound]"

definition node_foreign :: "'w xrpl_node \<Rightarrow> bool" where
  "node_foreign node \<longleftrightarrow>
     (\<forall>a w. foreign_result (fst (PostAccountInfo node a w))) \<and> (\<forall>w. foreign_result (fst (PostServerInfo node w)))"

lemma multisig_tag [simp]: "ErrInvalidRequest \<in> set multisig_tags" "ErrNetworkMismatch \<in> set multisig_tags"
  "ErrFetchServerInfo \<in> set multisig_tags" "ErrFetchAccountInfo \<in> set multisig_tags"
  "ErrRPCTransient \<in> set multisig_tags" "ErrRPCNonSuccess \<in> set multisig_tags"
  by (simp_all add: multisig_tags_def)

lemma foreign_multisig: "foreign_error e \<Longrightarrow> only_tags multisig_tags e"
  by (rule only_tags_foreign) (auto simp: multisig_tags_def foreign_sentinels_def)

lemma ensure_tags:
  assumes "node_foreign node"
  shows "result_tags multisig_tags (fst (ensureNetworkVerified node cfg s))"
proof -
  have post: "only_tags multisig_tags e" if "PostServerInfo node w = (Inl e, w')" for e w w'
    using assms that foreign_multisig unfolding node_foreign_def
    by (metis foreign_resultD fst_conv)
  have u: "only_tags multisig_tags e" if "NetworkID_UnmarshalJSON b = Inl e" for e b
    using that by (auto simp: NetworkID_UnmarshalJSON_def Let_def result_simps strconv_ParseUint10_def
        split: if_splits option.splits)
  have n: "only_tags multisig_tags e" if "Client_NetworkID node w = (Inl e, w')" for e w w'
    using that post u by (auto simp: Client_NetworkID_def result_simps split: prod.splits sum.splits option.splits if_splits)
  have c: "result_tags multisig_tags (fst (checkNetwork node cfg s))" for s :: "'a ms_state"
    using n by (auto simp: checkNetwork_def ms_NetworkID_def io_bind_def store_now_eq result_tags_def
        split: prod.splits sum.splits option.splits if_splits)
  have v: "\<exists>b t. verifiedFresh node s = (Inr b, t)" for s :: "'a ms_state"
    by (auto simp: verifiedFresh_def ms_clock_def io_bind_def Let_def split: if_splits prod.splits)
  obtain b t where 1: "verifiedFresh node s = (Inr b, t)" using v by blast
  obtain b' t' where 2: "verifiedFresh node t = (Inr b', t')" using v by blast
  show ?thesis using 1 2 c by (simp add: ensureNetworkVerified_def io_bind_def)
qed

lemma multisig_verify_tags:
  assumes "node_foreign node"
  shows "result_tags multisig_tags (fst (Multisig_Verify node kl cfg req s))"
proof -
  have "only_tags multisig_tags e" if "PostAccountInfo node a w = (Inl e, w')" for a e w w'
    using assms that foreign_multisig unfolding node_foreign_def by (metis foreign_resultD fst_conv)
  then have f: "only_tags multisig_tags e" if "ms_FetchAccountInfo node a t = (Inl e, t')" for a e t t'
    using that by (auto simp: ms_FetchAccountInfo_def FetchAccountInfo_def rpcStatusError_def
        split: prod.splits sum.splits if_splits)
  have v: "only_tags multisig_tags e" if "ValidateMultisigRequest pks n = Inl e" for e pks n
  proof -
    have "validate_keys_loop ks seen = Inl e \<Longrightarrow> only_tags multisig_tags e" for ks seen
      by (induction ks seen rule: validate_keys_loop.induct) (auto split: if_splits)
    with that show ?thesis
      by (auto simp: ValidateMultisigRequest_def ValidatePublicKeys_def result_simps split: if_splits)
  qed
  have n: "only_tags multisig_tags e" if "ensureNetworkVerified node cfg t = (Inl e, t')" for e t t'
    using ensure_tags [OF assms, of cfg t] that by simp
  show ?thesis
    unfolding result_tags_def
  proof (intro allI impI)
    fix e assume "fst (Multisig_Verify node kl cfg req s) = Inl e"
    then obtain s' where "Multisig_Verify node kl cfg req s = (Inl e, s')" by (metis prod.collapse)
    then show "only_tags multisig_tags e"
      unfolding Multisig_Verify_def io_bind_eq_Inl_iff
      using v n f by (auto simp: map_error_eq_Inl_iff split: sum.splits) (metis sum.exhaust)
  qed
qed

section \<open>Lemmas: the network id field\<close>

lemma decimal_digits_chars: "c \<in> set (decimal_digits n) \<Longrightarrow> digit_value c \<noteq> None"
proof (induction n rule: decimal_digits.induct)
  case (1 n)
  show ?case
  proof (cases "n < 10")
    case True
    with "1.prems" show ?thesis by (simp add: decimal_digits.simps [of n])
  next
    case False
    with "1.prems" consider "c \<in> set (decimal_digits (n div 10))" | "c = digit_char (n mod 10)"
      by (auto simp: decimal_digits.simps [of n])
    then show ?thesis using "1.IH" [OF False] by cases simp_all
  qed
qed

lemma trim_none:
  assumes "\<And>c. c \<in> set s \<Longrightarrow> \<not> P c"
  shows "rev (dropWhile P (rev (dropWhile P s))) = s"
proof -
  have "dropWhile P s = s" using assms by (simp add: dropWhile_eq_self_iff)
  moreover have "dropWhile P (rev s) = rev s"
    using assms by (cases "s = []") (simp_all add: dropWhile_eq_self_iff hd_rev)
  ultimately show ?thesis by simp
qed

lemma digits_not_space: "digit_value c \<noteq> None \<Longrightarrow> \<not> is_space c \<and> c \<noteq> CHR 0x22 \<and> c \<noteq> CHR ''n''"
  by (auto simp: digit_value_def is_space_def Let_def split: if_splits)

lemma trim_digits:
  "strings_TrimSpace (decimal_digits n) = decimal_digits n"
  "bytes_Trim (decimal_digits n) (CHR 0x22) = decimal_digits n"
  unfolding strings_TrimSpace_def bytes_Trim_def
  by (rule trim_none; use decimal_digits_chars digits_not_space in blast)+

lemma trim_quoted_digits:
  "strings_TrimSpace (CHR 0x22 # decimal_digits n @ [CHR 0x22]) = CHR 0x22 # decimal_digits n @ [CHR 0x22]"
  "bytes_Trim (CHR 0x22 # decimal_digits n @ [CHR 0x22]) (CHR 0x22) = decimal_digits n"
proof -
  have q: "\<not> is_space (CHR 0x22)" by (simp add: is_space_def)
  show "strings_TrimSpace (CHR 0x22 # decimal_digits n @ [CHR 0x22]) = CHR 0x22 # decimal_digits n @ [CHR 0x22]"
    unfolding strings_TrimSpace_def
    by (rule trim_none) (use q decimal_digits_chars digits_not_space in auto)
  have h: "dropWhile ((=) (CHR 0x22)) (decimal_digits n @ [CHR 0x22]) = decimal_digits n @ [CHR 0x22]"
    using decimal_digits_chars [of "hd (decimal_digits n)" n] digits_not_space
    by (cases "decimal_digits n") (auto simp: dropWhile_eq_self_iff)
  have l: "dropWhile ((=) (CHR 0x22)) (rev (decimal_digits n)) = rev (decimal_digits n)"
    using decimal_digits_chars [of "last (decimal_digits n)" n]
      digits_not_space [of "last (decimal_digits n)"]
    by (auto simp: dropWhile_eq_self_iff hd_rev)
  show "bytes_Trim (CHR 0x22 # decimal_digits n @ [CHR 0x22]) (CHR 0x22) = decimal_digits n"
    using h l by (simp add: bytes_Trim_def)
qed

section \<open>Properties\<close>

text \<open>
  C4. A multisig attestation is only made for a well-formed request, against a node whose
  network was confirmed to be the source's within the last 30 minutes, and its status is
  right. Starting from a state in which the recorded confirmation is real, every response
  of \<open>Verify\<close> rests on a successful account reply, is OK exactly when the account in that
  reply is configured as requested, carries the account's sequence then and 0 otherwise, and
  leaves the record real. The confirmation is younger than 30 minutes at a clock reading of this very request,
  or the node was asked by it (\<open>confirmed_for\<close>).
\<close>

theorem multisig_attestation_sound:
  assumes "network_inv node cfg s" and "expectedNetworkID (enc_SourceID (mc_enc cfg)) \<noteq> None"
    and "Multisig_Verify node kl cfg req s = (Inr resp, s')"
  shows "network_inv node cfg s' \<and> confirmed_for node cfg s s' \<and>
    1 \<le> length (mq_PublicKeys req) \<and> length (mq_PublicKeys req) \<le> 32 \<and> distinct (mq_PublicKeys req) \<and>
    mq_Threshold req \<noteq> 0 \<and>
    (\<exists>r w. PostAccountInfo node (mq_AccountAddress req) w = (Inr r, ms_world s') \<and> ai_Status r = ''success'' \<and>
       (mr_Status resp = PMWMultisigAccountStatusOK \<longleftrightarrow> account_configured kl r req) \<and>
       mr_Sequence resp = (if account_configured kl r req then ad_Sequence (ai_AccountData r) else 0))"
proof -
  from assms(3) obtain u s1 r w where
    v: "ValidateMultisigRequest (mq_PublicKeys req) (mq_Threshold req) = Inr ()" and
    n: "ensureNetworkVerified node cfg s = (Inr u, s1)" and
    p: "PostAccountInfo node (mq_AccountAddress req) (ms_world s1) = (Inr r, w)" "ai_Status r = ''success''" and
    s': "s' = s1\<lparr>ms_world := w\<rparr>" and
    resp: "resp = (if account_configured kl r req
       then \<lparr>mr_Status = PMWMultisigAccountStatusOK, mr_Sequence = ad_Sequence (ai_AccountData r)\<rparr>
       else \<lparr>mr_Status = PMWMultisigAccountStatusERROR, mr_Sequence = 0\<rparr>)"
    by (rule Multisig_Verify_InrD)
  note N = ensureNetworkVerified_facts [OF assms(1) n]
  have "network_inv node cfg s'" using N(1) by (rule network_inv_last) (simp add: s')
  moreover obtain k where "expectedNetworkID (enc_SourceID (mc_enc cfg)) = Some k" using assms(2) by blast
  with ensureNetworkVerified_confirmed [OF n] have "confirmed_for node cfg s s'"
    by (simp add: confirmed_for_def s')
  moreover have "PostAccountInfo node (mq_AccountAddress req) (ms_world s1) = (Inr r, ms_world s')" using p by (simp add: s')
  moreover have "(mr_Status resp = PMWMultisigAccountStatusOK \<longleftrightarrow> account_configured kl r req) \<and>
      mr_Sequence resp = (if account_configured kl r req then ad_Sequence (ai_AccountData r) else 0)"
    by (simp add: resp PMWMultisigAccountStatusOK_def PMWMultisigAccountStatusERROR_def)
  ultimately show ?thesis
    using v p unfolding ValidateMultisigRequest_ok_iff by blast
qed

definition sample_account :: AccountInfoResult where
  "sample_account = \<lparr>ai_AccountData = \<lparr>ad_Account = ''rA'', ad_Sequence = 77, ad_RegularKey = '''', ad_SignerLists =
       [\<lparr>sl_SignerQuorum = 2, sl_SignerEntries = [\<lparr>se_Account = ''k1'', se_SignerWeight = 1\<rparr>,
          \<lparr>se_Account = ''k2'', se_SignerWeight = 1\<rparr>]\<rparr>]\<rparr>,
     ai_AccountFlags = Some \<lparr>af_DisableMasterKey = True, af_DepositAuth = False,
        af_RequireDestinationTag = False, af_DisallowIncomingXRP = False\<rparr>,
     ai_SignerLists = [], ai_Status = ''success'', ai_Error = '''', ai_Validated = Some True\<rparr>"

definition sample_node :: "nat xrpl_node" where
  "sample_node = \<lparr>PostAccountInfo = (\<lambda>a w. (Inr sample_account, w)),
     PostServerInfo = (\<lambda>w. (Inr \<lparr>si_Status = ''success'', si_NetworkID = Some ''1''\<rparr>, w)),
     node_clock = (\<lambda>w. (int w + 1000, Suc w))\<rparr>"

definition sample_keys :: key_lib where
  "sample_keys = \<lparr>ParsePubKeyBytes = (\<lambda>b. Inr (unat (hd b))), CompressPubkey = (\<lambda>n. [word_of_nat n]),
     PubToAddress = (\<lambda>s. Inr (if s = ''01'' then ''k1'' else ''k2''))\<rparr>"

definition sample_ms_cfg :: PMWMultisigAccountConfig where
  "sample_ms_cfg = \<lparr>mc_enc = \<lparr>enc_SourceID = ''testXRP'', enc_SourceIDEncoded = 7,
     enc_AttestationType = PMWMultisigAccountConfigured, enc_AttestationTypeEncoded = 1, enc_Request = 0,
     enc_Response = 0, enc_DestinationChainSlug = ''flr'', enc_SourceURLSlug = ''xrp''\<rparr>,
     mc_SourceRPCURL = ''u''\<rparr>"

definition sample_ms_req :: MultisigRequest where
  "sample_ms_req = \<lparr>mq_AccountAddress = ''rA'', mq_PublicKeys = [[1], [2]], mq_Threshold = 2\<rparr>"

definition sample_ms_state :: "nat ms_state" where
  "sample_ms_state = \<lparr>ms_lastVerifiedNano = 0, ms_world = 0\<rparr>"

lemma sample_hex_keys: "hex_EncodeToString [1] = ''01''" "hex_EncodeToString [2] = ''02''"
  by code_simp+

lemma sample_one: "NetworkID_UnmarshalJSON ''1'' = Inr (Some 1)"
  by (simp add: NetworkID_UnmarshalJSON_def strings_TrimSpace_def bytes_Trim_def is_space_def
      strconv_ParseUint10_def decimal_value_def digit_value_def)

lemma sample_ms_verify:
  "\<exists>s'. Multisig_Verify sample_node sample_keys sample_ms_cfg sample_ms_req sample_ms_state =
     (Inr \<lparr>mr_Status = 0, mr_Sequence = 77\<rparr>, s')"
  by (simp add: Multisig_Verify_def io_bind_def sample_ms_req_def ValidateMultisigRequest_def
      ValidatePublicKeys_def MaxPublicKeys_def ensureNetworkVerified_def verifiedFresh_def sample_ms_state_def
      checkNetwork_def sample_ms_cfg_def expectedNetworkID_def SourceXRP_def SourceTestXRP_def ms_NetworkID_def
      Client_NetworkID_def sample_node_def sample_one store_now_eq ms_FetchAccountInfo_def FetchAccountInfo_def
      sample_account_def validateMultisigConfiguration_def ResolveSignerLists_def validateSignerList_def
      expected_accounts_eq XRPAddressFromPubKey_def sample_keys_def sample_hex_keys AccountsMap_def
      List.insert_def checkAccountFlags_def PMWMultisigAccountStatusOK_def)

theorem multisig_attestation_sound_witness:
  "\<exists>s'. confirmed_for sample_node sample_ms_cfg sample_ms_state s'"
proof -
  obtain s' where "Multisig_Verify sample_node sample_keys sample_ms_cfg sample_ms_req sample_ms_state =
     (Inr \<lparr>mr_Status = 0, mr_Sequence = 77\<rparr>, s')" using sample_ms_verify by blast
  moreover have "network_inv sample_node sample_ms_cfg sample_ms_state"
    by (simp add: network_inv_def sample_ms_state_def)
  moreover have "expectedNetworkID (enc_SourceID (mc_enc sample_ms_cfg)) \<noteq> None"
    by (simp add: expectedNetworkID_def SourceTestXRP_def sample_ms_cfg_def)
  ultimately show ?thesis using multisig_attestation_sound by blast
qed

text \<open>
  C16. The signer-list check is exact. It accepts exactly when every public key has an
  address, the weights the list gives to accounts are 1 for each of these addresses and
  nothing for any other account, and the quorum is the requested threshold: no extra
  signer, no missing one, no other weight.
\<close>

theorem signer_list_exact:
  "validateSignerList kl sl req \<longleftrightarrow>
     (\<exists>addrs. mapM (XRPAddressFromPubKey kl) (mq_PublicKeys req) = Inr addrs \<and>
        (\<forall>a. map_of (rev (map (\<lambda>e. (se_Account e, se_SignerWeight e)) (sl_SignerEntries sl))) a =
           (if a \<in> set addrs then Some 1 else None)) \<and>
        sl_SignerQuorum sl = mq_Threshold req)"
  unfolding validateSignerList_iff exact_signers_def AccountsMap_map_of fun_eq_iff ..

text \<open>
  C17. The network id is read the same from both kinds of servers: for every 32-bit value
  the JSON number rippled sends and the JSON string Clio sends decode to that value, and
  \<open>null\<close> and the empty string decode to absence.
\<close>

theorem network_id_roundtrip:
  "NetworkID_UnmarshalJSON (decimal_digits (unat v)) = Inr (Some v) \<and>
   NetworkID_UnmarshalJSON (CHR 0x22 # decimal_digits (unat v) @ [CHR 0x22]) = Inr (Some v) \<and>
   NetworkID_UnmarshalJSON ''null'' = Inr None"
proof -
  have v: "unat v < 2 ^ 32" using unsigned_less [of v] by simp
  have "decimal_digits (unat v) \<noteq> ''null''"
  proof
    assume "decimal_digits (unat v) = ''null''"
    then have "CHR ''n'' \<in> set (decimal_digits (unat v))" by simp
    with decimal_digits_chars digits_not_space show False by blast
  qed
  then show ?thesis
    using ParseUint10_digits [OF v]
    by (simp add: NetworkID_UnmarshalJSON_def trim_digits trim_quoted_digits Let_def)
      (simp add: strings_TrimSpace_def bytes_Trim_def is_space_def)
qed

end
