(* ===== verification/Tee_Properties.thy ===== *)
theory Tee_Properties
  imports Tee_Soundness
begin

text \<open>
  The properties of the TEE availability check: what a verified response guarantees, how the token's claims decide
  the status, how the relay cutover routes policy ids, and that a failed constructor leaves no connection open.
\<close>

section \<open>The documented contract of token validation\<close>

text \<open>
  \<open>googlecloud.ParseAndValidatePKIToken\<close> enforces the lists of its policy: a non-empty list of allowed debug
  statuses or hardware models admits only a token that names one of them.
\<close>

definition policy_enforced :: "tee_ext \<Rightarrow> bool" where
  "policy_enforced ext \<longleftrightarrow>
     (\<forall>t r l i p claims. te_ParseAndValidatePKIToken ext t r l i p = Inr claims \<longrightarrow>
        (pol_AllowedDebugStatuses p \<noteq> [] \<longrightarrow> cl_DebugStatus claims \<in> set (pol_AllowedDebugStatuses p)) \<and>
        (pol_AllowedHWModels p \<noteq> [] \<longrightarrow> cl_HWModel claims \<in> set (pol_AllowedHWModels p)))"

definition stable_image :: "GoogleTeeClaims \<Rightarrow> bool" where
  "stable_image claims \<longleftrightarrow> (case cl_SupportAttributes claims of Some attrs \<Rightarrow> ''STABLE'' \<in> set attrs | None \<Rightarrow> False)"

text \<open>The claims of a genuine workload behind a response: a token that validates under the configured root and the production policy made them.\<close>

definition genuine_workload :: "tee_ext \<Rightarrow> TeeAvailabilityCheckConfig \<Rightarrow> TeeResponse \<Rightarrow> GoogleTeeClaims \<Rightarrow> bool" where
  "genuine_workload ext cfg resp claims \<longleftrightarrow>
     (\<exists>token l i infoHash. te_ParseAndValidatePKIToken ext token (tc_GoogleRootCertificate cfg) l i
        (attestationPolicy ext cfg infoHash) = Inr claims) \<and>
     cl_SWName claims = ''CONFIDENTIAL_SPACE'' \<and> cl_DebugStatus claims = ''disabled-since-boot'' \<and>
     cl_HWModel claims \<in> set confidentialHWModels \<and>
     te_CodeHash ext claims = Inr (tr_CodeHash resp) \<and> te_Platform ext claims = Inr (tr_Platform resp) \<and>
     tr_Status resp = (if stable_image claims then 0 else 1)"

lemma attested_genuine:
  assumes "policy_enforced ext" and "\<not> tc_DisableAttestationCheckE2E cfg" and "\<not> tc_AllowTeeDebug cfg"
    and "tee_attested ext cfg checked response teeId si" and "si_CodeHash si \<noteq> E2ETestCodeHash"
  shows "\<exists>claims. genuine_workload ext cfg (teeResponse si info) claims"
proof -
  have "tir_Attestation response \<noteq> te_MagicPass ext"
    using assms(2,4,5) by (auto simp: tee_attested_def e2eStatus_def)
  with assms(2,4) obtain l i infoHash claims where
    p: "te_ParseAndValidatePKIToken ext (tir_Attestation response) (tc_GoogleRootCertificate cfg) l i
      (attestationPolicy ext cfg infoHash) = Inr claims" and v: "ValidateClaims ext claims = Inr si"
    unfolding tee_attested_def by auto
  from assms(1,3) p have "cl_DebugStatus claims = ''disabled-since-boot''" "cl_HWModel claims \<in> set confidentialHWModels"
    unfolding policy_enforced_def
    by (auto simp: attestationPolicy_def confidentialHWModels_def dest!: spec)
  with v p show ?thesis
    unfolding genuine_workload_def ValidateClaims_ok_iff teeResponse_def stable_image_def
    by (intro exI [of _ claims]) (auto split: option.splits)
qed

text \<open>
  C28. An availability check that verifies is backed by everything it should be. The answer was fetched with status 200 from
  an address the URL validation accepted and decodes to an action result bound to the request: same challenge,
  same instruction, the configured chain, the attestation command, signed for that chain by the requested proxy and by
  the requested TEE. The token was validated against the configured root with revocation lists
  vouched for by their issuers, unless one of the two documented bypasses applied, which yields the test code hash. The Relay holds both
  policy hashes the TEE reported. All of it happened while this request was served, in this order, and the certificate chain was valid at the time the clock then
  showed. In a production configuration a response whose code hash is not
  the test value stems from a Confidential Space workload that was never debuggable, on confidential hardware, with status \<open>OK\<close> exactly
  for a stable image.
\<close>

theorem tee_attestation_sound:
  assumes cache: "tv_CRLCache v = Some (FetchCRLsForToken env gl)" "crl_inv env c" "crl_env_foreign env gl"
    and ok: "Tee_Verify ext nl hl pause v req c = (Inr resp, c')"
  shows "tee_spec ext nl hl (tv_Cfg v) (tv_RelayCaller v) (chain_checked env gl) (FormatProxyURL v (tq_Url req)) (cc_world c) req resp (cc_world c') \<and>
    crl_inv env c' \<and>
    (policy_enforced ext \<and> \<not> tc_DisableAttestationCheckE2E (tv_Cfg v) \<and> \<not> tc_AllowTeeDebug (tv_Cfg v) \<and>
     tr_CodeHash resp \<noteq> E2ETestCodeHash \<longrightarrow> (\<exists>claims. genuine_workload ext (tv_Cfg v) resp claims))"
proof -
  from crls.tee_verify_sound [OF cache(1) _ ok] cache(2,3)
  have s: "tee_spec ext nl hl (tv_Cfg v) (tv_RelayCaller v) (chain_checked env gl) (FormatProxyURL v (tq_Url req)) (cc_world c) req resp (cc_world c')"
    and i: "crl_inv env c'" by simp_all
  from s obtain response si w1 where r: "resp = teeResponse si (tir_TeeInfo response)"
    "tee_attested ext (tv_Cfg v) (chain_checked env gl w1) response (tq_TeeId req) si"
    unfolding tee_spec_def by (elim exE conjE) (rule that)
  then have "si_CodeHash si = tr_CodeHash resp" by (simp add: teeResponse_def)
  with r attested_genuine s i show ?thesis by metis
qed

text \<open>
  The status of an attestation is decided by its claims: they are accepted exactly when the software is Confidential Space and, for a
  production image, support attributes are present; the status is \<open>OBSOLETE\<close> exactly for a production
  image without the attribute \<open>STABLE\<close>, and code hash and platform are those of the claims.
\<close>

theorem claims_status_exact:
  "ValidateClaims ext claims = Inr si \<longleftrightarrow>
     cl_SWName claims = ''CONFIDENTIAL_SPACE'' \<and>
     \<not> (cl_DebugStatus claims = ''disabled-since-boot'' \<and> cl_SupportAttributes claims = None) \<and>
     (\<exists>codeHash platform. te_CodeHash ext claims = Inr codeHash \<and> te_Platform ext claims = Inr platform \<and>
        si = \<lparr>si_CodeHash = codeHash, si_Platform = platform,
              si_Status = (if cl_DebugStatus claims = ''disabled-since-boot'' \<and> \<not> stable_image claims then OBSOLETE else OK)\<rparr>)"
  unfolding ValidateClaims_ok_iff stable_image_def by (cases si) (auto split: option.splits)

section \<open>The relay cutover\<close>

lemma epoch_word:
  assumes "0 \<le> i" and "i < 2 ^ 24"
  shows "(word_of_int i :: u32) \<ge> s \<longleftrightarrow> int (unat s) \<le> i"
proof -
  have "uint (word_of_int i :: u32) = i"
    using assms by (simp add: uint_word_of_int take_bit_eq_mod)
  then show ?thesis by (simp add: word_le_def)
qed

text \<open>
  The cutover relay asks exactly one contract for an id that fits 24 bits: the next Relay from the starting epoch on,
  the current one before it. A missing, negative or larger id is an error, and no contract is asked.
\<close>

lemma relay_routing_exact:
  "NewCutoverRelay current nxt start idp w =
     (case idp of
        Some i \<Rightarrow> if 0 \<le> i \<and> i < 2 ^ 24
                  then (if int (unat start) \<le> i then nxt (Some i) w else current (Some i) w)
                  else (Inl Plain, w)
      | None \<Rightarrow> (Inl Plain, w))"
proof (cases idp)
  case (Some i)
  have "(i < 0 \<or> \<not> i < 2 ^ 64 \<or> nat i > maxRewardEpochID) \<longleftrightarrow> \<not> (0 \<le> i \<and> i < 2 ^ 24)"
    by (auto simp: maxRewardEpochID_def)
  with Some epoch_word [of i start] show ?thesis
    by (simp add: NewCutoverRelay_def cutover_ToSigningPolicyHash_def io_lift_def)
qed (simp add: NewCutoverRelay_def cutover_ToSigningPolicyHash_def io_lift_def)

section \<open>Construction\<close>

text \<open>
  A failed construction leaks no connection: either dialling the Flare node failed, or the connection that was opened is closed
  again. A verifier that is built asks the configured relays over the connection it owns: the current one, and from the configured
  epoch on the next one where a cutover is configured.
\<close>

theorem new_verifier_resources:
  "(case NewVerifier eth crls cfg w of
      (Inl e, w') \<Rightarrow>
        (\<exists>d. eth_Dial eth (tc_FlareRPCURL cfg) w = (Inl d, w')) \<or>
        (\<exists>client w1. eth_Dial eth (tc_FlareRPCURL cfg) w = (Inr client, w1) \<and> w' = eth_Close eth client w1)
    | (Inr v, w') \<Rightarrow>
        (\<exists>client current. eth_Dial eth (tc_FlareRPCURL cfg) w = (Inr client, w') \<and> tv_Cfg v = cfg \<and>
           tv_EthClient v = Some client \<and> tv_CRLCache v = Some crls \<and>
           eth_NewRelayCaller eth (tc_RelayContractAddress cfg) client = Inr current \<and>
           (if tc_RelayCutoverContractAddress cfg = 0 then tv_RelayCaller v = current
            else \<exists>nxt. eth_NewRelayCaller eth (tc_RelayCutoverContractAddress cfg) client = Inr nxt \<and>
              tv_RelayCaller v = NewCutoverRelay current nxt (tc_RelayCutoverStartingRewardEpoch cfg))))"
proof (cases "eth_Dial eth (tc_FlareRPCURL cfg) w")
  case (Pair r w1)
  then show ?thesis
  proof (cases r)
    case (Inr client)
    with Pair show ?thesis
      by (cases "eth_NewRelayCaller eth (tc_RelayContractAddress cfg) client";
          cases "eth_NewRelayCaller eth (tc_RelayCutoverContractAddress cfg) client")
        (simp_all add: NewVerifier_def io_bind_def io_map_error_def)
  qed (simp add: NewVerifier_def io_bind_def io_map_error_def)
qed


section \<open>A concrete run\<close>

definition sample_claims :: GoogleTeeClaims where
  "sample_claims = \<lparr>cl_SWName = ''CONFIDENTIAL_SPACE'', cl_DebugStatus = ''disabled-since-boot'',
     cl_SupportAttributes = Some [''LATEST'', ''STABLE''], cl_ImageID = ''image'', cl_HWModel = ''GCP_INTEL_TDX''\<rparr>"

definition sample_tee_info :: TeeInfo where
  "sample_tee_info = \<lparr>ti_Challenge = 7, ti_PublicKey = [5], ti_InitialSigningPolicyID = 1,
     ti_InitialSigningPolicyHash = 11, ti_LastSigningPolicyID = 1, ti_LastSigningPolicyHash = 11,
     ti_State = \<lparr>ts_SystemState = [], ts_SystemStateVersion = 0, ts_State = [], ts_StateVersion = 0\<rparr>,
     ti_TeeTimestamp = 100, ti_ChainID = 14\<rparr>"

definition sample_action :: ActionResponse where
  "sample_action = \<lparr>ap_Result = \<lparr>ar_ID = 1, ar_SubmissionTag = ''threshold'', ar_Data = [1], ar_Status = 1, ar_OPType = 2, ar_OPCommand = 3\<rparr>,
     ap_Signature = [1], ap_ProxySignature = [2]\<rparr>"

definition sample_tee_ext :: tee_ext where
  "sample_tee_ext =
     \<lparr>te_JoinPath = (\<lambda>u p. Inr (u @ concat p)), te_decode_ActionResponse = (\<lambda>_. Inr sample_action),
      te_json_Valid = (\<lambda>_. True),
      te_decode_TeeInfoResponse = (\<lambda>_. Inr \<lparr>tir_TeeInfo = sample_tee_info, tir_Attestation = ''token''\<rparr>),
      te_ActionResult_Hash = ar_ID, te_Payload_Hash = (\<lambda>d n h. Inr (h + ucast n)),
      te_SignatureToSignersAddress = (\<lambda>h s. Inr 9), te_VerifySignature = (\<lambda>h s a. if a = 8 then Inr () else Inl Plain),
      te_TeeInfo_Hash = (\<lambda>i. Inr [1]), te_PubKeyToAddress = (\<lambda>k. Inr 8), te_op_Reg = 2, te_op_TEEAttestation = 3,
      te_MagicPass = ''magic_pass'', te_ConfidentialSpaceIssuer = ''issuer'',
      te_ParseAndValidatePKIToken = (\<lambda>t r l i p.
        if (pol_AllowedDebugStatuses p = [] \<or> cl_DebugStatus sample_claims \<in> set (pol_AllowedDebugStatuses p)) \<and>
           (pol_AllowedHWModels p = [] \<or> cl_HWModel sample_claims \<in> set (pol_AllowedHWModels p))
        then Inr sample_claims else Inl Plain),
      te_CodeHash = (\<lambda>c. Inr 77), te_Platform = (\<lambda>c. Inr 78)\<rparr>"

definition sample_token_ok :: "x5c_certs token_lib" where
  "sample_token_ok = sample_token_lib\<lparr>ParsePKITokenUnverified := (\<lambda>_. Inr (X5cSlice
     \<lparr>x5c_Leaf = sample_issuer, x5c_Intermediate = sample_issuer, x5c_Root = sample_issuer\<rparr>))\<rparr>"

definition sample_tee_cfg :: TeeAvailabilityCheckConfig where
  "sample_tee_cfg =
     \<lparr>tc_enc = \<lparr>enc_SourceID = ''TEE'', enc_SourceIDEncoded = 3, enc_AttestationType = AvailabilityCheck,
        enc_AttestationTypeEncoded = 4, enc_Request = 0, enc_Response = 0, enc_DestinationChainSlug = ''flr'', enc_SourceURLSlug = ''''\<rparr>,
      tc_RelayContractAddress = 1, tc_RelayCutoverContractAddress = 0, tc_RelayCutoverStartingRewardEpoch = 0,
      tc_AllowTeeDebug = False, tc_DisableAttestationCheckE2E = False, tc_AllowPrivateNetworks = False,
      tc_FlareRPCURL = ''rpc'', tc_GoogleRootCertificate = sample_issuer, tc_TeeAudience = ''aud'', tc_ChainID = 14\<rparr>"

definition sample_verifier :: "unit crl_env \<Rightarrow> (unit, unit) TeeVerifier" where
  "sample_verifier env = \<lparr>tv_Cfg = sample_tee_cfg, tv_EthClient = Some (), tv_RelayCaller = (\<lambda>_ w. (Inr 11, w)),
     tv_CRLCache = Some (FetchCRLsForToken env sample_token_ok)\<rparr>"

definition sample_tee_request :: TeeRequest where
  "sample_tee_request = \<lparr>tq_TeeId = 8, tq_TeeProxyId = 9, tq_Url = ''https://tee.example:8443'', tq_Challenge = 7,
     tq_InstructionId = 1\<rparr>"

lemma sample_policy_enforced: "policy_enforced sample_tee_ext"
  by (auto simp: policy_enforced_def sample_tee_ext_def split: if_splits)

lemma sample_crl_foreign:
  assumes "outcome_foreign out"
  shows "crl_env_foreign (sample_crl_env out) sample_token_ok"
  using assms
  by (auto simp: crl_env_foreign_def net_foreign_def http_foreign_def x509_foreign_def sample_crl_env_def sample_net_def
      sample_http_def sample_x509_def sample_token_ok_def sample_token_lib_def foreign_result_def)

lemma sample_crls:
  "FetchCRLsForToken (sample_crl_env out) sample_token_ok t (Some sample_issuer) c = (Inr (None, None), c)"
proof -
  have "tokenCerts sample_token_ok t (Some sample_issuer) =
      Inr \<lparr>x5c_Leaf = sample_issuer, x5c_Intermediate = sample_issuer, x5c_Root = sample_issuer\<rparr>"
    by (simp add: tokenCerts_def sample_token_ok_def sample_token_lib_def cert_Equal_def)
  moreover have "validateX5CChain (sample_crl_env out) sample_issuer sample_issuer sample_issuer c = (Inr (), c)"
    by (simp add: validateX5CChain_def time_Now_def on_world_def sample_crl_env_def io_bind_def
        checkCertValidity_def sample_issuer_def sample_x509_def)
  ultimately show ?thesis
    by (simp add: FetchCRLsForToken_def io_simps fetchFirstCRL_def sample_issuer_def)
qed

lemma sample_ext_simps:
  "te_JoinPath sample_tee_ext u p = Inr (u @ concat p)" "te_decode_ActionResponse sample_tee_ext b = Inr sample_action"
  "te_PubKeyToAddress sample_tee_ext k = Inr 8" "te_TeeInfo_Hash sample_tee_ext i = Inr [1]"
  "te_MagicPass sample_tee_ext = ''magic_pass''"
  by (simp_all add: sample_tee_ext_def)

lemma sample_read:
  "readChallengeResult sample_tee_ext sample_action =
     Inr (sample_action, \<lparr>tir_TeeInfo = sample_tee_info, tir_Attestation = ''token''\<rparr>, 9)"
  by (simp add: readChallengeResult_ok_iff sample_tee_ext_def sample_action_def)

lemma sample_json:
  "FetchJSONPinned (sample_http (Reply 200 [7] None)) (te_decode_ActionResponse sample_tee_ext) u t a h s () =
     (Inr sample_action, ())"
  by (simp add: FetchJSONPinned_def FetchBytesPinned_def sample_http_def io_bind_def sample_ext_simps readResponse_def
      ReadAllLimited_def maxResponseSize_def)

lemma sample_challenge:
  "FetchTEEChallengeResult sample_tee_ext sample_net (sample_http (Reply 200 [7] None)) ''https://tee.example:8443'' 1 False () =
     (Inr (sample_action, \<lparr>tir_TeeInfo = sample_tee_info, tir_Attestation = ''token''\<rparr>, 9), ())"
  by (simp add: FetchTEEChallengeResult_def sample_ext_simps io_bind_def io_map_error_def sample_resolves sample_json
      sample_read split: prod.splits)

lemma sample_attestation:
  "DataVerification sample_tee_ext (sample_verifier (sample_crl_env out))
     \<lparr>tir_TeeInfo = sample_tee_info, tir_Attestation = ''token''\<rparr> 8 c =
   (Inr \<lparr>si_CodeHash = 77, si_Platform = 78, si_Status = OK\<rparr>, c)"
proof -
  have "te_ParseAndValidatePKIToken sample_tee_ext t r l i (attestationPolicy sample_tee_ext sample_tee_cfg h) = Inr sample_claims"
    for t r l i h
    by (simp add: sample_tee_ext_def attestationPolicy_def sample_tee_cfg_def sample_claims_def confidentialHWModels_def)
  moreover have "ValidateClaims sample_tee_ext sample_claims = Inr \<lparr>si_CodeHash = 77, si_Platform = 78, si_Status = OK\<rparr>"
    by (simp add: ValidateClaims_ok_iff sample_claims_def sample_tee_ext_def)
  ultimately have "validateAttestation sample_tee_ext sample_tee_cfg
      \<lparr>tir_TeeInfo = sample_tee_info, tir_Attestation = ''token''\<rparr> 8 None None =
      Inr \<lparr>si_CodeHash = 77, si_Platform = 78, si_Status = OK\<rparr>"
    by (simp add: validateAttestation_def sample_ext_simps)
  moreover have "tc_GoogleRootCertificate sample_tee_cfg = sample_issuer" "tc_TeeAudience sample_tee_cfg = ''aud''"
    "\<not> tc_DisableAttestationCheckE2E sample_tee_cfg" by (simp_all add: sample_tee_cfg_def)
  ultimately show ?thesis
    by (simp add: DataVerification_def sample_verifier_def sample_ext_simps io_bind_def io_map_error_def sample_crls)
qed

text \<open>The sample request against any verifier with the sample configuration: what remains is the attestation.\<close>

lemma sample_tee_steps:
  assumes "tv_Cfg v = sample_tee_cfg" and "tv_RelayCaller v = (\<lambda>_ w. (Inr 11, w))"
    and "DataVerification sample_tee_ext v \<lparr>tir_TeeInfo = sample_tee_info, tir_Attestation = ''token''\<rparr> 8 (NewCRLCache ()) =
      (dv, NewCRLCache ())"
  shows "Tee_Verify sample_tee_ext sample_net (sample_http (Reply 200 [7] None)) (\<lambda>w. (None, w)) v sample_tee_request (NewCRLCache ()) =
    (case dv of Inl err \<Rightarrow> Inl (classifyDataVerificationError err) | Inr si \<Rightarrow> Inr (teeResponse si sample_tee_info), NewCRLCache ())"
proof -
  have url: "FormatProxyURL v (tq_Url sample_tee_request) = ''https://tee.example:8443''"
    by (simp add: FormatProxyURL_def assms(1) sample_tee_cfg_def sample_tee_request_def)
  have f: "on_world (FetchTEEChallengeResult sample_tee_ext sample_net (sample_http (Reply 200 [7] None))
      (FormatProxyURL v (tq_Url sample_tee_request)) (tq_InstructionId sample_tee_request)
      (tc_AllowPrivateNetworks (tv_Cfg v))) (NewCRLCache ()) =
      (Inr (sample_action, \<lparr>tir_TeeInfo = sample_tee_info, tir_Attestation = ''token''\<rparr>, 9), NewCRLCache ())"
    unfolding url using sample_challenge
    by (simp add: on_world_def NewCRLCache_def assms(1) sample_tee_cfg_def sample_tee_request_def)
  have b: "checkChallengeBinding sample_tee_ext (tv_Cfg v) sample_tee_request sample_action
      \<lparr>tir_TeeInfo = sample_tee_info, tir_Attestation = ''token''\<rparr> 9 = Inr ()"
    by (simp add: checkChallengeBinding_ok_iff verifyActionResult_ok_iff sample_tee_ext_def sample_action_def
        sample_tee_info_def assms(1) sample_tee_cfg_def sample_tee_request_def)
  have s: "CheckSigningPolicies v (\<lambda>w. (None, w)) sample_tee_info w = ((TeeSampleValid, None), w)" for w
    unfolding CheckSigningPolicies_ok_iff policies_match_def by (simp add: assms(2) sample_tee_info_def)
  have t: "tq_TeeId sample_tee_request = 8" by (simp add: sample_tee_request_def)
  show ?thesis
    unfolding Tee_Verify_def t by (simp add: io_bind_def io_map_error_def f b assms(3) s split: sum.splits)
qed

lemma sample_tee_run:
  "Tee_Verify sample_tee_ext sample_net (sample_http (Reply 200 [7] None)) (\<lambda>w. (None, w))
     (sample_verifier (sample_crl_env out)) sample_tee_request (NewCRLCache ()) =
   (Inr (teeResponse \<lparr>si_CodeHash = 77, si_Platform = 78, si_Status = OK\<rparr> sample_tee_info), NewCRLCache ())"
  by (subst sample_tee_steps [OF _ _ sample_attestation]) (simp_all add: sample_verifier_def)

text \<open>A token whose leaf names a distribution point, and a server for it that answers 503.\<close>

definition sample_token_dp :: "x5c_certs token_lib" where
  "sample_token_dp = sample_token_lib\<lparr>ParsePKITokenUnverified := (\<lambda>_. Inr (X5cSlice
     \<lparr>x5c_Leaf = sample_issuer\<lparr>cert_CRLDistributionPoints := [''https://tee.example:8443'']\<rparr>,
      x5c_Intermediate = sample_issuer, x5c_Root = sample_issuer\<rparr>))\<rparr>"

abbreviation sample_outage :: "unit crl_env" where
  "sample_outage \<equiv> sample_crl_env (Reply 503 [] None)"

definition sample_outage_verifier :: "(unit, unit) TeeVerifier" where
  "sample_outage_verifier = (sample_verifier sample_outage)\<lparr>tv_CRLCache := Some (FetchCRLsForToken sample_outage sample_token_dp)\<rparr>"

lemma sample_outage_get:
  "getOrFetchCRL sample_outage ''https://tee.example:8443'' (Some sample_issuer) (NewCRLCache ()) =
     (Inl (tag_with ErrTEERevocationUnavailable (HTTPStatusError 503)), NewCRLCache ())"
proof -
  let ?key = "crlCacheKey sample_outage ''https://tee.example:8443'' sample_issuer"
  have miss: "cachedFresh sample_outage ?key sample_issuer (NewCRLCache ()) = (Inr None, NewCRLCache ())"
    by (simp add: cachedFresh_def NewCRLCache_def)
  have "on_world (fetchCRLBytes sample_outage ''https://tee.example:8443'' crlFetchTimeout) (NewCRLCache ()) =
      (Inl (HTTPStatusError 503), NewCRLCache ())"
    by (simp add: on_world_def NewCRLCache_def sample_fetch readResponse_def)
  with miss have "flightFetch sample_outage ?key ''https://tee.example:8443'' sample_issuer (NewCRLCache ()) =
      (Inl (tag_with ErrTEERevocationUnavailable (HTTPStatusError 503)), NewCRLCache ())"
    by (simp add: flightFetch_def io_bind_Inr io_map_error_def io_bind_def crlFetchError_def isTransientFetchError_def)
  moreover have "ce_ctx sample_outage w = None" for w by (simp add: sample_crl_env_def)
  ultimately show ?thesis
    using miss by (simp add: getOrFetchCRL_def Let_def io_bind_Inr awaitShared_def deliverShared_def)
qed

lemma sample_outage_run:
  "\<exists>e. Tee_Verify sample_tee_ext sample_net (sample_http (Reply 200 [7] None)) (\<lambda>w. (None, w)) sample_outage_verifier
      sample_tee_request (NewCRLCache ()) = (Inl e, NewCRLCache ()) \<and> errors_Is e ErrTEERevocationUnavailable"
proof -
  let ?leaf = "sample_issuer\<lparr>cert_CRLDistributionPoints := [''https://tee.example:8443'']\<rparr>"
  have t: "tokenCerts sample_token_dp ''token'' (Some sample_issuer) =
      Inr \<lparr>x5c_Leaf = ?leaf, x5c_Intermediate = sample_issuer, x5c_Root = sample_issuer\<rparr>"
    by (simp add: tokenCerts_def sample_token_dp_def sample_token_lib_def cert_Equal_def)
  have no_points: "cert_CRLDistributionPoints sample_issuer = []" by (simp add: sample_issuer_def)
  have v: "validateX5CChain sample_outage sample_issuer sample_issuer ?leaf (NewCRLCache ()) = (Inr (), NewCRLCache ())"
    by (simp add: validateX5CChain_def time_Now_def on_world_def sample_crl_env_def io_bind_def NewCRLCache_def
        checkCertValidity_def sample_issuer_def sample_x509_def)
  have "\<exists>e. FetchCRLsForToken sample_outage sample_token_dp ''token'' (Some sample_issuer) (NewCRLCache ()) =
      (Inl e, NewCRLCache ()) \<and> errors_Is e ErrTEERevocationUnavailable"
    using sample_outage_get
    by (simp add: FetchCRLsForToken_def io_bind_def io_map_error_def t v fetchFirstCRL_def no_points)
  then obtain e where e: "FetchCRLsForToken sample_outage sample_token_dp ''token'' (Some sample_issuer) (NewCRLCache ()) =
      (Inl e, NewCRLCache ())" "errors_Is e ErrTEERevocationUnavailable" by blast
  have cfg: "tv_Cfg sample_outage_verifier = sample_tee_cfg" "tv_RelayCaller sample_outage_verifier = (\<lambda>_ w. (Inr 11, w))"
    "tv_CRLCache sample_outage_verifier = Some (FetchCRLsForToken sample_outage sample_token_dp)"
    by (simp_all add: sample_outage_verifier_def sample_verifier_def)
  have "DataVerification sample_tee_ext sample_outage_verifier
      \<lparr>tir_TeeInfo = sample_tee_info, tir_Attestation = ''token''\<rparr> 8 (NewCRLCache ()) = (Inl (wrap1 e), NewCRLCache ())"
    by (simp add: DataVerification_def cfg sample_ext_simps io_bind_def io_map_error_def e(1) sample_tee_cfg_def)
  from sample_tee_steps [OF cfg(1,2) this] e(2) show ?thesis by (simp add: classifyDataVerificationError_def)
qed

theorem tee_attestation_sound_witness:
  "\<exists>resp c'. Tee_Verify sample_tee_ext sample_net (sample_http (Reply 200 [7] None)) (\<lambda>w. (None, w))
       (sample_verifier (sample_crl_env RedirectAnswer)) sample_tee_request (NewCRLCache ()) = (Inr resp, c') \<and>
     (\<exists>claims. genuine_workload sample_tee_ext sample_tee_cfg resp claims) \<and>
     tee_spec sample_tee_ext sample_net (sample_http (Reply 200 [7] None)) sample_tee_cfg (\<lambda>_ w. (Inr 11, w))
       (chain_checked (sample_crl_env RedirectAnswer) sample_token_ok) ''https://tee.example:8443'' () sample_tee_request resp ()"
proof -
  let ?env = "sample_crl_env RedirectAnswer"
  have "crl_inv ?env (NewCRLCache ())" by (simp add: crl_inv_def NewCRLCache_def)
  moreover have "crl_env_foreign ?env sample_token_ok" by (rule sample_crl_foreign) simp
  moreover have "tv_CRLCache (sample_verifier ?env) = Some (FetchCRLsForToken ?env sample_token_ok)"
    by (simp add: sample_verifier_def)
  ultimately have "tee_spec sample_tee_ext sample_net (sample_http (Reply 200 [7] None)) sample_tee_cfg (\<lambda>_ w. (Inr 11, w))
       (chain_checked ?env sample_token_ok) ''https://tee.example:8443'' () sample_tee_request
       (teeResponse \<lparr>si_CodeHash = 77, si_Platform = 78, si_Status = OK\<rparr> sample_tee_info) ()"
    and "\<exists>claims. genuine_workload sample_tee_ext sample_tee_cfg
       (teeResponse \<lparr>si_CodeHash = 77, si_Platform = 78, si_Status = OK\<rparr> sample_tee_info) claims"
    using tee_attestation_sound [OF _ _ _ sample_tee_run, of RedirectAnswer ?env sample_token_ok] sample_policy_enforced
    by (simp_all add: sample_verifier_def sample_tee_cfg_def sample_tee_request_def FormatProxyURL_def teeResponse_def
        E2ETestCodeHash_def)
  with sample_tee_run show ?thesis by blast
qed

end
