(* ===== verification/Endpoints.thy ===== *)
theory Endpoints
  imports Handler Payment_Status Fee_Proof Multisig Tee_Properties
begin

text \<open>
  The four attestation types behind the endpoints of \<open>Handler\<close>: the conversions of their request and response types
  (\<open>internal/api/types\<close>), and each verifier as an \<open>attestation_verifier\<close>, so that what a verifier guarantees holds for
  the answers of its endpoints.
\<close>

section \<open>Conversions\<close>

definition Tee_ToInternal :: "TeeRequest \<Rightarrow> TeeRequest result" where
  "Tee_ToInternal r = Inr \<lparr>tq_TeeId = tq_TeeId r, tq_TeeProxyId = tq_TeeProxyId r, tq_Url = tq_Url r,
     tq_Challenge = tq_Challenge r, tq_InstructionId = tq_InstructionId r\<rparr>"

definition Tee_FromInternal :: "TeeResponse \<Rightarrow> TeeResponse option" where
  "Tee_FromInternal d = Some \<lparr>tr_Status = tr_Status d, tr_TeeTimestamp = tr_TeeTimestamp d, tr_CodeHash = tr_CodeHash d,
     tr_Platform = tr_Platform d, tr_InitialSigningPolicyId = tr_InitialSigningPolicyId d,
     tr_LastSigningPolicyId = tr_LastSigningPolicyId d,
     tr_State = \<lparr>ts_SystemState = ts_SystemState (tr_State d), ts_SystemStateVersion = ts_SystemStateVersion (tr_State d),
       ts_State = ts_State (tr_State d), ts_StateVersion = ts_StateVersion (tr_State d)\<rparr>\<rparr>"

definition Payment_ToInternal :: "PaymentStatusRequest \<Rightarrow> PaymentStatusRequest result" where
  "Payment_ToInternal r = Inr \<lparr>psq_OpType = psq_OpType r, psq_SenderAddress = psq_SenderAddress r, psq_PaymentId = psq_PaymentId r\<rparr>"

text \<open>The external response holds the numbers themselves; \<open>*data.Amount\<close> panics on a nil pointer.\<close>

record PaymentStatusExternal =
  px_RecipientAddress :: string
  px_TokenID :: bytes
  px_Amount :: int
  px_MaxFee :: int
  px_PaymentReference :: hash
  px_TransactionStatus :: u8
  px_RevertReason :: string
  px_ReceivedAmount :: int
  px_TransactionFee :: int
  px_TransactionID :: hash
  px_BlockNumber :: u64
  px_BlockTimestamp :: u64

definition Payment_FromInternal :: "PaymentStatusResponse \<Rightarrow> PaymentStatusExternal option" where
  "Payment_FromInternal d =
     Option.bind (psr_Amount d) (\<lambda>amount.
     Option.bind (psr_MaxFee d) (\<lambda>maxFee.
     Option.bind (psr_ReceivedAmount d) (\<lambda>receivedAmount.
     Option.bind (psr_TransactionFee d) (\<lambda>transactionFee.
     Some \<lparr>px_RecipientAddress = psr_RecipientAddress d, px_TokenID = psr_TokenId d, px_Amount = amount, px_MaxFee = maxFee,
       px_PaymentReference = psr_PaymentReference d, px_TransactionStatus = psr_TransactionStatus d,
       px_RevertReason = psr_RevertReason d, px_ReceivedAmount = receivedAmount, px_TransactionFee = transactionFee,
       px_TransactionID = psr_TransactionId d, px_BlockNumber = psr_BlockNumber d, px_BlockTimestamp = psr_BlockTimestamp d\<rparr>))))"

definition FeeProof_ToInternal :: "FeeProofRequest \<Rightarrow> FeeProofRequest result" where
  "FeeProof_ToInternal r = Inr \<lparr>fq_OpType = fq_OpType r, fq_SenderAddress = fq_SenderAddress r,
     fq_FirstPaymentId = fq_FirstPaymentId r, fq_BatchCount = fq_BatchCount r, fq_UntilTimestamp = fq_UntilTimestamp r\<rparr>"

text \<open>The verifier always sets both fees, so they are numbers here and \<open>*data.ActualFee\<close> cannot meet a nil pointer.\<close>

definition FeeProof_FromInternal :: "FeeProofResponse \<Rightarrow> FeeProofResponse option" where
  "FeeProof_FromInternal d = Some \<lparr>fr_LastPaymentId = fr_LastPaymentId d, fr_ActualFee = fr_ActualFee d,
     fr_EstimatedFee = fr_EstimatedFee d\<rparr>"

definition Multisig_FromInternal :: "MultisigResponse \<Rightarrow> MultisigResponse option" where
  "Multisig_FromInternal d = Some \<lparr>mr_Status = mr_Status d, mr_Sequence = mr_Sequence d\<rparr>"

section \<open>Invariants along failing requests\<close>

context sequence_verifier
begin

lemma verify_preserves: "preserves invar (verify src acc pid got)"
  using verify_invar by (fastforce simp: preserves_def intro: prod_eqI)

lemma payment_keeps: "preserves invar (PaymentStatus_Verify xl verify x req)"
  unfolding PaymentStatus_Verify_def Let_def
  by (intro preserves_bind verify_preserves preserves_lift)

lemma estimated_keeps: "preserves invar (computeEstimatedFee fl verify x req ev logs ids est seqs)"
proof (induction ids arbitrary: est seqs)
  case (Cons i ids)
  then show ?case
    by (cases i) (auto intro!: preserves_bind preserves_map_error verify_preserves)
qed simp

lemma fee_keeps: "preserves invar (FeeProof_Verify fl verify x req)"
  unfolding FeeProof_Verify_def
  by (intro preserves_bind) (auto split: prod.splits intro!: preserves_bind estimated_keeps)

end

section \<open>The verifiers\<close>

lemma pmw_well_tagged:
  assumes "only_tags S e" and "set S \<inter> (set tee_details \<union> {ErrTEERevocationUnavailable}) = {}"
  shows "well_tagged e"
  using assms by (auto simp: well_tagged_def only_tags_def)

lemma pmw_tags_plain:
  "set pmw_tags \<inter> (set tee_details \<union> {ErrTEERevocationUnavailable}) = {}"
  "set fee_tags \<inter> (set tee_details \<union> {ErrTEERevocationUnavailable}) = {}"
  "set multisig_tags \<inter> (set tee_details \<union> {ErrTEERevocationUnavailable}) = {}"
  by (auto simp: pmw_tags_def fee_tags_def multisig_tags_def tee_details_def)

lemma io_tagsD: "io_tags S m s \<Longrightarrow> m s = (Inl e, s') \<Longrightarrow> only_tags S e"
  by (simp add: io_tags_def)

text \<open>What the payment and fee verifiers rely on: the nonce binder, the served tables, and libraries without own sentinels.\<close>

definition payment_env where
  "payment_env xl x truth caller logs txs s \<longleftrightarrow> binder_env (xl_tee xl) truth caller s \<and>
     serves_logs (xv_Repo x) logs \<and> serves_txs (xv_Repo x) txs \<and> xrp_lib_foreign xl \<and> repo_foreign (xv_Repo x) \<and>
     abi_def_foreign (pc_ParsedTeeInstructionsABI (xv_Config x))"

definition fee_env where
  "fee_env fl x truth caller txs s \<longleftrightarrow> binder_env (fl_tee fl) truth caller s \<and>
     serves_txs (fv_Repo x) txs \<and> fee_lib_foreign fl \<and> repo_foreign (fv_Repo x) \<and>
     abi_def_foreign (pc_ParsedTeeInstructionsABI (fv_Config x))"

interpretation payment_api: attestation_verifier "\<lambda>_. PaymentStatus_Verify xl (VerifySequence (xl_tee xl) caller) x"
    "payment_env xl x truth caller logs txs" "\<lambda>_ req resp _. payment_spec xl x truth logs txs req resp" for xl x truth caller logs txs
proof
  show "preserves (payment_env xl x truth caller logs txs) (PaymentStatus_Verify xl (VerifySequence (xl_tee xl) caller) x data)" for data
    using onchain.payment_keeps [of "xl_tee xl" truth caller xl x data] by (auto simp: preserves_def payment_env_def)
next
  fix w data resp w'
  assume "payment_env xl x truth caller logs txs w" "PaymentStatus_Verify xl (VerifySequence (xl_tee xl) caller) x data w = (Inr resp, w')"
  then show "payment_spec xl x truth logs txs data resp" using onchain.payment_sound unfolding payment_env_def by blast
next
  fix w data e w'
  assume "payment_env xl x truth caller logs txs w" and e: "PaymentStatus_Verify xl (VerifySequence (xl_tee xl) caller) x data w = (Inl e, w')"
  then have "io_tags pmw_tags (PaymentStatus_Verify xl (VerifySequence (xl_tee xl) caller) x data) w"
    using onchain.payment_tags unfolding payment_env_def by blast
  from pmw_well_tagged [OF io_tagsD [OF this e] pmw_tags_plain(1)] show "well_tagged e" .
qed

interpretation fee_api: attestation_verifier "\<lambda>_. FeeProof_Verify fl (VerifySequence (fl_tee fl) caller) x"
    "fee_env fl x truth caller txs" "\<lambda>_ req resp _. fee_spec fl x truth txs req resp" for fl x truth caller txs
proof
  show "preserves (fee_env fl x truth caller txs) (FeeProof_Verify fl (VerifySequence (fl_tee fl) caller) x data)" for data
    using onchain.fee_keeps [of "fl_tee fl" truth caller fl x data] by (auto simp: preserves_def fee_env_def)
next
  fix w data resp w'
  assume "fee_env fl x truth caller txs w" "FeeProof_Verify fl (VerifySequence (fl_tee fl) caller) x data w = (Inr resp, w')"
  then show "fee_spec fl x truth txs data resp" using onchain.fee_sound unfolding fee_env_def by blast
next
  fix w data e w'
  assume "fee_env fl x truth caller txs w" and e: "FeeProof_Verify fl (VerifySequence (fl_tee fl) caller) x data w = (Inl e, w')"
  then have "io_tags fee_tags (FeeProof_Verify fl (VerifySequence (fl_tee fl) caller) x data) w"
    using onchain.fee_proof_tags unfolding fee_env_def by blast
  from pmw_well_tagged [OF io_tagsD [OF this e] pmw_tags_plain(2)] show "well_tagged e" .
qed


lemma multisig_keeps: "preserves (network_inv node cfg) (Multisig_Verify node kl cfg req)"
proof -
  have e: "preserves (network_inv node cfg) (ensureNetworkVerified node cfg)"
    unfolding preserves_def using ensureNetworkVerified_facts(1) by (metis prod.collapse)
  have f: "preserves (network_inv node cfg) (ms_FetchAccountInfo node a)" for a
    by (auto simp: preserves_def ms_FetchAccountInfo_def network_inv_def split: prod.splits)
  show ?thesis
    unfolding Multisig_Verify_def by (intro preserves_bind preserves_lift e f) (auto split: sum.splits)
qed

definition multisig_env where
  "multisig_env node cfg s \<longleftrightarrow> network_inv node cfg s \<and> node_foreign node \<and> expectedNetworkID (enc_SourceID (mc_enc cfg)) \<noteq> None"

text \<open>
  The network was confirmed for this request, the request has the shape of a signer list, and the answer reports the state of the account as
  the node told it last.
\<close>

definition multisig_promise where
  "multisig_promise node kl cfg s req resp s' \<longleftrightarrow> confirmed_for node cfg s s' \<and>
     ValidateMultisigRequest (mq_PublicKeys req) (mq_Threshold req) = Inr () \<and>
     (\<exists>r w. PostAccountInfo node (mq_AccountAddress req) w = (Inr r, ms_world s') \<and> ai_Status r = ''success'' \<and>
        resp = (if account_configured kl r req
          then \<lparr>mr_Status = PMWMultisigAccountStatusOK, mr_Sequence = ad_Sequence (ai_AccountData r)\<rparr>
          else \<lparr>mr_Status = PMWMultisigAccountStatusERROR, mr_Sequence = 0\<rparr>))"

interpretation multisig_api: attestation_verifier "\<lambda>_. Multisig_Verify node kl cfg" "multisig_env node cfg"
    "multisig_promise node kl cfg" for node kl cfg
proof
  show "preserves (multisig_env node cfg) (Multisig_Verify node kl cfg data)" for data
    using multisig_keeps [of node cfg kl data] by (auto simp: preserves_def multisig_env_def)
next
  fix w data resp w'
  assume e: "multisig_env node cfg w" and v: "Multisig_Verify node kl cfg data w = (Inr resp, w')"
  from v obtain u s1 r w1 where v: "ValidateMultisigRequest (mq_PublicKeys data) (mq_Threshold data) = Inr ()"
    "ensureNetworkVerified node cfg w = (Inr u, s1)"
    "PostAccountInfo node (mq_AccountAddress data) (ms_world s1) = (Inr r, w1)" "ai_Status r = ''success''"
    "w' = s1\<lparr>ms_world := w1\<rparr>" "resp = (if account_configured kl r data
       then \<lparr>mr_Status = PMWMultisigAccountStatusOK, mr_Sequence = ad_Sequence (ai_AccountData r)\<rparr>
       else \<lparr>mr_Status = PMWMultisigAccountStatusERROR, mr_Sequence = 0\<rparr>)"
    by (rule Multisig_Verify_InrD)
  from e ensureNetworkVerified_confirmed [OF v(2)] have "confirmed_for node cfg w w'"
    by (auto simp: multisig_env_def confirmed_for_def v(5))
  moreover have "PostAccountInfo node (mq_AccountAddress data) (ms_world s1) = (Inr r, ms_world w')" using v(3,5) by simp
  ultimately show "multisig_promise node kl cfg w data resp w'"
    using v(1,4,6) unfolding multisig_promise_def by blast
next
  fix w data e w'
  assume n: "multisig_env node cfg w" and e: "Multisig_Verify node kl cfg data w = (Inl e, w')"
  from n have "result_tags multisig_tags (fst (Multisig_Verify node kl cfg data w))"
    using multisig_verify_tags unfolding multisig_env_def by blast
  with e have "only_tags multisig_tags e" by simp
  from pmw_well_tagged [OF this pmw_tags_plain(3)] show "well_tagged e" .
qed

context revocation_source
begin

lemma tee_verify_keeps:
  assumes "tv_CRLCache v = Some fetch"
  shows "preserves invar (Tee_Verify ext nl hl pause v req)"
proof -
  have w: "preserves invar (io_map_error wrap1 (on_world m))" for m
    by (rule preserves_map_error) (auto simp: preserves_def on_world_def invar_world split: prod.splits)
  have d: "preserves invar (\<lambda>c. case DataVerification ext v response (tq_TeeId req) c of
       (dvRes, c1) \<Rightarrow>
     (case CheckSigningPolicies v pause (tir_TeeInfo response) (cc_world c1) of
       ((st, spErr), w2) \<Rightarrow>
         (case dvRes of
            Inl err \<Rightarrow> Inl (classifyDataVerificationError err)
          | Inr statusInfo \<Rightarrow>
              (case spErr of
                 Some err \<Rightarrow> Inl err
               | None \<Rightarrow> Inr (teeResponse statusInfo (tir_TeeInfo response))), c1\<lparr>cc_world := w2\<rparr>)))" for response
    using preservesD [OF data_verification_keeps [OF assms]]
    by (auto simp: preserves_def invar_world split: prod.splits)
  show ?thesis
    unfolding Tee_Verify_def
    by (intro preserves_bind w) (auto split: prod.splits intro!: preserves_bind d)
qed

end

definition tee_env where
  "tee_env env gl ext nl hl v c \<longleftrightarrow> tv_CRLCache v = Some (FetchCRLsForToken env gl) \<and> crl_inv env c \<and> crl_env_foreign env gl \<and>
     ext_foreign ext \<and> net_foreign nl \<and> http_foreign hl"

interpretation tee_api: attestation_verifier "\<lambda>_. Tee_Verify ext nl hl pause v" "tee_env env gl ext nl hl v"
    "\<lambda>c req resp c'. tee_spec ext nl hl (tv_Cfg v) (tv_RelayCaller v) (chain_checked env gl) (FormatProxyURL v (tq_Url req)) (cc_world c) req resp (cc_world c')"
  for ext nl hl pause v env gl
proof
  show "preserves (tee_env env gl ext nl hl v) (Tee_Verify ext nl hl pause v data)" for data
    using crls.tee_verify_keeps [of v env gl ext nl hl pause data] by (auto simp: preserves_def tee_env_def)
next
  fix c data resp c'
  assume "tee_env env gl ext nl hl v c" "Tee_Verify ext nl hl pause v data c = (Inr resp, c')"
  then show "tee_spec ext nl hl (tv_Cfg v) (tv_RelayCaller v) (chain_checked env gl) (FormatProxyURL v (tq_Url data)) (cc_world c) data resp (cc_world c')"
    using crls.tee_verify_sound [of v env gl c ext nl hl pause data resp c'] unfolding tee_env_def by blast
next
  fix c data e c'
  assume "tee_env env gl ext nl hl v c" "Tee_Verify ext nl hl pause v data c = (Inl e, c')"
  then have "tee_error_ok e"
    using crls.tee_verify_errors [of v env gl c ext nl hl pause data e c'] unfolding tee_env_def by blast
  then show "well_tagged e" by (simp add: tee_error_ok_def)
qed


section \<open>Properties\<close>

text \<open>
  C32. Served through \<open>/verify\<close>, the availability check keeps its guarantees along any sequence of requests: every answer is an envelope,
  and a VERIFIED one encodes a response for which the challenge, the signatures, the attestation with its revocation lists and the
  signing policies were all checked, against the world as the requests before it left it.
\<close>

theorem tee_endpoint_sound:
  assumes "hex_ok lib" and "tee_env env gl ext nl hl v c"
    and "FromInternal m = Tee_FromInternal"
    and "serve lib m cfg (\<lambda>_. Tee_Verify ext nl hl pause v) reqs c = (replies, c')" and "(req, reply) \<in> set replies"
  shows "\<exists>answer. reply = HTTP_OK answer \<and> (vr_Status answer = StatusVerified \<longrightarrow> addressed cfg req \<and>
    (\<exists>before after data resp. reqs = before @ req # after \<and>
       structs_Decode m (enc_Request cfg) (aq_RequestBody req) = Inr data \<and>
       structs_EncodeResponse m (enc_Response cfg) resp = Inr (vr_ResponseBody answer) \<and>
       tee_spec ext nl hl (tv_Cfg v) (tv_RelayCaller v) (chain_checked env gl) (FormatProxyURL v (tq_Url data))
         (cc_world (snd (serve lib m cfg (\<lambda>_. Tee_Verify ext nl hl pause v) before c))) data resp
         (cc_world (snd (serve lib m cfg (\<lambda>_. Tee_Verify ext nl hl pause v) (before @ [req]) c)))))"
proof -
  from tee_api.serve_reply [OF assms(1,2,4,5)] obtain before after c0 c1 where
    split: "reqs = before @ req # after" "snd (serve lib m cfg (\<lambda>_. Tee_Verify ext nl hl pause v) before c) = c0" and
    c: "tee_env env gl ext nl hl v c0" "verify_op lib m cfg (\<lambda>_. Tee_Verify ext nl hl pause v) req c0 = (reply, c1)" .
  have "\<exists>answer. fst (verify_op lib m cfg (\<lambda>_. Tee_Verify ext nl hl pause v) req c0) = HTTP_OK answer"
    by (rule tee_api.verify_op_no_panic [OF assms(1) c(1)]) (simp add: assms(3) Tee_FromInternal_def)
  then obtain answer where answer: "reply = HTTP_OK answer" using c(2) by auto
  have "c1 = snd (serve lib m cfg (\<lambda>_. Tee_Verify ext nl hl pause v) (before @ [req]) c)"
    using c(2) by (simp add: serve_snoc split(2))
  from tee_api.verified_promise [OF assms(1) c(1) c(2) [unfolded answer]] this split answer show ?thesis by blast
qed

text \<open>
  C33. A revocation outage never condemns a TEE: when the verifier fails with it, \<open>/verify\<close> answers RETRY and the HTTP endpoint
  503. On every failure the two endpoints give the same verdict and leave the same state.
\<close>

theorem tee_outage_retries:
  assumes "hex_ok lib" and "tee_env env gl ext nl hl v c" and "addressed cfg req"
    and "structs_Decode m (enc_Request cfg) (aq_RequestBody req) = Inr data"
    and "Tee_Verify ext nl hl pause v data c = (Inl e, c')"
  shows "envelope_verdict (fst (verify_op lib m cfg (\<lambda>_. Tee_Verify ext nl hl pause v) req c)) =
      http_verdict (fst (prepareResponseBody_op lib m cfg (\<lambda>_. Tee_Verify ext nl hl pause v) req c)) \<and>
    (errors_Is e ErrTEERevocationUnavailable \<longrightarrow>
      verify_op lib m cfg (\<lambda>_. Tee_Verify ext nl hl pause v) req c =
        (HTTP_OK (retryResponse ''TEE revocation check unavailable''), c') \<and>
      prepareResponseBody_op lib m cfg (\<lambda>_. Tee_Verify ext nl hl pause v) req c =
        (HTTP_Error 503 ''Verification failed'', c'))"
proof -
  let ?v = "\<lambda>_ :: duration. Tee_Verify ext nl hl pause v"
  have d: "decodeRequest m (aq_RequestBody req) cfg = Inr data" using assms(4) by (simp add: decodeRequest_def)
  note ops = verify_op_failed [where v = ?v, OF assms(1,3) d assms(5)]
  have "classifyVerifyStatus e = (StatusRetry, ''TEE revocation check unavailable'') \<and> classifyVerifyError e = 503"
    if r: "errors_Is e ErrTEERevocationUnavailable"
  proof -
    have "tee_error_ok e"
      using crls.tee_verify_errors [of v env gl c ext nl hl pause data e c'] assms(2,5) unfolding tee_env_def by blast
    then have "only_tags crl_tags e" using r by (simp add: tee_error_ok_def well_tagged_def)
    then have n: "\<not> errors_Is e t" if "t \<notin> set crl_tags" for t using that by (auto simp: only_tags_def)
    show ?thesis
      by (simp add: classifyVerifyStatus_def classifyVerifyError_def n r crl_tags_def fetch_tags_def foreign_sentinels_def)
  qed
  with tee_api.endpoints_agree [OF assms(1,2), of m cfg pause req] show ?thesis by (simp add: ops retryResponse_def)
qed


text \<open>
  C34. Served through \<open>/verify\<close>, a payment status keeps its guarantees along any sequence of requests and never panics: every answer is
  an envelope, and a VERIFIED one encodes the response that the indexed instruction, the on-chain sequence and the transaction
  row determine.
\<close>

theorem payment_endpoint_sound:
  assumes "hex_ok lib" and "payment_env xl x truth caller logs txs s" and "FromInternal m = Payment_FromInternal"
    and "serve lib m cfg (\<lambda>_. PaymentStatus_Verify xl (VerifySequence (xl_tee xl) caller) x) reqs s = (replies, s')"
    and "(req, reply) \<in> set replies"
  shows "\<exists>answer. reply = HTTP_OK answer \<and> (vr_Status answer = StatusVerified \<longrightarrow> addressed cfg req \<and>
    (\<exists>data resp. structs_Decode m (enc_Request cfg) (aq_RequestBody req) = Inr data \<and>
       structs_EncodeResponse m (enc_Response cfg) resp = Inr (vr_ResponseBody answer) \<and>
       payment_spec xl x truth logs txs data resp))"
proof -
  let ?v = "\<lambda>_ :: duration. PaymentStatus_Verify xl (VerifySequence (xl_tee xl) caller) x"
  from payment_api.serve_reply [OF assms(1,2,4,5)] obtain s0 s1 where
    s: "payment_env xl x truth caller logs txs s0" "verify_op lib m cfg ?v req s0 = (reply, s1)" by blast
  have "FromInternal m resp \<noteq> None" if p: "payment_spec xl x truth logs txs data resp" for data resp
  proof -
    from p obtain raw msg tx where "BuildPaymentStatusResponse (xl_tee xl) (xl_codec xl) raw msg tx = Inr resp"
      unfolding payment_spec_def by blast
    from BuildPaymentStatusResponse_InrD [OF this] show ?thesis
      by (auto simp: assms(3) Payment_FromInternal_def checkDropsBound_ok_iff)
  qed
  then have "\<exists>answer. fst (verify_op lib m cfg ?v req s0) = HTTP_OK answer"
    by (rule payment_api.verify_op_no_panic [OF assms(1) s(1)])
  then obtain answer where "reply = HTTP_OK answer" using s(2) by auto
  with payment_api.verified_promise [OF assms(1) s(1), of m cfg req answer s1] s(2) show ?thesis by blast
qed

section \<open>Concrete exchanges\<close>

definition sample_tee_marshal :: "(TeeRequest, TeeRequest, TeeResponse, TeeResponse) marshal" where
  "sample_tee_marshal = \<lparr>ToInternal = Tee_ToInternal, FromInternal = Tee_FromInternal,
     structs_Decode = (\<lambda>_ b. Inr sample_tee_request), structs_EncodeRequest = (\<lambda>_ r. Inr [1]),
     structs_EncodeResponse = (\<lambda>_ r. Inr [2])\<rparr>"

abbreviation sample_http_req :: AttestationRequest where
  "sample_http_req \<equiv> \<lparr>aq_AttestationType = 4, aq_SourceID = 3, aq_RequestBody = [1]\<rparr>"

lemma sample_tee_fields:
  "addressed sample_enc sample_http_req" "structs_Decode sample_tee_marshal a b = Inr sample_tee_request"
  "structs_EncodeResponse sample_tee_marshal a r = Inr [2]" "FromInternal sample_tee_marshal = Tee_FromInternal"
  by (simp_all add: addressed_def sample_enc_def sample_tee_marshal_def)

lemma sample_ext_foreign: "ext_foreign sample_tee_ext"
  by (auto simp: ext_foreign_def sample_tee_ext_def foreign_result_def)

lemma sample_world_foreign: "net_foreign sample_net" "http_foreign (sample_http (Reply code b None))"
  by (auto simp: net_foreign_def http_foreign_def sample_net_def sample_http_def foreign_result_def)

lemma sample_crl_dp: "crl_env_foreign (sample_crl_env (Reply code b None)) sample_token_dp"
  using sample_crl_foreign [of "Reply code b None"]
  by (auto simp: crl_env_foreign_def sample_token_dp_def sample_token_ok_def foreign_result_def sample_token_lib_def)

lemma sample_cache_inv: "crl_inv env (NewCRLCache ())"
  by (simp add: crl_inv_def NewCRLCache_def)

theorem tee_endpoint_sound_witness:
  "\<exists>answer resp. serve sample_lib sample_tee_marshal sample_enc
      (\<lambda>_. Tee_Verify sample_tee_ext sample_net (sample_http (Reply 200 [7] None)) (\<lambda>w. (None, w))
        (Tee_Properties.sample_verifier (sample_crl_env (Reply 200 [7] None)))) [sample_http_req] (NewCRLCache ()) =
      ([(sample_http_req, HTTP_OK answer)], NewCRLCache ()) \<and>
     vr_Status answer = StatusVerified \<and>
     tee_spec sample_tee_ext sample_net (sample_http (Reply 200 [7] None)) sample_tee_cfg (\<lambda>_ w. (Inr 11, w))
       (chain_checked (sample_crl_env (Reply 200 [7] None)) sample_token_ok) ''https://tee.example:8443'' () sample_tee_request resp ()"
proof -
  let ?env = "sample_crl_env (Reply 200 [7] None)" and ?hl = "sample_http (Reply 200 [7] None)"
  let ?sv = "Tee_Properties.sample_verifier ?env"
  let ?v = "\<lambda>_ :: duration. Tee_Verify sample_tee_ext sample_net ?hl (\<lambda>w. (None, w)) ?sv"
  let ?answer = "\<lparr>vr_Status = StatusVerified, vr_ResponseBody = [2], vr_Message = ''''\<rparr>"
  have "accepted sample_tee_marshal sample_enc ?v sample_http_req (NewCRLCache ()) sample_tee_request
      (teeResponse \<lparr>si_CodeHash = 77, si_Platform = 78, si_Status = OK\<rparr> sample_tee_info) [2] (NewCRLCache ())"
    by (simp add: accepted_def sample_tee_fields sample_tee_run)
  from verify_op_accepted(1) [OF sample_hex_ok this]
  have run: "serve sample_lib sample_tee_marshal sample_enc ?v [sample_http_req] (NewCRLCache ()) =
      ([(sample_http_req, HTTP_OK ?answer)], NewCRLCache ())"
    by (simp add: sample_tee_fields Tee_FromInternal_def)
  have env: "tee_env ?env sample_token_ok sample_tee_ext sample_net ?hl ?sv (NewCRLCache ())"
    using sample_crl_foreign [of "Reply 200 [7] None"]
    by (simp add: tee_env_def sample_cache_inv sample_ext_foreign sample_world_foreign Tee_Properties.sample_verifier_def)
  have "\<exists>resp. tee_spec sample_tee_ext sample_net ?hl sample_tee_cfg (\<lambda>_ w. (Inr 11, w))
       (chain_checked ?env sample_token_ok) ''https://tee.example:8443'' () sample_tee_request resp ()"
    using tee_endpoint_sound [OF sample_hex_ok env sample_tee_fields(4) run, of sample_http_req "HTTP_OK ?answer"]
    by (auto simp: sample_tee_fields Tee_Properties.sample_verifier_def FormatProxyURL_def sample_tee_cfg_def sample_tee_request_def)
  with run show ?thesis by force
qed

theorem tee_outage_retries_witness:
  "verify_op sample_lib sample_tee_marshal sample_enc
      (\<lambda>_. Tee_Verify sample_tee_ext sample_net (sample_http (Reply 200 [7] None)) (\<lambda>w. (None, w)) sample_outage_verifier)
      sample_http_req (NewCRLCache ()) = (HTTP_OK (retryResponse ''TEE revocation check unavailable''), NewCRLCache ())"
proof -
  let ?hl = "sample_http (Reply 200 [7] None)"
  have env: "tee_env sample_outage sample_token_dp sample_tee_ext sample_net ?hl sample_outage_verifier (NewCRLCache ())"
    by (simp add: tee_env_def sample_cache_inv sample_ext_foreign sample_world_foreign sample_crl_dp sample_outage_verifier_def)
  obtain e where e: "Tee_Verify sample_tee_ext sample_net ?hl (\<lambda>w. (None, w)) sample_outage_verifier
      sample_tee_request (NewCRLCache ()) = (Inl e, NewCRLCache ())" "errors_Is e ErrTEERevocationUnavailable"
    using sample_outage_run by blast
  from tee_outage_retries [OF sample_hex_ok env sample_tee_fields(1,2) e(1)] e(2) show ?thesis by blast
qed

definition sample_payment_marshal :: "(PaymentStatusRequest, PaymentStatusRequest, PaymentStatusResponse, PaymentStatusExternal) marshal" where
  "sample_payment_marshal = \<lparr>ToInternal = Payment_ToInternal, FromInternal = Payment_FromInternal,
     structs_Decode = (\<lambda>_ b. Inr sample_req), structs_EncodeRequest = (\<lambda>_ r. Inr [1]),
     structs_EncodeResponse = (\<lambda>_ r. Inr [3])\<rparr>"

lemma sample_payment_env:
  "payment_env sample_xrp Payment_Status.sample_verifier (\<lambda>_ _. 100) sample_caller sample_logs sample_txs sample_bstate"
proof -
  have t: "tee_lib_foreign sample_tee"
    using sample_lib_foreign by (simp add: sample_tee_def tee_lib_foreign_def foreign_result_def)
  then have "xrp_lib_foreign sample_xrp" by (simp add: xrp_lib_foreign_def sample_xrp_def foreign_result_def)
  moreover have "repo_foreign (xv_Repo Payment_Status.sample_verifier)"
    by (simp add: repo_foreign_def Payment_Status.sample_verifier_def NewDBRepo_def foreign_result_def)
  moreover have "abi_def_foreign (pc_ParsedTeeInstructionsABI (xv_Config Payment_Status.sample_verifier))"
    by (simp add: abi_def_foreign_def Payment_Status.sample_verifier_def sample_cfg_def sample_abi_def foreign_result_def)
  ultimately show ?thesis
    using sample_tee_env sample_serves by (simp add: payment_env_def sample_xrp_def)
qed

theorem payment_endpoint_sound_witness:
  "\<exists>answer resp s'. serve sample_lib sample_payment_marshal sample_enc
      (\<lambda>_. PaymentStatus_Verify sample_xrp (VerifySequence (xl_tee sample_xrp) sample_caller) Payment_Status.sample_verifier)
      [sample_http_req] sample_bstate = ([(sample_http_req, HTTP_OK answer)], s') \<and>
     vr_Status answer = StatusVerified \<and> vr_ResponseBody answer = [3] \<and>
     payment_spec sample_xrp Payment_Status.sample_verifier (\<lambda>_ _. 100) sample_logs sample_txs sample_req resp"
proof -
  let ?v = "\<lambda>_ :: duration. PaymentStatus_Verify sample_xrp (VerifySequence (xl_tee sample_xrp) sample_caller)
    Payment_Status.sample_verifier"
  have f: "addressed sample_enc sample_http_req" "structs_Decode sample_payment_marshal a b = Inr sample_req"
    "structs_EncodeResponse sample_payment_marshal a r = Inr [3]" "FromInternal sample_payment_marshal = Payment_FromInternal"
    for a b r by (simp_all add: sample_tee_fields sample_payment_marshal_def)
  obtain resp s' where v: "?v verifierWorkTimeout sample_req sample_bstate = (Inr resp, s')"
    using sample_verify by (auto simp: sample_xrp_def)
  then have acc: "accepted sample_payment_marshal sample_enc ?v sample_http_req sample_bstate sample_req resp [3] s'"
    by (simp add: accepted_def f)
  obtain replies s1 where run: "serve sample_lib sample_payment_marshal sample_enc ?v [sample_http_req] sample_bstate = (replies, s1)"
    by fastforce
  then obtain reply where r: "replies = [(sample_http_req, reply)]" by (auto split: prod.splits)
  from payment_endpoint_sound [OF sample_hex_ok sample_payment_env f(4) run, of sample_http_req reply] r
  obtain answer where a: "reply = HTTP_OK answer" by auto
  with run r verify_op_accepted(1) [OF sample_hex_ok acc] have st: "vr_Status answer = StatusVerified" "vr_ResponseBody answer = [3]"
    by (auto split: option.splits)
  with payment_endpoint_sound [OF sample_hex_ok sample_payment_env f(4) run, of sample_http_req reply] r a
  have "\<exists>resp. payment_spec sample_xrp Payment_Status.sample_verifier (\<lambda>_ _. 100) sample_logs sample_txs sample_req resp"
    by (auto simp: f)
  with run r a st show ?thesis by blast
qed

end
