(* ===== verification/Database.thy ===== *)
theory Database
  imports Instruction
begin

text \<open>
  \<open>internal/attestation/pmwpaymentstatus/db/db.go\<close>: the timeouts added to the connection strings, and opening a database
  with retries, which the payment-status and fee-proof services share.

  What the services acquire from outside (database handles, RPC connections) is tracked in a \<open>res_world\<close>: the open resources
  and a counter that numbers the attempts. Whether an attempt succeeds, whether a handle has a usable connection pool
  and whether closing reports an error is a parameter, \<open>boot_env\<close>; no two resources share a number.
\<close>

section \<open>Connection strings\<close>

definition dbStatementTimeout :: duration where "dbStatementTimeout = 28 * second_ns"

definition dsnHasParam :: "string \<Rightarrow> string \<Rightarrow> bool" where
  "dsnHasParam dsn key =
     (strings_HasPrefix dsn (key @ ''='') \<or>
      list_ex (\<lambda>sep. strings_Contains dsn (sep @ key @ ''='')) [''?'', ''&'', '' ''])"

definition appendDSNParam :: "string \<Rightarrow> string \<Rightarrow> string \<Rightarrow> string" where
  "appendDSNParam dsn key val =
     (if dsnHasParam dsn key then dsn
      else dsn @ (if strings_Contains dsn ''?'' then ''&'' else ''?'') @ key @ ''='' @ val)"

text \<open>\<open>Duration.Milliseconds\<close> and \<open>Duration.String\<close> of a duration of whole seconds below a minute.\<close>

definition milliseconds :: "duration \<Rightarrow> nat" where
  "milliseconds d = nat (d div (second_ns div 1000))"

definition duration_String :: "duration \<Rightarrow> string" where
  "duration_String d = decimal_digits (nat (d div second_ns)) @ ''s''"

definition withPostgresStatementTimeout :: "string \<Rightarrow> string" where
  "withPostgresStatementTimeout dsn =
     (if dsnHasParam dsn ''statement_timeout'' then dsn
      else if strings_Contains dsn ''://'' then appendDSNParam dsn ''statement_timeout'' (decimal_digits (milliseconds dbStatementTimeout))
      else dsn @ '' statement_timeout='' @ decimal_digits (milliseconds dbStatementTimeout))"

definition withMySQLIOTimeouts :: "string \<Rightarrow> string" where
  "withMySQLIOTimeouts dsn =
     appendDSNParam (appendDSNParam dsn ''readTimeout'' (duration_String dbStatementTimeout))
       ''writeTimeout'' (duration_String dbStatementTimeout)"

lemma dsnHasParam_append:
  assumes "sep \<in> {''?'', ''&'', '' ''}"
  shows "dsnHasParam (dsn @ sep @ key @ ''='' @ v) key"
proof -
  have "strings_Contains (dsn @ sep @ key @ ''='' @ v) (sep @ key @ ''='')"
    unfolding Contains_iff by (intro exI [of _ dsn] exI [of _ v]) simp
  with assms show ?thesis by (auto simp: dsnHasParam_def)
qed

lemma dsnHasParam_mono: "dsnHasParam dsn key \<Longrightarrow> dsnHasParam (dsn @ t) key"
proof -
  have "strings_Contains s p \<Longrightarrow> strings_Contains (s @ t) p" for s p
    unfolding Contains_iff by (metis append.assoc)
  moreover have "strings_HasPrefix s p \<Longrightarrow> strings_HasPrefix (s @ t) p" for s p
    by (auto simp: HasPrefix_iff)
  ultimately show "dsnHasParam dsn key \<Longrightarrow> dsnHasParam (dsn @ t) key" by (auto simp: dsnHasParam_def)
qed

lemma appendDSNParam_has: "dsnHasParam (appendDSNParam dsn key v) key"
  using dsnHasParam_append [of "''&''" dsn key v] dsnHasParam_append [of "''?''" dsn key v]
  by (auto simp: appendDSNParam_def)

lemma appendDSNParam_prefix: "\<exists>t. appendDSNParam dsn key v = dsn @ t"
  by (auto simp: appendDSNParam_def)

lemma appendDSNParam_keeps: "dsnHasParam dsn k \<Longrightarrow> dsnHasParam (appendDSNParam dsn key v) k"
  using appendDSNParam_prefix [of dsn key v] dsnHasParam_mono by metis

text \<open>A parameter that starts at a separator adds no other: the separator occurs in a searched pattern at most at its start.\<close>

lemma HasPrefix_sep:
  assumes "c \<notin> set p"
  shows "strings_HasPrefix (d @ c # x) p \<longleftrightarrow> strings_HasPrefix d p"
proof -
  have "us = []" if "p = d @ us" "prefix us (c # x)" for us
    using that assms by (cases us) auto
  then show ?thesis by (auto simp: HasPrefix_iff prefix_append)
qed

lemma Contains_sep:
  assumes "c \<notin> set p"
  shows "strings_Contains (d @ c # x) (s # p) \<longleftrightarrow>
    strings_Contains d (s # p) \<or> strings_HasPrefix (c # x) (s # p) \<or> strings_Contains x (s # p)"
proof (induction d)
  case (Cons h d)
  have "strings_HasPrefix (h # d @ c # x) (s # p) \<longleftrightarrow> strings_HasPrefix (h # d) (s # p)"
    using HasPrefix_sep [OF assms, of d x] by (simp add: HasPrefix_iff)
  with Cons show ?case by auto
qed simp

lemma read_adds_no_write:
  assumes "c \<in> {CHR ''?'', CHR ''&''}"
  shows "dsnHasParam (d @ c # ''readTimeout=28s'') ''writeTimeout'' \<longleftrightarrow> dsnHasParam d ''writeTimeout''"
proof -
  have c: "c \<notin> set (''writeTimeout'' @ ''='')" using assms by auto
  have "strings_Contains (d @ c # ''readTimeout=28s'') (s # ''writeTimeout'' @ ''='') \<longleftrightarrow> strings_Contains d (s # ''writeTimeout'' @ ''='')"
    if "s \<in> {CHR ''?'', CHR ''&'', CHR '' ''}" for s
    unfolding Contains_sep [OF c] using assms that by (auto simp: strings_HasPrefix_def)
  then show ?thesis
    using HasPrefix_sep [OF c] by (simp add: dsnHasParam_def)
qed

lemma Contains_char: "strings_Contains s [c] \<longleftrightarrow> c \<in> set s"
  unfolding Contains_iff by (auto simp: in_set_conv_decomp)

lemma appendDSNParam_eq:
  "appendDSNParam dsn key v =
     (if dsnHasParam dsn key then dsn else dsn @ (if CHR ''?'' \<in> set dsn then CHR ''&'' else CHR ''?'') # key @ ''='' @ v)"
  by (simp add: appendDSNParam_def Contains_char)

lemma timeout_texts: "decimal_digits (milliseconds dbStatementTimeout) = ''28000''" "duration_String dbStatementTimeout = ''28s''"
  by (simp_all add: milliseconds_def duration_String_def dbStatementTimeout_def decimal_digits.simps digit_char_def char_of_def bit_iff_odd)

lemma withMySQLIOTimeouts_eq:
  "withMySQLIOTimeouts dsn =
     dsn @ (if dsnHasParam dsn ''readTimeout'' then '''' else (if CHR ''?'' \<in> set dsn then ''&'' else ''?'') @ ''readTimeout=28s'') @
       (if dsnHasParam dsn ''writeTimeout'' then ''''
        else (if CHR ''?'' \<in> set dsn \<or> \<not> dsnHasParam dsn ''readTimeout'' then ''&'' else ''?'') @ ''writeTimeout=28s'')"
  using read_adds_no_write [of "CHR ''&''" dsn] read_adds_no_write [of "CHR ''?''" dsn]
  by (simp add: withMySQLIOTimeouts_def timeout_texts appendDSNParam_eq)

text \<open>
  C40. Every database connection gets its timeouts and an operator's own setting wins. A Postgres string that has \<open>statement_timeout\<close> stays as it is; otherwise
  28000 milliseconds are appended, as a query parameter of a URL and as a keyword of a keyword string. Of the two MySQL parameters each one that is there stays, each one
  that is missing is appended with 28 seconds, after \<open>?\<close> where it is the first parameter and after \<open>&\<close> otherwise. Afterwards the parameters are there, so rewriting
  again changes nothing.
\<close>

theorem dsn_timeouts:
  "withPostgresStatementTimeout dsn =
     (if dsnHasParam dsn ''statement_timeout'' then dsn
      else if strings_Contains dsn ''://'' then dsn @ (if CHR ''?'' \<in> set dsn then ''&'' else ''?'') @ ''statement_timeout=28000''
      else dsn @ '' statement_timeout=28000'') \<and>
   dsnHasParam (withPostgresStatementTimeout dsn) ''statement_timeout'' \<and>
   withPostgresStatementTimeout (withPostgresStatementTimeout dsn) = withPostgresStatementTimeout dsn \<and>
   withMySQLIOTimeouts dsn =
     dsn @ (if dsnHasParam dsn ''readTimeout'' then '''' else (if CHR ''?'' \<in> set dsn then ''&'' else ''?'') @ ''readTimeout=28s'') @
       (if dsnHasParam dsn ''writeTimeout'' then ''''
        else (if CHR ''?'' \<in> set dsn \<or> \<not> dsnHasParam dsn ''readTimeout'' then ''&'' else ''?'') @ ''writeTimeout=28s'') \<and>
   dsnHasParam (withMySQLIOTimeouts dsn) ''readTimeout'' \<and> dsnHasParam (withMySQLIOTimeouts dsn) ''writeTimeout'' \<and>
   withMySQLIOTimeouts (withMySQLIOTimeouts dsn) = withMySQLIOTimeouts dsn"
proof -
  let ?ms = "decimal_digits (milliseconds dbStatementTimeout)"
  have sp: "'' statement_timeout='' @ ?ms = '' '' @ ''statement_timeout'' @ ''='' @ ?ms" by simp
  have "dsnHasParam (dsn @ '' statement_timeout='' @ ?ms) ''statement_timeout''"
    unfolding sp by (rule dsnHasParam_append) simp
  then have p: "dsnHasParam (withPostgresStatementTimeout dsn) ''statement_timeout''"
    using appendDSNParam_has [of dsn "''statement_timeout''" ?ms]
    unfolding withPostgresStatementTimeout_def by presburger
  have r: "dsnHasParam (withMySQLIOTimeouts dsn) ''readTimeout''"
    unfolding withMySQLIOTimeouts_def by (rule appendDSNParam_keeps [OF appendDSNParam_has])
  have w: "dsnHasParam (withMySQLIOTimeouts dsn) ''writeTimeout''"
    unfolding withMySQLIOTimeouts_def by (rule appendDSNParam_has)
  have x: "appendDSNParam d k v = d" if "dsnHasParam d k" for d k v using that by (simp add: appendDSNParam_def)
  have "withPostgresStatementTimeout dsn =
     (if dsnHasParam dsn ''statement_timeout'' then dsn
      else if strings_Contains dsn ''://'' then dsn @ (if CHR ''?'' \<in> set dsn then ''&'' else ''?'') @ ''statement_timeout=28000''
      else dsn @ '' statement_timeout=28000'')"
    by (simp add: withPostgresStatementTimeout_def timeout_texts appendDSNParam_eq)
  moreover have "withMySQLIOTimeouts (withMySQLIOTimeouts dsn) = withMySQLIOTimeouts dsn"
    unfolding withMySQLIOTimeouts_def [of "withMySQLIOTimeouts dsn"] x [OF r] x [OF w] ..
  moreover have "withPostgresStatementTimeout (withPostgresStatementTimeout dsn) = withPostgresStatementTimeout dsn"
    unfolding withPostgresStatementTimeout_def [of "withPostgresStatementTimeout dsn"] using p by (rule if_P)
  ultimately show ?thesis using p r w withMySQLIOTimeouts_eq [of dsn] by (intro conjI)
qed


theorem dsn_timeouts_witness:
  "withPostgresStatementTimeout ''postgres://h/db'' = ''postgres://h/db?statement_timeout=28000'' \<and>
   withPostgresStatementTimeout ''host=h statement_timeout=5'' = ''host=h statement_timeout=5'' \<and>
   withMySQLIOTimeouts ''u@h/db'' = ''u@h/db?readTimeout=28s&writeTimeout=28s'' \<and>
   withMySQLIOTimeouts ''u@h/db?readTimeout=5s'' = ''u@h/db?readTimeout=5s&writeTimeout=28s''"
proof -
  note pg = dsn_timeouts [THEN conjunct1] and
    my = dsn_timeouts [THEN conjunct2, THEN conjunct2, THEN conjunct2, THEN conjunct1]
  show ?thesis
    using pg [of "''postgres://h/db''"] pg [of "''host=h statement_timeout=5''"] my [of "''u@h/db''"] my [of "''u@h/db?readTimeout=5s''"]
    by (simp add: dsnHasParam_def strings_HasPrefix_def)
qed


section \<open>Resources\<close>

record boot_env =
  be_result :: "string \<Rightarrow> nat \<Rightarrow> goerr option"
  be_pool :: "nat \<Rightarrow> goerr option"
  be_close :: "nat \<Rightarrow> goerr option"

record res_world =
  rw_open :: "nat list"
  rw_clock :: nat
  rw_sleeps :: "duration list"

definition acquire :: "boot_env \<Rightarrow> string \<Rightarrow> ('a res_world_scheme, goerr, nat) io" where
  "acquire env target w =
     (case be_result env target (rw_clock w) of
        Some e \<Rightarrow> (Inl e, w\<lparr>rw_clock := rw_clock w + 1\<rparr>)
      | None \<Rightarrow> (Inr (rw_clock w), w\<lparr>rw_clock := rw_clock w + 1, rw_open := rw_clock w # rw_open w\<rparr>))"

definition release :: "nat \<Rightarrow> 'a res_world_scheme \<Rightarrow> 'a res_world_scheme" where
  "release r w = w\<lparr>rw_open := remove1 r (rw_open w)\<rparr>"

definition sleep :: "duration \<Rightarrow> 'a res_world_scheme \<Rightarrow> 'a res_world_scheme" where
  "sleep d w = w\<lparr>rw_sleeps := rw_sleeps w @ [d]\<rparr>"

section \<open>Opening a database\<close>

record DBOptions =
  do_MaxAttempts :: int
  do_RetryDelay :: duration
  do_MaxDelay :: duration

text \<open>
  With no attempt allowed the final message is built from a nil error, which panics. The message replaces the error it reports, so the result
  wraps nothing.
\<close>

datatype init_error = InitError goerr | InitPanic

definition configurePool :: "boot_env \<Rightarrow> nat \<Rightarrow> unit result" where
  "configurePool env db = (case be_pool env db of Some e \<Rightarrow> Inl e | None \<Rightarrow> Inr ())"

fun init_loop :: "boot_env \<Rightarrow> string \<Rightarrow> duration \<Rightarrow> nat \<Rightarrow> duration \<Rightarrow> goerr option \<Rightarrow>
    ('a res_world_scheme, init_error, nat) io" where
  "init_loop env dsn maxDelay 0 currentDelay err w =
     (Inl (case err of None \<Rightarrow> InitPanic | Some _ \<Rightarrow> InitError Plain), w)"
| "init_loop env dsn maxDelay (Suc n) currentDelay err w =
     (case acquire env dsn w of
        (Inr db, w1) \<Rightarrow>
          (case configurePool env db of
             Inl poolErr \<Rightarrow> (Inl (InitError (wrap1 poolErr)), w1)
           | Inr _ \<Rightarrow> (Inr db, w1))
      | (Inl e, w1) \<Rightarrow>
          if n > 0
          then init_loop env dsn maxDelay n
                 (if currentDelay * 2 > maxDelay then maxDelay else currentDelay * 2) (Some e) (sleep currentDelay w1)
          else init_loop env dsn maxDelay n currentDelay (Some e) w1)"

definition initDBWithRetries :: "boot_env \<Rightarrow> string \<Rightarrow> DBOptions \<Rightarrow> ('a res_world_scheme, init_error, nat) io" where
  "initDBWithRetries env dsn opts =
     init_loop env dsn (do_MaxDelay opts) (nat (do_MaxAttempts opts)) (do_RetryDelay opts) None"

definition sourceDBOptions :: DBOptions where
  "sourceDBOptions = \<lparr>do_MaxAttempts = 5, do_RetryDelay = 1 * second_ns, do_MaxDelay = 5 * second_ns\<rparr>"

definition cChainDBOptions :: DBOptions where
  "cChainDBOptions = \<lparr>do_MaxAttempts = 10, do_RetryDelay = 2 * second_ns, do_MaxDelay = 10 * second_ns\<rparr>"

definition InitSourceDB :: "boot_env \<Rightarrow> string \<Rightarrow> DBOptions option \<Rightarrow> ('a res_world_scheme, init_error, nat) io" where
  "InitSourceDB env dsn overrideOpts =
     initDBWithRetries env (withPostgresStatementTimeout dsn)
       (case overrideOpts of None \<Rightarrow> sourceDBOptions | Some opts \<Rightarrow> opts)"

definition InitCChainDB :: "boot_env \<Rightarrow> string \<Rightarrow> DBOptions option \<Rightarrow> ('a res_world_scheme, init_error, nat) io" where
  "InitCChainDB env dsn overrideOpts =
     initDBWithRetries env (withMySQLIOTimeouts dsn)
       (case overrideOpts of None \<Rightarrow> cChainDBOptions | Some opts \<Rightarrow> opts)"

definition CloseDB :: "boot_env \<Rightarrow> nat option \<Rightarrow> 'a res_world_scheme \<Rightarrow> goerr option \<times> 'a res_world_scheme" where
  "CloseDB env db_opt w =
     (case db_opt of
        None \<Rightarrow> (None, w)
      | Some db \<Rightarrow>
          (case be_pool env db of
             Some e \<Rightarrow> (Some (wrap1 e), w)
           | None \<Rightarrow> (map_option wrap1 (be_close env db), release db w)))"

section \<open>Lemmas: opening\<close>

text \<open>The pool of every handle can be configured.\<close>

definition pools_ok :: "boot_env \<Rightarrow> bool" where
  "pools_ok env \<longleftrightarrow> (\<forall>db. be_pool env db = None)"

lemma acquire_open:
  "acquire env t w = (Inr r, w') \<Longrightarrow> rw_open w' = r # rw_open w"
  "acquire env t w = (Inl e, w') \<Longrightarrow> rw_open w' = rw_open w"
  by (auto simp: acquire_def split: option.splits)

lemma sleep_open [simp]: "rw_open (sleep d w) = rw_open w"
  by (simp add: sleep_def)

lemma init_loop_open:
  assumes "init_loop env dsn maxDelay n cur err w = (r, w')"
  shows "r = Inr db \<Longrightarrow> rw_open w' = db # rw_open w \<and> be_pool env db = None"
    and "r = Inl e \<Longrightarrow> pools_ok env \<Longrightarrow> rw_open w' = rw_open w"
  using assms
proof (induction env dsn maxDelay n cur err w rule: init_loop.induct)
  case (2 env dsn maxDelay n cur err w)
  case 1
  with 2 show ?case
    by (auto simp: configurePool_def split: prod.splits sum.splits option.splits if_splits dest: acquire_open)
next
  case (2 env dsn maxDelay n cur err w)
  case 2
  with "2.IH" show ?case
    by (auto simp: configurePool_def pools_ok_def split: prod.splits sum.splits option.splits if_splits dest: acquire_open)
qed (auto split: option.splits)


text \<open>The waits between attempts: doubled each time, up to the maximum.\<close>

fun backoff :: "duration \<Rightarrow> nat \<Rightarrow> duration \<Rightarrow> duration list" where
  "backoff maxDelay 0 d = []"
| "backoff maxDelay (Suc n) d = d # backoff maxDelay n (min (d * 2) maxDelay)"

lemma init_loop_effort:
  "init_loop env dsn maxDelay n cur err w = (r, w') \<Longrightarrow>
     \<exists>a \<le> n. (0 < n \<longrightarrow> 0 < a) \<and> rw_clock w' = rw_clock w + a \<and>
       rw_sleeps w' = rw_sleeps w @ take (a - 1) (backoff maxDelay n cur)"
proof (induction n arbitrary: cur err w)
  case (Suc n)
  obtain q w1 where q: "acquire env dsn w = (q, w1)" by fastforce
  then have w1: "rw_clock w1 = rw_clock w + 1" "rw_sleeps w1 = rw_sleeps w"
    by (auto simp: acquire_def split: option.splits)
  show ?case
  proof (cases "\<exists>e. q = Inl e \<and> n > 0")
    case True
    then obtain e where e: "q = Inl e" "n > 0" by blast
    have "(if cur * 2 > maxDelay then maxDelay else cur * 2) = min (cur * 2) maxDelay" by simp
    with Suc.prems q e have "init_loop env dsn maxDelay n (min (cur * 2) maxDelay) (Some e) (sleep cur w1) = (r, w')" by simp
    from Suc.IH [OF this] e(2) obtain a where a: "a \<le> n" "0 < a" "rw_clock w' = rw_clock w1 + a"
      "rw_sleeps w' = (rw_sleeps w1 @ [cur]) @ take (a - 1) (backoff maxDelay n (min (cur * 2) maxDelay))"
      by (auto simp: sleep_def)
    then have "take a (backoff maxDelay (Suc n) cur) = cur # take (a - 1) (backoff maxDelay n (min (cur * 2) maxDelay))"
      by (cases a) auto
    with a w1 show ?thesis by (intro exI [of _ "Suc a"]) auto
  next
    case False
    with Suc.prems q w1 show ?thesis
      by (intro exI [of _ 1]) (auto simp: configurePool_def split: sum.splits option.splits if_splits)
  qed
qed simp

text \<open>Between one and \<open>MaxAttempts\<close> attempts, with the waits of the schedule between them; no panic.\<close>

lemma initDB_effort:
  assumes "0 < do_MaxAttempts opts" and "initDBWithRetries env dsn opts w = (r, w')"
  shows "\<exists>a. 0 < a \<and> int a \<le> do_MaxAttempts opts \<and> rw_clock w' = rw_clock w + a \<and>
    rw_sleeps w' = rw_sleeps w @ take (a - 1) (backoff (do_MaxDelay opts) (nat (do_MaxAttempts opts)) (do_RetryDelay opts))"
  using init_loop_effort [OF assms(2) [unfolded initDBWithRetries_def]] assms(1) by fastforce

lemma init_no_panic:
  assumes "0 < do_MaxAttempts opts"
  shows "fst (initDBWithRetries env dsn opts w) \<noteq> Inl InitPanic"
proof -
  have "fst (init_loop env dsn maxDelay n cur err w) \<noteq> Inl InitPanic" if "0 < n \<or> err \<noteq> None" for maxDelay n cur err
    using that
    by (induction env dsn maxDelay n cur err w rule: init_loop.induct)
       (auto split: prod.splits sum.splits option.splits if_splits)
  with assms show ?thesis by (simp add: initDBWithRetries_def)
qed

text \<open>A handle whose pool cannot be configured is reported as a failure and stays open.\<close>

lemma init_pool_leak:
  assumes "be_result env dsn (rw_clock w) = None" and "be_pool env (rw_clock w) = Some e" and "0 < do_MaxAttempts opts"
  shows "\<exists>w'. initDBWithRetries env dsn opts w = (Inl (InitError (wrap1 e)), w') \<and> rw_open w' = rw_clock w # rw_open w"
proof -
  from assms(3) obtain n where "nat (do_MaxAttempts opts) = Suc n" by (cases "nat (do_MaxAttempts opts)") auto
  with assms(1,2) show ?thesis by (simp add: initDBWithRetries_def acquire_def configurePool_def)
qed

text \<open>Without an attempt the error message is built from a nil error.\<close>

lemma init_panics:
  "do_MaxAttempts opts \<le> 0 \<Longrightarrow> initDBWithRetries env dsn opts w = (Inl InitPanic, w)"
  by (simp add: initDBWithRetries_def)


lemma init_loop_retry:
  assumes "be_result env dsn (rw_clock w) = Some e" and "0 < n"
  shows "init_loop env dsn maxDelay (Suc n) cur err w =
    init_loop env dsn maxDelay n (min (cur * 2) maxDelay) (Some e) (w\<lparr>rw_clock := rw_clock w + 1, rw_sleeps := rw_sleeps w @ [cur]\<rparr>)"
proof -
  have "(if cur * 2 > maxDelay then maxDelay else cur * 2) = min (cur * 2) maxDelay" by simp
  with assms show ?thesis by (simp add: acquire_def sleep_def)
qed

lemma init_loop_all_fail:
  assumes "\<forall>j < n. be_result env dsn (rw_clock w + j) \<noteq> None" and "0 < n"
  shows "init_loop env dsn maxDelay n cur err w =
    (Inl (InitError Plain), w\<lparr>rw_clock := rw_clock w + n, rw_sleeps := rw_sleeps w @ take (n - 1) (backoff maxDelay n cur)\<rparr>)"
  using assms
proof (induction n arbitrary: cur err w)
  case (Suc n)
  from Suc.prems(1) obtain e where e: "be_result env dsn (rw_clock w) = Some e" by force
  show ?case
  proof (cases "n = 0")
    case True
    with e show ?thesis by (simp add: acquire_def)
  next
    case False
    let ?w = "w\<lparr>rw_clock := rw_clock w + 1, rw_sleeps := rw_sleeps w @ [cur]\<rparr>"
    have "\<forall>j < n. be_result env dsn (rw_clock ?w + j) \<noteq> None" using Suc.prems(1) by auto
    from Suc.IH [OF this, of "min (cur * 2) maxDelay" "Some e"] init_loop_retry [OF e, of n] False show ?thesis
      by (cases n) simp_all
  qed
qed simp

lemma init_loop_first_success:
  assumes "k < n" and "be_result env dsn (rw_clock w + k) = None" and "\<forall>j < k. be_result env dsn (rw_clock w + j) \<noteq> None"
    and "be_pool env (rw_clock w + k) = None"
  shows "init_loop env dsn maxDelay n cur err w =
    (Inr (rw_clock w + k), w\<lparr>rw_clock := rw_clock w + k + 1, rw_open := (rw_clock w + k) # rw_open w,
       rw_sleeps := rw_sleeps w @ take k (backoff maxDelay n cur)\<rparr>)"
  using assms
proof (induction n arbitrary: k cur err w)
  case (Suc n)
  show ?case
  proof (cases k)
    case 0
    with Suc.prems show ?thesis by (simp add: acquire_def configurePool_def)
  next
    case k: (Suc i)
    let ?w = "w\<lparr>rw_clock := rw_clock w + 1, rw_sleeps := rw_sleeps w @ [cur]\<rparr>"
    from Suc.prems(3) k obtain e where e: "be_result env dsn (rw_clock w) = Some e" by force
    have "i < n" "be_result env dsn (rw_clock ?w + i) = None" "be_pool env (rw_clock ?w + i) = None"
      "\<forall>j < i. be_result env dsn (rw_clock ?w + j) \<noteq> None"
      using Suc.prems k by auto
    from Suc.IH [OF this(1,2,4,3), of "min (cur * 2) maxDelay" "Some e"] init_loop_retry [OF e, of n] k \<open>i < n\<close> show ?thesis
      by simp
  qed
qed simp

text \<open>
  C39. A database that comes up in time is opened. When one of the allowed attempts succeeds, opening returns the handle of the first such attempt, after the doubled and capped waits between
  the failed ones; when none does, it fails after exactly the allowed number of attempts, with no handle left open.
\<close>

theorem init_connects:
  assumes "0 < do_MaxAttempts opts" and "pools_ok env"
    and "n = nat (do_MaxAttempts opts)" and "waits = backoff (do_MaxDelay opts) n (do_RetryDelay opts)"
  shows "(\<forall>k. k < n \<and> be_result env dsn (rw_clock w + k) = None \<and> (\<forall>j < k. be_result env dsn (rw_clock w + j) \<noteq> None) \<longrightarrow>
      initDBWithRetries env dsn opts w =
        (Inr (rw_clock w + k), w\<lparr>rw_clock := rw_clock w + k + 1, rw_open := (rw_clock w + k) # rw_open w, rw_sleeps := rw_sleeps w @ take k waits\<rparr>)) \<and>
    ((\<forall>j < n. be_result env dsn (rw_clock w + j) \<noteq> None) \<longrightarrow>
      initDBWithRetries env dsn opts w =
        (Inl (InitError Plain), w\<lparr>rw_clock := rw_clock w + n, rw_sleeps := rw_sleeps w @ take (n - 1) waits\<rparr>))"
proof -
  have pool: "be_pool env i = None" for i using assms(2) by (simp add: pools_ok_def)
  have "0 < n" using assms(1,3) by simp
  with assms(3,4) init_loop_first_success [OF _ _ _ pool] init_loop_all_fail show ?thesis
    unfolding initDBWithRetries_def by blast
qed

text \<open>A database that refuses the first two connections.\<close>

definition sample_slow_env :: boot_env where
  "sample_slow_env = \<lparr>be_result = (\<lambda>_ n. if n < 2 then Some Plain else None), be_pool = (\<lambda>_. None), be_close = (\<lambda>_. None)\<rparr>"

theorem init_connects_witness:
  "initDBWithRetries sample_slow_env ''dsn'' sourceDBOptions \<lparr>rw_open = [], rw_clock = 0, rw_sleeps = []\<rparr> =
     (Inr 2, \<lparr>rw_open = [2], rw_clock = 3, rw_sleeps = [1000000000, 2000000000]\<rparr>)"
proof -
  have "0 < do_MaxAttempts sourceDBOptions" "pools_ok sample_slow_env" by (simp_all add: sourceDBOptions_def pools_ok_def sample_slow_env_def)
  note live = init_connects [OF this refl refl, of "''dsn''" "\<lparr>rw_open = [], rw_clock = 0, rw_sleeps = []\<rparr>", THEN conjunct1, rule_format, of 2]
  have "initDBWithRetries sample_slow_env ''dsn'' sourceDBOptions \<lparr>rw_open = [], rw_clock = 0, rw_sleeps = []\<rparr> =
     (Inr (0 + 2), \<lparr>rw_open = [2], rw_clock = 3,
       rw_sleeps = take 2 (backoff (do_MaxDelay sourceDBOptions) (nat (do_MaxAttempts sourceDBOptions)) (do_RetryDelay sourceDBOptions))\<rparr>)"
    by (subst live) (auto simp: sourceDBOptions_def sample_slow_env_def)
  then show ?thesis by (simp add: sourceDBOptions_def numeral_eq_Suc)
qed

end
