(* ===== verification/Services.thy ===== *)
theory Services
  imports Endpoints Database "HOL-Library.Multiset"
begin

text \<open>
  The four services (\<open>service.go\<close> of each attestation), the registries that pick a verifier for a source, and the
  loader (\<open>internal/api/loader.go\<close>) that builds every service a deployment serves, registers its endpoints and rolls back on failure.

  The state is the resources of \<open>Database\<close> extended by the four configurations that are loaded once. The connection to the Flare node, the contract
  bindings, and what a database handle answers are parameters, collected in \<open>service_lib\<close>.
\<close>

section \<open>State and libraries\<close>

record boot_world = res_world +
  bw_payment :: "PMWPaymentStatusConfig once"
  bw_fee :: "PMWFeeProofConfig once"
  bw_multisig :: "PMWMultisigAccountConfig once"
  bw_tee :: "TeeAvailabilityCheckConfig once"

record 'n service_lib =
  sv_config :: config_lib
  sv_tee :: tee_lib
  sv_env :: boot_env
  sv_txs :: "nat \<Rightarrow> tx_query \<Rightarrow> DBTransaction list result"
  sv_logs :: "nat \<Rightarrow> log_query \<Rightarrow> db_log list result"
  sv_NewTeePaymentsCaller :: "address \<Rightarrow> nat \<Rightarrow> unit result"
  sv_NewRelayCaller :: "address \<Rightarrow> nat \<Rightarrow> boot_world relay_caller result"
  sv_crls :: "boot_world crl_source"
  sv_node :: "'n xrpl_node"
  sv_node0 :: 'n

definition sv_eth :: "'n service_lib \<Rightarrow> (nat, boot_world) eth_lib" where
  "sv_eth sv = \<lparr>eth_Dial = acquire (sv_env sv), eth_NewRelayCaller = sv_NewRelayCaller sv, eth_Close = release\<rparr>"

text \<open>A failed opening as an error value; the services pass no options, so opening never panics (\<open>init_no_panic\<close>).\<close>

fun init_goerr :: "init_error \<Rightarrow> goerr" where
  "init_goerr (InitError e) = e"
| "init_goerr InitPanic = Plain"

section \<open>Registries\<close>

text \<open>\<open>ConstructorForSource\<close>: the registries of payment status and fee proof know the two XRP sources; so does the multisig one.\<close>

definition verifier_registry :: "source_name list" where
  "verifier_registry = [SourceXRP, SourceTestXRP]"

definition ConstructorForSource :: "source_name \<Rightarrow> unit result" where
  "ConstructorForSource sourceID = (if sourceID \<in> set verifier_registry then Inr () else Inl Plain)"

section \<open>Payment status and fee proof\<close>

text \<open>
  The constructor of a verifier dials the Flare node; \<open>construct\<close> gets the outcome of dialling and of binding the contract and
  reports whether the connection is kept.
\<close>

definition dial_verifier ::
  "boot_env \<Rightarrow> string \<Rightarrow> (nat \<Rightarrow> unit result) \<Rightarrow> (unit result \<Rightarrow> unit result \<Rightarrow> 'v result \<times> bool) \<Rightarrow> (boot_world, goerr, 'v \<times> nat) io" where
  "dial_verifier env url newCaller construct w =
     (case acquire env url w of
        (Inl e, w1) \<Rightarrow> (rbind (fst (construct (Inl e) (Inr ()))) (\<lambda>_. Inl e), w1)
      | (Inr client, w1) \<Rightarrow>
          (case construct (Inr ()) (newCaller client) of
             (res, kept) \<Rightarrow> (rbind res (\<lambda>v. Inr (v, client)), if kept then w1 else release client w1)))"

record 'v db_service =
  ds_verifier :: 'v
  ds_config :: PMWPaymentStatusConfig
  ds_db :: nat
  ds_cdb :: nat
  ds_client :: nat

text \<open>What \<open>NewPaymentService\<close> and \<open>NewFeeProofService\<close> do with a loaded configuration.\<close>

definition newDBService ::
  "'n service_lib \<Rightarrow> (nat \<Rightarrow> nat \<Rightarrow> unit result \<Rightarrow> unit result \<Rightarrow> 'v result \<times> bool) \<Rightarrow> PMWPaymentStatusConfig \<Rightarrow>
   (boot_world, goerr, 'v db_service) io" where
  "newDBService sv construct cfg w =
     (case map_error wrap1 (ConstructorForSource (enc_SourceID (pc_enc cfg))) of
        Inl e \<Rightarrow> (Inl e, w)
      | Inr _ \<Rightarrow>
     (case InitSourceDB (sv_env sv) (pc_SourceDatabaseURL cfg) None w of
        (Inl e, w1) \<Rightarrow> (Inl (wrap1 (init_goerr e)), w1)
      | (Inr dataBase, w1) \<Rightarrow>
     (case InitCChainDB (sv_env sv) (pc_CchainDatabaseURL cfg) None w1 of
        (Inl e, w2) \<Rightarrow> (Inl (wrap1 (init_goerr e)), snd (CloseDB (sv_env sv) (Some dataBase) w2))
      | (Inr cchainDB, w2) \<Rightarrow>
     (case dial_verifier (sv_env sv) (pc_FlareRPCURL cfg) (sv_NewTeePaymentsCaller sv (pc_TeePaymentsContractAddress cfg))
             (construct dataBase cchainDB) w2 of
        (Inl e, w3) \<Rightarrow>
          (Inl (wrap1 e), snd (CloseDB (sv_env sv) (Some cchainDB) (snd (CloseDB (sv_env sv) (Some dataBase) w3))))
      | (Inr (v, client), w3) \<Rightarrow>
          (Inr \<lparr>ds_verifier = v, ds_config = cfg, ds_db = dataBase, ds_cdb = cchainDB, ds_client = client\<rparr>, w3)))))"

definition NewPaymentService ::
  "'n service_lib \<Rightarrow> EnvConfig \<Rightarrow> (boot_world, goerr, (XRPVerifier \<times> Binder) db_service) io" where
  "NewPaymentService sv envConfig w =
     (case LoadPMWPaymentStatusConfig (sv_config sv) envConfig (bw_payment w) of
        (Inl e, loaded) \<Rightarrow> (Inl (wrap1 e), w\<lparr>bw_payment := loaded\<rparr>)
      | (Inr cfg, loaded) \<Rightarrow>
          newDBService sv (\<lambda>db cdb. NewXRPVerifier (sv_tee sv) cfg (sv_txs sv db) (sv_logs sv cdb)) cfg (w\<lparr>bw_payment := loaded\<rparr>))"

definition NewFeeProofService ::
  "'n service_lib \<Rightarrow> EnvConfig \<Rightarrow> (boot_world, goerr, (FeeProofVerifier \<times> Binder) db_service) io" where
  "NewFeeProofService sv envConfig w =
     (case LoadPMWFeeProofConfig (sv_config sv) envConfig (bw_fee w) of
        (Inl e, loaded) \<Rightarrow> (Inl (wrap1 e), w\<lparr>bw_fee := loaded\<rparr>)
      | (Inr cfg, loaded) \<Rightarrow>
          newDBService sv (\<lambda>db cdb. NewFeeProofVerifier (sv_tee sv) cfg (sv_txs sv db) (sv_logs sv cdb)) cfg (w\<lparr>bw_fee := loaded\<rparr>))"

text \<open>\<open>Close\<close> of both services: the two databases, then the verifier's connection.\<close>

definition db_service_Close :: "boot_env \<Rightarrow> nat \<Rightarrow> nat \<Rightarrow> nat \<Rightarrow> boot_world \<Rightarrow> goerr option \<times> boot_world" where
  "db_service_Close env db cdb client w =
     (case CloseDB env (Some db) w of (e1, w1) \<Rightarrow>
     (case CloseDB env (Some cdb) w1 of (e2, w2) \<Rightarrow>
        (let errs = (case e1 of Some e \<Rightarrow> [e] | None \<Rightarrow> []) @ (case e2 of Some e \<Rightarrow> [e] | None \<Rightarrow> [])
         in (if errs = [] then None else Some (wrap1 (Wrap errs)), release client w2))))"

section \<open>Multisig and availability check\<close>

text \<open>The multisig verifier pins the network while it is built; the state it keeps is the second component.\<close>

definition NewMultisigService ::
  "'n service_lib \<Rightarrow> EnvConfig \<Rightarrow> (boot_world, goerr, PMWMultisigAccountConfig \<times> 'n ms_state) io" where
  "NewMultisigService sv envConfig w =
     (case LoadPMWMultisigAccountConfiguredConfig (sv_config sv) envConfig (bw_multisig w) of
        (Inl e, loaded) \<Rightarrow> (Inl (wrap1 e), w\<lparr>bw_multisig := loaded\<rparr>)
      | (Inr cfg, loaded) \<Rightarrow>
          (case ConstructorForSource (enc_SourceID (mc_enc cfg)) of
             Inl e \<Rightarrow> (Inl (wrap1 e), w\<lparr>bw_multisig := loaded\<rparr>)
           | Inr _ \<Rightarrow>
               (case VerifyNetwork (sv_node sv) cfg \<lparr>ms_lastVerifiedNano = 0, ms_world = sv_node0 sv\<rparr> of
                  (Inl e, _) \<Rightarrow> (Inl (wrap1 e), w\<lparr>bw_multisig := loaded\<rparr>)
                | (Inr _, st) \<Rightarrow> (Inr (cfg, st), w\<lparr>bw_multisig := loaded\<rparr>))))"

definition NewTeeAvailabilityService ::
  "'n service_lib \<Rightarrow> EnvConfig \<Rightarrow> (boot_world, goerr, (nat, boot_world) TeeVerifier \<times> TeeAvailabilityCheckConfig) io" where
  "NewTeeAvailabilityService sv envConfig w =
     (case LoadTeeAvailabilityCheckConfig (sv_config sv) envConfig (bw_tee w) of
        (Inl e, loaded) \<Rightarrow> (Inl (wrap1 e), w\<lparr>bw_tee := loaded\<rparr>)
      | (Inr cfg, loaded) \<Rightarrow>
          (case NewVerifier (sv_eth sv) (sv_crls sv) cfg (w\<lparr>bw_tee := loaded\<rparr>) of
             (Inl e, w1) \<Rightarrow> (Inl (wrap1 e), w1)
           | (Inr v, w1) \<Rightarrow> (Inr (v, cfg), w1)))"

section \<open>The loader\<close>

datatype closer = TeeCloser "(nat, boot_world) TeeVerifier" | ServiceCloser nat nat nat

fun Closer_Close :: "'n service_lib \<Rightarrow> closer \<Rightarrow> boot_world \<Rightarrow> boot_world" where
  "Closer_Close sv (TeeCloser v) w = cc_world (TeeVerifier_Close (sv_eth sv) v (NewCRLCache w))"
| "Closer_Close sv (ServiceCloser db cdb client) w = snd (db_service_Close (sv_env sv) db cdb client w)"

definition closeAll :: "'n service_lib \<Rightarrow> closer list \<Rightarrow> boot_world \<Rightarrow> boot_world" where
  "closeAll sv closers w = fold (Closer_Close sv) closers w"

text \<open>The closers of a type, and the operations registered for it.\<close>

definition registerVerifier ::
  "'n service_lib \<Rightarrow> EnvConfig \<Rightarrow> (boot_world, goerr, closer list \<times> (string \<times> string) list) io" where
  "registerVerifier sv envConfig =
     (case env_AttestationType envConfig of
        AvailabilityCheck \<Rightarrow>
          io_bind (NewTeeAvailabilityService sv envConfig) (\<lambda>(v, cfg).
          io_return ([TeeCloser v], registered_ops (sv_config sv) (tc_enc cfg)))
      | PMWPaymentStatus \<Rightarrow>
          io_bind (NewPaymentService sv envConfig) (\<lambda>s.
          io_return ([ServiceCloser (ds_db s) (ds_cdb s) (ds_client s)], registered_ops (sv_config sv) (pc_enc (ds_config s))))
      | PMWMultisigAccountConfigured \<Rightarrow>
          io_bind (NewMultisigService sv envConfig) (\<lambda>(cfg, _).
          io_return ([], registered_ops (sv_config sv) (mc_enc cfg)))
      | PMWFeeProof \<Rightarrow>
          io_bind (NewFeeProofService sv envConfig) (\<lambda>s.
          io_return ([ServiceCloser (ds_db s) (ds_cdb s) (ds_client s)], registered_ops (sv_config sv) (pc_enc (ds_config s))))
      | OtherAttestationType _ \<Rightarrow> io_lift (Inl Plain))"

primrec load_loop ::
  "'n service_lib \<Rightarrow> EnvConfig \<Rightarrow> attestation_type list \<Rightarrow> closer list \<Rightarrow> (string \<times> string) list \<Rightarrow>
   (boot_world, goerr, closer list \<times> (string \<times> string) list) io" where
  "load_loop sv envConfig [] closers ops = io_return (closers, ops)"
| "load_loop sv envConfig (t # types) closers ops = (\<lambda>w.
     case registerVerifier sv (envConfig\<lparr>env_AttestationType := t\<rparr>) w of
       (Inl e, w') \<Rightarrow> (Inl e, closeAll sv closers w')
     | (Inr (c, o'), w') \<Rightarrow> load_loop sv envConfig types (closers @ c) (ops @ o') w')"

definition LoadModule ::
  "'n service_lib \<Rightarrow> EnvConfig \<Rightarrow> (boot_world, goerr, closer list \<times> (string \<times> string) list) io" where
  "LoadModule sv envConfig =
     io_bind (io_lift (SourceURLSlug (env_SourceID envConfig) (env_SourceURLSlug envConfig))) (\<lambda>sourceSlug.
     load_loop sv envConfig (ServedAttestationTypes envConfig) []
       [fst (RegisterHealthHandler (DeploymentPrefix sourceSlug (env_DestinationChainURLSlug envConfig)))])"


section \<open>Ownership of resources\<close>

text \<open>An operation that acquires exactly what its result owns, and nothing when it fails.\<close>

definition owns :: "('a res_world_scheme, 'e, 'b) io \<Rightarrow> ('b \<Rightarrow> nat multiset) \<Rightarrow> bool" where
  "owns m own \<longleftrightarrow> (\<forall>w. case m w of
      (Inl e, w') \<Rightarrow> mset (rw_open w') = mset (rw_open w)
    | (Inr x, w') \<Rightarrow> mset (rw_open w') = mset (rw_open w) + own x)"

lemma ownsD:
  "owns m own \<Longrightarrow> m w = (Inl e, w') \<Longrightarrow> mset (rw_open w') = mset (rw_open w)"
  "owns m own \<Longrightarrow> m w = (Inr x, w') \<Longrightarrow> mset (rw_open w') = mset (rw_open w) + own x"
  unfolding owns_def by (drule spec [of _ w], simp)+

lemma ownsI:
  assumes "\<And>w e w'. m w = (Inl e, w') \<Longrightarrow> mset (rw_open w') = mset (rw_open w)"
    and "\<And>w x w'. m w = (Inr x, w') \<Longrightarrow> mset (rw_open w') = mset (rw_open w) + own x"
  shows "owns m own"
  using assms by (auto simp: owns_def split: prod.splits sum.splits)

lemma owns_then_return:
  assumes "owns m own" and "\<And>x. own' (f x) = own x"
  shows "owns (io_bind m (\<lambda>x. io_return (f x))) own'"
  using ownsD [OF assms(1)] assms(2) by (intro ownsI) (auto simp: io_simps)

lemma owns_fail: "owns (io_lift (Inl e)) own"
  by (rule ownsI) auto

lemma release_open [simp]: "mset (rw_open (release r w)) = mset (rw_open w) - {#r#}"
  by (simp add: release_def)

lemma CloseDB_open:
  assumes "pools_ok env"
  shows "mset (rw_open (snd (CloseDB env (Some db) w))) = mset (rw_open w) - {#db#}"
  using assms by (simp add: CloseDB_def pools_ok_def)

lemma acquire_owns: "owns (acquire env t) (\<lambda>r. {#r#})"
  by (rule ownsI) (auto dest: acquire_open)

lemma init_owns:
  assumes "pools_ok env"
  shows "owns (initDBWithRetries env dsn opts) (\<lambda>db. {#db#})"
  unfolding initDBWithRetries_def
  by (rule ownsI) (simp_all add: init_loop_open(2) [OF _ refl assms] init_loop_open(1) [OF _ refl])

lemma open_owns:
  assumes "pools_ok env"
  shows "owns (InitSourceDB env dsn o1) (\<lambda>db. {#db#})" and "owns (InitCChainDB env dsn o1) (\<lambda>db. {#db#})"
  unfolding InitSourceDB_def InitCChainDB_def by (rule init_owns [OF assms])+

text \<open>A constructor that keeps the connection exactly when it succeeds.\<close>

definition honest :: "(unit result \<Rightarrow> unit result \<Rightarrow> 'v result \<times> bool) \<Rightarrow> bool" where
  "honest construct \<longleftrightarrow> (\<forall>d c. snd (construct d c) \<longleftrightarrow> is_ok (fst (construct d c))) \<and>
     (\<forall>e c. \<not> is_ok (fst (construct (Inl e) c)))"

lemma binder_honest:
  "honest (NewXRPVerifier lib cfg txs logs)" "honest (NewFeeProofVerifier lib cfg txs logs)"
  by (auto simp: honest_def NewXRPVerifier_def NewFeeProofVerifier_def NewOnChainBinder_def is_ok_iff split: sum.splits)

lemma dial_owns:
  assumes "honest construct"
  shows "owns (dial_verifier env url newCaller construct) (\<lambda>(v, client). {#client#})"
proof (rule ownsI)
  fix w e w'
  assume d: "dial_verifier env url newCaller construct w = (Inl e, w')"
  obtain q w1 where q: "acquire env url w = (q, w1)" by fastforce
  show "mset (rw_open w') = mset (rw_open w)"
  proof (cases q)
    case (Inl f)
    with d q ownsD(1) [OF acquire_owns] show ?thesis by (auto simp: dial_verifier_def)
  next
    case (Inr client)
    obtain res kept where c: "construct (Inr ()) (newCaller client) = (res, kept)" by fastforce
    with d q Inr obtain f where "res = Inl f" by (cases res) (auto simp: dial_verifier_def)
    with assms c have "\<not> kept" unfolding honest_def by (metis fst_conv snd_conv is_ok_simps(2))
    have "mset (rw_open w1) = mset (rw_open w) + {#client#}" using ownsD(2) [OF acquire_owns] q Inr by simp
    with d q Inr c \<open>\<not> kept\<close> show ?thesis by (auto simp: dial_verifier_def)
  qed
next
  fix w x w'
  assume d: "dial_verifier env url newCaller construct w = (Inr x, w')"
  obtain q w1 where q: "acquire env url w = (q, w1)" by fastforce
  with d obtain client where Inr: "q = Inr client" by (cases q) (auto simp: dial_verifier_def result_simps)
  obtain res kept where c: "construct (Inr ()) (newCaller client) = (res, kept)" by fastforce
  with d q Inr obtain v where v: "res = Inr v" "x = (v, client)" by (cases res) (auto simp: dial_verifier_def)
  with assms c have "kept" unfolding honest_def by (metis fst_conv snd_conv is_ok_simps(1))
  with d q Inr c v ownsD(2) [OF acquire_owns] show "mset (rw_open w') = mset (rw_open w) + (case x of (v, client) \<Rightarrow> {#client#})"
    by (auto simp: dial_verifier_def)
qed


lemma db_service_owns:
  assumes "pools_ok (sv_env sv)" and "\<And>db cdb. honest (construct db cdb)"
  shows "owns (newDBService sv construct cfg) (\<lambda>s. {#ds_db s, ds_cdb s, ds_client s#})"
proof -
  note src = ownsD [OF open_owns(1) [OF assms(1)]] and cch = ownsD [OF open_owns(2) [OF assms(1)]]
  note dial = ownsD [OF dial_owns [OF assms(2)]] and cl = CloseDB_open [OF assms(1)]
  let ?dial = "\<lambda>db cdb. dial_verifier (sv_env sv) (pc_FlareRPCURL cfg) (sv_NewTeePaymentsCaller sv (pc_TeePaymentsContractAddress cfg))
    (construct db cdb)"
  have "case newDBService sv construct cfg w of
      (Inl e, w') \<Rightarrow> mset (rw_open w') = mset (rw_open w)
    | (Inr s, w') \<Rightarrow> mset (rw_open w') = mset (rw_open w) + {#ds_db s, ds_cdb s, ds_client s#}" for w
  proof (cases "ConstructorForSource (enc_SourceID (pc_enc cfg))")
    case c: (Inr u)
    obtain r1 w1 where 1: "InitSourceDB (sv_env sv) (pc_SourceDatabaseURL cfg) None w = (r1, w1)" by fastforce
    show ?thesis
    proof (cases r1)
      case (Inl e)
      with c 1 src(1) show ?thesis by (simp add: newDBService_def)
    next
      case db: (Inr db)
      with 1 src(2) have m1: "mset (rw_open w1) = mset (rw_open w) + {#db#}" by blast
      obtain r2 w2 where 2: "InitCChainDB (sv_env sv) (pc_CchainDatabaseURL cfg) None w1 = (r2, w2)" by fastforce
      show ?thesis
      proof (cases r2)
        case (Inl e)
        with 2 cch(1) have "mset (rw_open w2) = mset (rw_open w1)" by blast
        with c 1 2 db Inl m1 show ?thesis by (simp add: newDBService_def cl)
      next
        case cdb: (Inr cdb)
        with 2 cch(2) have "mset (rw_open w2) = mset (rw_open w1) + {#cdb#}" by blast
        with m1 have m2: "mset (rw_open w2) = mset (rw_open w) + {#db, cdb#}" by (simp add: add_mset_commute)
        obtain r3 w3 where 3: "?dial db cdb w2 = (r3, w3)" by fastforce
        show ?thesis
        proof (cases r3)
          case (Inl e)
          with 3 dial(1) have "mset (rw_open w3) = mset (rw_open w2)" by blast
          with c 1 2 3 db cdb Inl m2 show ?thesis by (simp add: newDBService_def cl)
        next
          case (Inr x)
          obtain v client where x: "x = (v, client)" by (cases x)
          from 3 Inr x dial(2) have "mset (rw_open w3) = mset (rw_open w2) + {#client#}" by fastforce
          with c 1 2 3 db cdb Inr x m2 show ?thesis by (simp add: newDBService_def add_mset_commute)
        qed
      qed
    qed
  qed (simp add: newDBService_def)
  then show ?thesis by (simp add: owns_def)
qed

lemma owns_after_load:
  assumes "\<And>cfg. owns (m cfg) own" and "\<And>w x. rw_open (upd x w) = rw_open w"
    and "\<And>w. op w = (case load w of (Inl e, x) \<Rightarrow> (Inl (g e), upd x w) | (Inr cfg, x) \<Rightarrow> m cfg (upd x w))"
  shows "owns op own"
proof (rule ownsI)
  fix w e w' assume o: "op w = (Inl e, w')"
  obtain r x where l: "load w = (r, x)" by fastforce
  show "mset (rw_open w') = mset (rw_open w)"
  proof (cases r)
    case (Inr cfg)
    with o l assms(3) have "m cfg (upd x w) = (Inl e, w')" by simp
    from ownsD(1) [OF assms(1) this] show ?thesis by (simp add: assms(2))
  next
    case (Inl a)
    with o l assms(3) [of w] have "w' = upd x w" by simp
    then show ?thesis by (simp add: assms(2))
  qed
next
  fix w y w' assume o: "op w = (Inr y, w')"
  obtain r x where l: "load w = (r, x)" by fastforce
  show "mset (rw_open w') = mset (rw_open w) + own y"
  proof (cases r)
    case (Inr cfg)
    with o l assms(3) have "m cfg (upd x w) = (Inr y, w')" by simp
    from ownsD(2) [OF assms(1) this] show ?thesis by (simp add: assms(2))
  qed (use o l assms(2,3) in simp)
qed

lemma payment_service_owns:
  assumes "pools_ok (sv_env sv)"
  shows "owns (NewPaymentService sv envConfig) (\<lambda>s. {#ds_db s, ds_cdb s, ds_client s#})"
  by (rule owns_after_load [where upd = "\<lambda>x w. w\<lparr>bw_payment := x\<rparr>",
        OF db_service_owns [OF assms binder_honest(1)] _ NewPaymentService_def]) simp

lemma fee_service_owns:
  assumes "pools_ok (sv_env sv)"
  shows "owns (NewFeeProofService sv envConfig) (\<lambda>s. {#ds_db s, ds_cdb s, ds_client s#})"
  by (rule owns_after_load [where upd = "\<lambda>x w. w\<lparr>bw_fee := x\<rparr>",
        OF db_service_owns [OF assms binder_honest(2)] _ NewFeeProofService_def]) simp

lemma multisig_service_owns: "owns (NewMultisigService sv envConfig) (\<lambda>_. {#})"
  by (rule ownsI) (auto simp: NewMultisigService_def split: prod.splits sum.splits)

fun tee_owned :: "(nat, 'w) TeeVerifier \<Rightarrow> nat multiset" where
  "tee_owned v = (case tv_EthClient v of Some client \<Rightarrow> {#client#} | None \<Rightarrow> {#})"

lemma new_verifier_owns: "owns (NewVerifier (sv_eth sv) crls cfg) tee_owned"
proof -
  have "case NewVerifier (sv_eth sv) crls cfg w of
      (Inl e, w') \<Rightarrow> mset (rw_open w') = mset (rw_open w)
    | (Inr v, w') \<Rightarrow> mset (rw_open w') = mset (rw_open w) + tee_owned v" for w
  proof -
    obtain r w1 where a: "acquire (sv_env sv) (tc_FlareRPCURL cfg) w = (r, w1)" by fastforce
    show ?thesis
    proof (cases r)
      case (Inl e)
      with a ownsD(1) [OF acquire_owns] show ?thesis
        by (simp add: NewVerifier_def io_bind_def io_map_error_def sv_eth_def)
    next
      case (Inr client)
      with a have m: "mset (rw_open w1) = mset (rw_open w) + {#client#}" using ownsD(2) [OF acquire_owns] by blast
      show ?thesis
        using a Inr m
        by (cases "sv_NewRelayCaller sv (tc_RelayContractAddress cfg) client";
            cases "sv_NewRelayCaller sv (tc_RelayCutoverContractAddress cfg) client")
           (simp_all add: NewVerifier_def io_bind_def io_map_error_def sv_eth_def)
    qed
  qed
  then show ?thesis by (simp add: owns_def)
qed

lemma tee_service_owns: "owns (NewTeeAvailabilityService sv envConfig) (\<lambda>(v, cfg). tee_owned v)"
  using ownsD [OF new_verifier_owns, of sv "sv_crls sv"]
  by (intro ownsI) (auto simp: NewTeeAvailabilityService_def split: prod.splits sum.splits)

section \<open>Starting and stopping\<close>

text \<open>
  What a started service promises its owner, in a \<open>healthy\<close> environment: a failed start holds nothing, and stopping the service, at any later
  time, gives back exactly what it holds.
\<close>

locale resource_owner =
  fixes healthy :: bool
    and start :: "(boot_world, 'e, 'b) io"
    and held :: "'b \<Rightarrow> nat multiset"
    and stop :: "'b \<Rightarrow> boot_world \<Rightarrow> boot_world"
  assumes start_owns: "healthy \<Longrightarrow> owns start held"
    and stop_releases: "healthy \<Longrightarrow> mset (rw_open (stop x w)) = mset (rw_open w) - held x"
begin

lemma failed_start: "healthy \<Longrightarrow> start w = (Inl e, w') \<Longrightarrow> mset (rw_open w') = mset (rw_open w)"
  by (rule ownsD(1) [OF start_owns])

lemma stop_after:
  assumes "healthy" and "start w = (Inr x, w')" and "mset (rw_open u) = mset (rw_open w')"
  shows "mset (rw_open (stop x u)) = mset (rw_open w)"
  using ownsD(2) [OF start_owns [OF assms(1)] assms(2)] assms(3) by (simp add: stop_releases [OF assms(1)])

lemma start_stop:
  assumes "healthy"
  shows "case start w of
     (Inl e, w') \<Rightarrow> mset (rw_open w') = mset (rw_open w)
   | (Inr x, w') \<Rightarrow> mset (rw_open (stop x w')) = mset (rw_open w)"
  by (auto dest: failed_start [OF assms] stop_after [OF assms] split: prod.splits sum.splits)

end

section \<open>Closing\<close>

fun owned :: "closer \<Rightarrow> nat multiset" where
  "owned (TeeCloser v) = tee_owned v"
| "owned (ServiceCloser db cdb client) = {#db, cdb, client#}"

lemma closer_releases:
  assumes "pools_ok (sv_env sv)"
  shows "mset (rw_open (Closer_Close sv c w)) = mset (rw_open w) - owned c"
proof (cases c)
  case (TeeCloser v)
  then show ?thesis
    by (auto simp: TeeVerifier_Close_def NewCRLCache_def CRLCache_Close_def sv_eth_def Let_def split: option.splits)
next
  case (ServiceCloser db cdb client)
  obtain e1 w1 e2 w2 where c: "CloseDB (sv_env sv) (Some db) w = (e1, w1)" "CloseDB (sv_env sv) (Some cdb) w1 = (e2, w2)"
    by (metis prod.exhaust)
  with CloseDB_open [OF assms, of db w] CloseDB_open [OF assms, of cdb w1]
  have "mset (rw_open w2) = mset (rw_open w) - {#db#} - {#cdb#}" by simp
  moreover have "M - {#a#} - {#b#} - {#d#} = M - {#a, b, d#}" for M and a b d :: nat
    by (rule multiset_eqI) simp
  ultimately show ?thesis using c ServiceCloser by (simp add: db_service_Close_def Let_def)
qed


lemma closeAll_releases:
  assumes "pools_ok (sv_env sv)"
  shows "mset (rw_open (closeAll sv cs w)) = mset (rw_open w) - (\<Sum>c \<leftarrow> cs. owned c)"
proof (induction cs arbitrary: w)
  case (Cons c cs)
  then show ?case using closer_releases [OF assms, of c w] by (simp add: closeAll_def)
qed (simp add: closeAll_def)

lemma register_owns:
  assumes "pools_ok (sv_env sv)"
  shows "owns (registerVerifier sv envConfig) (\<lambda>(cs, ops). \<Sum>c \<leftarrow> cs. owned c)"
proof (cases "env_AttestationType envConfig")
  case AvailabilityCheck
  have "owns (io_bind (NewTeeAvailabilityService sv envConfig)
      (\<lambda>x. io_return ([TeeCloser (fst x)], registered_ops (sv_config sv) (tc_enc (snd x)))))
    (\<lambda>(cs, ops). \<Sum>c \<leftarrow> cs. owned c)"
    by (rule owns_then_return [OF tee_service_owns]) auto
  with AvailabilityCheck show ?thesis by (simp add: registerVerifier_def case_prod_beta')
next
  case PMWPaymentStatus
  then show ?thesis by (simp add: registerVerifier_def owns_then_return [OF payment_service_owns [OF assms]])
next
  case PMWFeeProof
  then show ?thesis by (simp add: registerVerifier_def owns_then_return [OF fee_service_owns [OF assms]])
next
  case PMWMultisigAccountConfigured
  have "owns (io_bind (NewMultisigService sv envConfig)
      (\<lambda>x. io_return ([], registered_ops (sv_config sv) (mc_enc (fst x)))))
    (\<lambda>(cs, ops). \<Sum>c \<leftarrow> cs. owned c)"
    by (rule owns_then_return [OF multisig_service_owns]) auto
  with PMWMultisigAccountConfigured show ?thesis by (simp add: registerVerifier_def case_prod_beta')
qed (simp add: registerVerifier_def owns_fail)

text \<open>The services behind the loader keep this promise, each with its own way of stopping.\<close>

interpretation tee_service: resource_owner "pools_ok (sv_env sv)" "NewTeeAvailabilityService sv envConfig" "\<lambda>(v, cfg). tee_owned v"
  "\<lambda>(v, cfg). Closer_Close sv (TeeCloser v)"
  for sv :: "'n service_lib" and envConfig
  by unfold_locales (auto simp: tee_service_owns closer_releases simp del: Closer_Close.simps tee_owned.simps)

interpretation payment_service: resource_owner "pools_ok (sv_env sv)" "NewPaymentService sv envConfig" "\<lambda>s. {#ds_db s, ds_cdb s, ds_client s#}"
  "\<lambda>s. Closer_Close sv (ServiceCloser (ds_db s) (ds_cdb s) (ds_client s))"
  for sv :: "'n service_lib" and envConfig
  by unfold_locales (simp_all add: payment_service_owns closer_releases del: Closer_Close.simps)

interpretation fee_service: resource_owner "pools_ok (sv_env sv)" "NewFeeProofService sv envConfig" "\<lambda>s. {#ds_db s, ds_cdb s, ds_client s#}"
  "\<lambda>s. Closer_Close sv (ServiceCloser (ds_db s) (ds_cdb s) (ds_client s))"
  for sv :: "'n service_lib" and envConfig
  by unfold_locales (simp_all add: fee_service_owns closer_releases del: Closer_Close.simps)

lemma load_loop_owns:
  assumes "pools_ok (sv_env sv)" and "load_loop sv envConfig types cs ops w = (r, w')"
    and "mset (rw_open w) = base + (\<Sum>c \<leftarrow> cs. owned c)"
  shows "case r of Inl e \<Rightarrow> mset (rw_open w') = base | Inr (cs', ops') \<Rightarrow> mset (rw_open w') = base + (\<Sum>c \<leftarrow> cs'. owned c)"
  using assms(2,3)
proof (induction types arbitrary: cs ops w)
  case (Cons t types)
  obtain q w1 where q: "registerVerifier sv (envConfig\<lparr>env_AttestationType := t\<rparr>) w = (q, w1)" by fastforce
  note own = ownsD [OF register_owns [OF assms(1)]]
  show ?case
  proof (cases q)
    case (Inl e)
    with q own(1) have "mset (rw_open w1) = mset (rw_open w)" by blast
    with Inl q Cons.prems show ?thesis by (auto simp: closeAll_releases [OF assms(1)])
  next
    case (Inr x)
    obtain c o' where x: "x = (c, o')" by (cases x)
    from own(2) q Inr x have "mset (rw_open w1) = mset (rw_open w) + (\<Sum>y \<leftarrow> c. owned y)" by fastforce
    with Cons.prems(2) have "mset (rw_open w1) = base + (\<Sum>y \<leftarrow> cs @ c. owned y)" by simp
    with Cons.IH [OF _ this, of "ops @ o'"] Cons.prems(1) q Inr x show ?thesis by simp
  qed
qed auto

lemma LoadModule_owns:
  assumes "pools_ok (sv_env sv)"
  shows "owns (LoadModule sv envConfig) (\<lambda>(cs, ops). \<Sum>c \<leftarrow> cs. owned c)"
proof (cases "SourceURLSlug (env_SourceID envConfig) (env_SourceURLSlug envConfig)")
  case (Inl e)
  then show ?thesis by (simp add: LoadModule_def owns_def)
next
  case (Inr slug)
  let ?h = "[fst (RegisterHealthHandler (DeploymentPrefix slug (env_DestinationChainURLSlug envConfig)))]"
  have "LoadModule sv envConfig w = load_loop sv envConfig (ServedAttestationTypes envConfig) [] ?h w" for w
    by (simp add: LoadModule_def Inr)
  with load_loop_owns [OF assms, of envConfig "ServedAttestationTypes envConfig" "[]" ?h] show ?thesis
    by (intro ownsI) (fastforce split: prod.splits sum.splits)+
qed

interpretation module: resource_owner "pools_ok (sv_env sv)" "LoadModule sv envConfig" "\<lambda>(cs, ops). \<Sum>c \<leftarrow> cs. owned c" "\<lambda>(cs, ops). closeAll sv cs"
  for sv :: "'n service_lib" and envConfig
  by unfold_locales (auto simp: LoadModule_owns closeAll_releases)

text \<open>
  C37. Loading a deployment leaks nothing: when any service fails to start, every database handle and connection opened so far is closed again, and when
  all start, closing the returned services releases exactly what was opened. This needs that the pool of an opened handle can be
  configured; otherwise that handle stays open.
\<close>

theorem load_module_no_leak:
  assumes "pools_ok (sv_env sv)"
  shows "case LoadModule sv envConfig w of
      (Inl e, w') \<Rightarrow> mset (rw_open w') = mset (rw_open w)
    | (Inr (closers, ops), w') \<Rightarrow> mset (rw_open (closeAll sv closers w')) = mset (rw_open w)"
  using module.start_stop [OF assms, of w envConfig] by (auto split: prod.splits sum.splits)

section \<open>A sample start\<close>

text \<open>
  An XRP deployment whose payment-status service starts, taking both databases and a connection, before the fee-proof service
  turns out to be misconfigured.
\<close>

definition sample_service_lib :: "nat service_lib" where
  "sample_service_lib =
     \<lparr>sv_config = sample_config_lib, sv_tee = sample_tee,
      sv_env = \<lparr>be_result = (\<lambda>_ _. None), be_pool = (\<lambda>_. None), be_close = (\<lambda>_. None)\<rparr>,
      sv_txs = (\<lambda>_ _. Inr []), sv_logs = (\<lambda>_ _. Inr []), sv_NewTeePaymentsCaller = (\<lambda>_ _. Inr ()),
      sv_NewRelayCaller = (\<lambda>_ _. Inl Plain), sv_crls = (\<lambda>_ _ w. (Inl Plain, w)), sv_node = sample_node, sv_node0 = 0\<rparr>"

definition sample_boot_env :: EnvConfig where
  "sample_boot_env = sample_env_config\<lparr>env_SourceID := SourceXRP, env_AttestationTypes := [PMWPaymentStatus, PMWFeeProof]\<rparr>"

definition sample_boot_world :: boot_world where
  "sample_boot_world =
     \<lparr>rw_open = [], rw_clock = 0, rw_sleeps = [], bw_payment = Some (Inr sample_cfg), bw_fee = Some (Inl Plain),
      bw_multisig = None, bw_tee = None\<rparr>"

lemma sample_payment_starts:
  "\<exists>s. NewPaymentService sample_service_lib envConfig sample_boot_world =
     (Inr s, sample_boot_world\<lparr>rw_open := [2, 1, 0], rw_clock := 3\<rparr>)"
  by (simp add: NewPaymentService_def LoadPMWPaymentStatusConfig_def once_Do_def sample_boot_world_def newDBService_def
     ConstructorForSource_def verifier_registry_def SourceXRP_def sample_cfg_def InitSourceDB_def InitCChainDB_def
     initDBWithRetries_def sourceDBOptions_def cChainDBOptions_def numeral_eq_Suc acquire_def sample_service_lib_def configurePool_def
     dial_verifier_def NewXRPVerifier_def NewOnChainBinder_def)

lemma sample_fee_fails:
  "fst (NewFeeProofService sample_service_lib envConfig (sample_boot_world\<lparr>rw_open := o', rw_clock := c\<rparr>)) = Inl (wrap1 Plain)"
  by (simp add: NewFeeProofService_def LoadPMWFeeProofConfig_def once_Do_def sample_boot_world_def)

lemma sample_load: "fst (LoadModule sample_service_lib sample_boot_env sample_boot_world) = Inl (wrap1 Plain)"
proof -
  obtain s where s: "NewPaymentService sample_service_lib (sample_boot_env\<lparr>env_AttestationType := PMWPaymentStatus\<rparr>) sample_boot_world =
     (Inr s, sample_boot_world\<lparr>rw_open := [2, 1, 0], rw_clock := 3\<rparr>)" using sample_payment_starts by blast
  have slug: "SourceURLSlug (env_SourceID sample_boot_env) (env_SourceURLSlug sample_boot_env) = Inr (strings_ToLower SourceXRP)"
    by (simp add: sample_boot_env_def sample_env_config_def SourceURLSlug_def)
  obtain q w1 where f: "NewFeeProofService sample_service_lib (sample_boot_env\<lparr>env_AttestationType := PMWFeeProof\<rparr>)
      (sample_boot_world\<lparr>rw_open := [2, 1, 0], rw_clock := 3\<rparr>) = (q, w1)" by fastforce
  with sample_fee_fails have "q = Inl (wrap1 Plain)" by (metis fst_conv)
  moreover have "ServedAttestationTypes sample_boot_env = [PMWPaymentStatus, PMWFeeProof]"
    by (simp add: sample_boot_env_def ServedAttestationTypes_def)
  ultimately show ?thesis
    using s slug f by (simp add: LoadModule_def registerVerifier_def io_bind_def)
qed

theorem load_module_no_leak_witness:
  "fst (LoadModule sample_service_lib sample_boot_env sample_boot_world) = Inl (wrap1 Plain) \<and>
   rw_open (snd (LoadModule sample_service_lib sample_boot_env sample_boot_world)) = []"
proof -
  have "pools_ok (sv_env sample_service_lib)" by (simp add: pools_ok_def sample_service_lib_def)
  from load_module_no_leak [OF this, of sample_boot_world sample_boot_env] sample_load show ?thesis
    by (cases "LoadModule sample_service_lib sample_boot_env sample_boot_world") (simp add: sample_boot_world_def)
qed

end
