(* ===== verification/Swagger_Docs.thy ===== *)
theory Swagger_Docs
  imports Config
begin

text \<open>
  The API documentation page: \<open>internal/api/docs/docs.go\<close>, the routes that \<open>newRouter\<close> in
  \<open>internal/api/server.go\<close> mounts for it, and the script \<open>swagger-ui/init-swagger.js\<close> that the
  page runs. The page refers to its assets and to the OpenAPI document by relative references, which
  the browser resolves against the address of the page (RFC 3986, section 5.2).

  The Swagger UI library itself (\<open>swagger-ui-bundle.js\<close>, a vendored bundle) is a parameter: the
  value \<open>SwaggerUIBundle\<close> applied to an options object. The contents of the embedded files are a map
  from names to bytes.
\<close>

section \<open>init-swagger.js\<close>

record swagger_options =
  opt_url :: string
  opt_dom_id :: string

text \<open>
  The properties of the global object \<open>window\<close> that the script writes: the load handler, which
  is the one arrow function of the script or absent, and \<open>ui\<close>.
\<close>

datatype load_handler = InitSwagger

record 'u window =
  win_onload :: "load_handler option"
  win_ui :: "'u option"

definition swaggerOptions :: swagger_options where
  "swaggerOptions = \<lparr>opt_url = ''../openapi.json'', opt_dom_id = ''#swagger-ui''\<rparr>"

fun call_handler :: "(swagger_options \<Rightarrow> 'u) \<Rightarrow> load_handler \<Rightarrow> 'u window \<Rightarrow> 'u window" where
  "call_handler SwaggerUIBundle InitSwagger w = w\<lparr>win_ui := Some (SwaggerUIBundle swaggerOptions)\<rparr>"

definition init_swagger :: "'u window \<Rightarrow> 'u window" where
  "init_swagger w = w\<lparr>win_onload := Some InitSwagger\<rparr>"

text \<open>The load event calls the handler that is installed when the event fires.\<close>

definition fire_load :: "(swagger_options \<Rightarrow> 'u) \<Rightarrow> 'u window \<Rightarrow> 'u window" where
  "fire_load SwaggerUIBundle w =
     (case win_onload w of None \<Rightarrow> w | Some h \<Rightarrow> call_handler SwaggerUIBundle h w)"

section \<open>Paths and relative references\<close>

text \<open>Dot-segment removal; a final dot segment leaves a trailing slash.\<close>

fun remove_dots :: "string list \<Rightarrow> string list \<Rightarrow> string list" where
  "remove_dots acc [] = rev acc"
| "remove_dots acc [s] =
     (if s = ''.'' then rev ([] # acc) else if s = ''..'' then rev ([] # tl acc) else rev (s # acc))"
| "remove_dots acc (s # ss) =
     (if s = ''.'' then remove_dots acc ss
      else if s = ''..'' then remove_dots (tl acc) ss
      else remove_dots (s # acc) ss)"

text \<open>A reference without scheme, authority or leading slash, against an absolute path.\<close>

definition resolve_ref :: "string \<Rightarrow> string \<Rightarrow> string" where
  "resolve_ref base ref =
     ''/'' @ strings_Join
       (remove_dots [] (butlast (tl (strings_Split CHR ''/'' base)) @ strings_Split CHR ''/'' ref)) ''/''"

section \<open>docs.go and the documentation routes\<close>

datatype http_reply =
    Page bytes                 \<comment> \<open>200 with the index page, its content type and security policy\<close>
  | Asset bytes                \<comment> \<open>200 from the file server\<close>
  | MovedPermanently string
  | NotFound404

text \<open>The files under \<open>swagger-ui/\<close> that the \<open>go:embed\<close> directive takes in, all in one directory.\<close>

definition swagger_names :: "string list" where
  "swagger_names = [''favicon.ico'', ''index.html'', ''init-swagger.js'', ''swagger-ui-bundle.js'', ''swagger-ui.css'']"

text \<open>
  \<open>http.FileServer(http.FS(subFS))\<close> on a flat directory, for a request path that lost its
  prefix: a path ending in \<open>/index.html\<close> is redirected to its directory, the root shows the index
  page, a file name is served, with a redirect when it is followed by a slash, anything else is
  missing. \<open>fs.Sub\<close> fails for an invalid directory name only, and \<open>swagger-ui\<close> is a valid one.
\<close>

definition path_Clean :: "string \<Rightarrow> string list" where
  "path_Clean p = filter (\<lambda>s. s \<noteq> []) (remove_dots [] (filter (\<lambda>s. s \<noteq> []) (strings_Split CHR ''/'' p)))"

definition path_Base :: "string \<Rightarrow> string" where
  "path_Base p = last (filter (\<lambda>s. s \<noteq> []) (strings_Split CHR ''/'' p))"

definition FileServer :: "(string \<rightharpoonup> bytes) \<Rightarrow> string \<Rightarrow> http_reply" where
  "FileServer files p =
     (let upath = (if strings_HasPrefix p ''/'' then p else ''/'' @ p)
      in if strings_HasSuffix upath ''/index.html'' then MovedPermanently ''./''
         else case path_Clean upath of
           [] \<Rightarrow> if strings_HasSuffix upath ''/''
                  then (case files ''index.html'' of None \<Rightarrow> NotFound404 | Some data \<Rightarrow> Asset data)
                  else MovedPermanently (path_Base upath @ ''/'')
         | [name] \<Rightarrow>
             (case files name of
                None \<Rightarrow> NotFound404
              | Some data \<Rightarrow>
                  if strings_HasSuffix upath ''/'' then MovedPermanently (''../'' @ path_Base upath) else Asset data)
         | _ \<Rightarrow> NotFound404)"

definition StripPrefix :: "string \<Rightarrow> (string \<Rightarrow> http_reply) \<Rightarrow> string \<Rightarrow> http_reply" where
  "StripPrefix pre h path =
     (if strings_HasPrefix path pre then h (drop (length pre) path) else NotFound404)"

definition SwaggerHandler :: "(string \<rightharpoonup> bytes) \<Rightarrow> string \<Rightarrow> string \<Rightarrow> http_reply" where
  "SwaggerHandler subFS basePath path =
     (if path = basePath \<or> path = basePath @ ''index.html''
      then (case subFS ''index.html'' of None \<Rightarrow> NotFound404 | Some data \<Rightarrow> Page data)
      else StripPrefix basePath (FileServer subFS) path)"

definition docsPath :: "string \<Rightarrow> string" where
  "docsPath deploymentPrefix = deploymentPrefix @ ''/api-doc''"

text \<open>The two GET routes of \<open>newRouter\<close>; \<open>None\<close> for a path that neither matches.\<close>

definition docs_route :: "(string \<rightharpoonup> bytes) \<Rightarrow> string \<Rightarrow> string \<Rightarrow> http_reply option" where
  "docs_route subFS deploymentPrefix path =
     (if path = docsPath deploymentPrefix then Some (MovedPermanently (docsPath deploymentPrefix @ ''/''))
      else if strings_HasPrefix path (docsPath deploymentPrefix @ ''/'')
      then Some (SwaggerHandler subFS (docsPath deploymentPrefix @ ''/'') path)
      else None)"

text \<open>Where \<open>newAPI\<close> puts the OpenAPI document; the JSON form has the suffix \<open>.json\<close>.\<close>

definition OpenAPIPath :: "string \<Rightarrow> string" where
  "OpenAPIPath deploymentPrefix = deploymentPrefix @ ''/openapi''"

section \<open>Lemmas\<close>

lemma Split_no_sep: "c \<notin> set a \<Longrightarrow> strings_Split c a = [a]"
  by (induction a) auto

lemma Split_append: "c \<notin> set a \<Longrightarrow> strings_Split c (a @ c # b) = a # strings_Split c b"
  by (induction a) auto

lemma slug_no_dot: "urlSlugPattern s \<Longrightarrow> CHR ''.'' \<notin> set s"
  using urlSlug_chars [of s "CHR ''.''"] by (auto simp: is_slug_char_def is_lower_def digit_value_def)

text \<open>A segment that dot removal keeps.\<close>

definition plain_segment :: "string \<Rightarrow> bool" where
  "plain_segment s \<longleftrightarrow> s \<noteq> [] \<and> CHR ''/'' \<notin> set s \<and> CHR ''.'' \<notin> set s"

lemma slug_plain: "urlSlugPattern s \<Longrightarrow> plain_segment s"
  using slug_no_slash slug_no_dot by (auto simp: plain_segment_def urlSlugPattern_def)

lemma docs_segments:
  assumes "plain_segment a" and "plain_segment b"
  shows "strings_Split CHR ''/'' (docsPath (DeploymentPrefix a b) @ ''/'') =
     ['''', ''verifier'', a, b, ''api-doc'', '''']"
proof -
  have "strings_Split CHR ''/'' (''/verifier/'' @ a @ CHR ''/'' # b @ CHR ''/'' # ''api-doc/'') =
     ['''', ''verifier'', a, b, ''api-doc'', '''']"
    using assms by (simp add: plain_segment_def Split_append)
  then show ?thesis by (simp add: docsPath_def DeploymentPrefix_def)
qed

lemma ref_from_docs:
  assumes "plain_segment a" and "plain_segment b"
  shows "resolve_ref (docsPath (DeploymentPrefix a b) @ ''/'') ref =
     ''/'' @ strings_Join (remove_dots [''api-doc'', b, a, ''verifier''] (strings_Split CHR ''/'' ref)) ''/''"
proof -
  have "a \<noteq> ''.'' \<and> a \<noteq> ''..'' \<and> b \<noteq> ''.'' \<and> b \<noteq> ''..''"
    using assms by (auto simp: plain_segment_def)
  moreover have "\<exists>s ss. strings_Split CHR ''/'' ref = s # ss"
    by (cases ref) (auto split: list.splits)
  ultimately show ?thesis
    unfolding resolve_ref_def docs_segments [OF assms] by auto
qed

lemma source_slugs:
  "strings_ToLower SourceTEE = ''tee''" "strings_ToLower SourceXRP = ''xrp''"
  "strings_ToLower SourceTestXRP = ''testxrp''"
  by (simp_all add: SourceTEE_def SourceXRP_def SourceTestXRP_def lower_char_def char_of_def bit_0)

lemma SourceURLSlug_plain:
  assumes "SourceURLSlug source override = Inr slug" and "source \<in> {SourceTEE, SourceXRP, SourceTestXRP}"
  shows "plain_segment slug"
proof (cases "override = ''''")
  case True
  then have "slug \<in> {''tee'', ''xrp'', ''testxrp''}"
    using assms by (auto simp: SourceURLSlug_def source_slugs)
  then show ?thesis by (auto simp: plain_segment_def)
next
  case False
  then show ?thesis
    using assms slug_plain [of slug] by (auto simp: SourceURLSlug_def split: if_splits)
qed

definition asset_names :: "string list" where
  "asset_names = [''favicon.ico'', ''init-swagger.js'', ''swagger-ui-bundle.js'', ''swagger-ui.css'']"

lemma FileServer_asset:
  assumes "name \<in> set asset_names" and "files name = Some data"
  shows "FileServer files name = Asset data"
  using assms
  by (auto simp: asset_names_def FileServer_def strings_HasPrefix_def strings_HasSuffix_def path_Clean_def)

lemma asset_no_slash: "name \<in> set asset_names \<Longrightarrow> strings_Split CHR ''/'' name = [name] \<and> name \<noteq> ''.'' \<and> name \<noteq> ''..''"
  by (auto simp: asset_names_def)

lemma docs_join:
  "''/'' @ strings_Join [''verifier'', a, b, ''api-doc'', name] ''/'' = docsPath (DeploymentPrefix a b) @ ''/'' @ name"
  "''/'' @ strings_Join [''verifier'', a, b, name] ''/'' = DeploymentPrefix a b @ ''/'' @ name"
  by (simp_all add: docsPath_def DeploymentPrefix_def)

section \<open>Properties\<close>

text \<open>
  C20. The documentation page works under every deployment prefix. A browser that asks for the bare
  documentation path is redirected to the form with a trailing slash, which returns the index page;
  from there the reference in the Swagger configuration resolves to the JSON form of the OpenAPI
  document that the API publishes, and every asset reference resolves to a path that the file server
  answers with that file. After the load event \<open>window.ui\<close> is the Swagger UI built on that
  document for the element \<open>#swagger-ui\<close>.
\<close>

theorem docs_page_works:
  assumes "SourceURLSlug source override = Inr slug" and "source \<in> {SourceTEE, SourceXRP, SourceTestXRP}"
    and "ValidateDestinationChainURLSlug dest = Inr ()"
    and "pre = DeploymentPrefix slug dest" and "page = docsPath pre @ ''/''"
    and "\<forall>name \<in> set swagger_names. files name = Some (content name)"
  shows "docs_route files pre (docsPath pre) = Some (MovedPermanently page) \<and>
    docs_route files pre page = Some (Page (content ''index.html'')) \<and>
    (\<forall>name \<in> set asset_names.
       docs_route files pre (resolve_ref page name) = Some (Asset (content name))) \<and>
    win_ui (fire_load SwaggerUIBundle (init_swagger w)) = Some (SwaggerUIBundle swaggerOptions) \<and>
    opt_dom_id swaggerOptions = ''#swagger-ui'' \<and>
    resolve_ref page (opt_url swaggerOptions) = OpenAPIPath pre @ ''.json''"
proof -
  have a: "plain_segment slug" using assms(1,2) by (rule SourceURLSlug_plain)
  have b: "plain_segment dest" using assms(3) slug_plain slug_ok_iff by blast
  have files: "files name = Some (content name)" if "name \<in> set swagger_names" for name
    using assms(6) that by blast
  have asset: "docs_route files pre (resolve_ref page name) = Some (Asset (content name))"
    if n: "name \<in> set asset_names" for name
  proof -
    have "name \<noteq> ''index.html''" "name \<noteq> []" using n by (auto simp: asset_names_def)
    moreover have "files name = Some (content name)"
      using n by (intro files) (auto simp: asset_names_def swagger_names_def)
    moreover have "resolve_ref page name = page @ name"
      using ref_from_docs [OF a b, of name] asset_no_slash [OF n] docs_join(1) [of slug dest name]
      by (simp add: assms(4,5))
    ultimately show ?thesis
      using FileServer_asset [OF n, of files "content name"]
      by (simp add: docs_route_def SwaggerHandler_def StripPrefix_def assms(5) HasPrefix_iff)
  qed
  have "resolve_ref page (opt_url swaggerOptions) = OpenAPIPath pre @ ''.json''"
    using ref_from_docs [OF a b, of "''../openapi.json''"] docs_join(2) [of slug dest "''openapi.json''"]
    by (simp add: swaggerOptions_def OpenAPIPath_def assms(4,5))
  moreover have "files ''index.html'' = Some (content ''index.html'')"
    by (rule files) (simp add: swagger_names_def)
  ultimately show ?thesis
    using asset assms(5)
    by (auto simp: docs_route_def SwaggerHandler_def HasPrefix_iff fire_load_def init_swagger_def swaggerOptions_def)
qed

definition sample_files :: "string \<rightharpoonup> bytes" where
  "sample_files name = (if name \<in> set swagger_names then Some [of_nat (length name)] else None)"

theorem docs_page_works_witness:
  "resolve_ref (docsPath (DeploymentPrefix ''testxrp'' ''coston'') @ ''/'') (opt_url swaggerOptions) =
     ''/verifier/testxrp/coston/openapi.json'' \<and>
   docs_route sample_files (DeploymentPrefix ''testxrp'' ''coston'')
     (docsPath (DeploymentPrefix ''testxrp'' ''coston'') @ ''/'') = Some (Page [10])"
proof -
  have "SourceURLSlug SourceTestXRP '''' = Inr ''testxrp''"
    by (simp add: SourceURLSlug_def source_slugs)
  moreover have "ValidateDestinationChainURLSlug ''coston'' = Inr ()"
    by (simp add: slug_ok_iff urlSlugPattern_def is_lower_def is_slug_char_def)
  moreover have "\<forall>name \<in> set swagger_names. sample_files name = Some [of_nat (length name)]"
    by (simp add: sample_files_def)
  ultimately show ?thesis
    using docs_page_works [of SourceTestXRP "''''" "''testxrp''" "''coston''" "DeploymentPrefix ''testxrp'' ''coston''"
        "docsPath (DeploymentPrefix ''testxrp'' ''coston'') @ ''/''" sample_files "\<lambda>name. [of_nat (length name)]"
        "\<lambda>_. ()" "\<lparr>win_onload = None, win_ui = None\<rparr>"]
    by (simp add: OpenAPIPath_def DeploymentPrefix_def)
qed

end
