(* ===== verification/Server.thy ===== *)
theory Server
  imports Services Swagger_Docs
begin

text \<open>
  \<open>internal/api/server.go\<close>: reading the environment, the router with its middleware, API-key authentication, starting
  and stopping the server.

  The process environment is a map. The \<open>.env\<close> loader (godotenv), the router's choice of a route for a request and its panic
  recovery (chi), and the handlers behind the operations are parameters. \<open>logger.Fatalf\<close> ends the process; it is an error result.
\<close>

section \<open>Environment\<close>

definition EnvRelayCutoverContractAddress :: string where "EnvRelayCutoverContractAddress = ''RELAY_CUTOVER_CONTRACT_ADDRESS''"
definition EnvRelayCutoverStartingRewardEpoch :: string where
  "EnvRelayCutoverStartingRewardEpoch = ''RELAY_CUTOVER_STARTING_REWARD_EPOCH''"
definition EnvPort :: string where "EnvPort = ''PORT''"
definition EnvAPIKeys :: string where "EnvAPIKeys = ''API_KEYS''"
definition EnvSourceID :: string where "EnvSourceID = ''SOURCE_ID''"
definition EnvAllowTeeDebug :: string where "EnvAllowTeeDebug = ''ALLOW_TEE_DEBUG''"
definition EnvDisableAttestationCheckE2E :: string where "EnvDisableAttestationCheckE2E = ''DISABLE_ATTESTATION_CHECK_E2E''"
definition EnvAllowPrivateNetworks :: string where "EnvAllowPrivateNetworks = ''ALLOW_PRIVATE_NETWORKS''"
definition EnvTeeAudience :: string where "EnvTeeAudience = ''TEE_AUDIENCE''"
definition EnvChainID :: string where "EnvChainID = ''CHAIN_ID''"
definition EnvDestinationChainURLSlug :: string where "EnvDestinationChainURLSlug = ''DESTINATION_CHAIN_URL_SLUG''"
definition EnvSourceURLSlug :: string where "EnvSourceURLSlug = ''SOURCE_URL_SLUG''"

type_synonym environ = "string \<rightharpoonup> string"

definition os_Getenv :: "environ \<Rightarrow> string \<Rightarrow> string" where
  "os_Getenv env key = (case env key of None \<Rightarrow> '''' | Some v \<Rightarrow> v)"

definition getEnvOrError :: "environ \<Rightarrow> string \<Rightarrow> string result" where
  "getEnvOrError env key =
     (let val = strings_TrimSpace (os_Getenv env key) in if val = '''' then Inl Plain else Inr val)"

definition SourceIDs :: "source_name list" where
  "SourceIDs = [SourceTEE, SourceXRP, SourceTestXRP]"

definition parseSourceID :: "string \<Rightarrow> source_name result" where
  "parseSourceID value = (case List.find (\<lambda>at. at = value) SourceIDs of Some at \<Rightarrow> Inr at | None \<Rightarrow> Inl Plain)"

definition minAPIKeyLength :: nat where "minAPIKeyLength = 16"

text \<open>The loop of \<open>getAPIKeys\<close> over the comma-separated entries.\<close>

fun key_loop :: "string list \<Rightarrow> string list \<Rightarrow> string list result" where
  "key_loop [] apiKeys = Inr apiKeys"
| "key_loop (key # rest) apiKeys =
     (let trimmed = strings_TrimSpace key
      in if trimmed = '''' then key_loop rest apiKeys
         else if length trimmed < minAPIKeyLength then Inl Plain
         else key_loop rest (apiKeys @ [trimmed]))"

definition getAPIKeys :: "environ \<Rightarrow> string list result" where
  "getAPIKeys env =
     (let raw = os_Getenv env EnvAPIKeys
      in if strings_TrimSpace raw = '''' then Inl Plain
         else rbind (key_loop (strings_Split CHR '','' raw) []) (\<lambda>apiKeys.
              if length apiKeys = 0 then Inl Plain else Inr apiKeys))"

definition resolveAttestationTypes :: "source_name \<Rightarrow> attestation_type list result" where
  "resolveAttestationTypes source =
     (case AttestationTypesForSource source of
        None \<Rightarrow> Inl Plain
      | Some allowed \<Rightarrow> if length allowed = 0 then Inl Plain else Inr allowed)"

text \<open>
  \<open>godotenv.Load\<close> reports an error or not and leaves an environment. The single-type field keeps its zero value, the empty name.
\<close>

definition LoadEnvConfig :: "(environ \<Rightarrow> goerr option \<times> environ) \<Rightarrow> environ \<Rightarrow> EnvConfig result \<times> environ" where
  "LoadEnvConfig godotenv_Load env0 =
     (let env = (if os_Getenv env0 ''LOAD_DOTENV'' = ''true'' then snd (godotenv_Load env0) else env0)
      in (rbind (getEnvOrError env EnvPort) (\<lambda>port.
          rbind (getEnvOrError env EnvSourceID) (\<lambda>sourceIDStr.
          rbind (parseSourceID sourceIDStr) (\<lambda>sourceID.
          rbind (resolveAttestationTypes sourceID) (\<lambda>attestationTypes.
          rbind (getAPIKeys env) (\<lambda>apiKeys.
          Inr \<lparr>env_SourceRPCURL = os_Getenv env EnvSourceRPCURL,
               env_FlareRPCURL = os_Getenv env EnvFlareRPCURL,
               env_RelayContractAddress = os_Getenv env EnvRelayContractAddress,
               env_RelayCutoverContractAddress = os_Getenv env EnvRelayCutoverContractAddress,
               env_RelayCutoverStartingRewardEpoch = os_Getenv env EnvRelayCutoverStartingRewardEpoch,
               env_FlareTeeManagerContractAddress = os_Getenv env EnvFlareTeeManagerContractAddress,
               env_TeePaymentsContractAddress = os_Getenv env EnvTeePaymentsContractAddress,
               env_SourceDatabaseURL = os_Getenv env EnvSourceDatabaseURL,
               env_CChainDatabaseURL = os_Getenv env EnvCChainDatabaseURL,
               env_AllowTeeDebug = os_Getenv env EnvAllowTeeDebug,
               env_DisableAttestationCheckE2E = os_Getenv env EnvDisableAttestationCheckE2E,
               env_AllowPrivateNetworks = os_Getenv env EnvAllowPrivateNetworks,
               env_TeeAudience = os_Getenv env EnvTeeAudience,
               env_ChainID = os_Getenv env EnvChainID,
               env_DestinationChainURLSlug = os_Getenv env EnvDestinationChainURLSlug,
               env_SourceURLSlug = os_Getenv env EnvSourceURLSlug,
               env_Port = port,
               env_APIKeys = apiKeys,
               env_AttestationType = OtherAttestationType '''',
               env_AttestationTypes = attestationTypes,
               env_SourceID = sourceID\<rparr>))))), env))"

section \<open>Requests and middleware\<close>

text \<open>
  A request: \<open>rq_APIKey\<close> is the value of the \<open>X-API-KEY\<close> header, empty when it is absent, and \<open>rq_Body\<close> what reading the body to its end gives.
\<close>

record api_request =
  rq_Method :: string
  rq_Path :: string
  rq_APIKey :: string
  rq_Body :: "bytes result"

datatype server_reply =
    DocsReply Swagger_Docs.http_reply
  | OpReply "bytes Handler.http_reply"
  | NoRoute

text \<open>A handler turns a request and the response headers set so far into the final headers and the reply.\<close>

type_synonym headers = "string \<rightharpoonup> string"
type_synonym http_handler = "api_request \<Rightarrow> headers \<Rightarrow> headers \<times> server_reply"

definition maxRequestBodySize :: nat where "maxRequestBodySize = 2 ^ 20"

definition http_MaxBytesReader :: "bytes result \<Rightarrow> nat \<Rightarrow> bytes result" where
  "http_MaxBytesReader body n = rbind body (\<lambda>b. if length b \<le> n then Inr b else Inl Plain)"

definition requestSizeLimiter :: "nat \<Rightarrow> http_handler \<Rightarrow> http_handler" where
  "requestSizeLimiter maxBytes nxt r = nxt (r\<lparr>rq_Body := http_MaxBytesReader (rq_Body r) maxBytes\<rparr>)"

definition newSecurityHandler :: "http_handler \<Rightarrow> http_handler" where
  "newSecurityHandler handler r h =
     handler r (h(''X-Frame-Options'' \<mapsto> ''DENY'', ''X-Content-Type-Options'' \<mapsto> ''nosniff''))"

text \<open>\<open>subtle.ConstantTimeCompare\<close>: the differences of all positions are collected before the result is decided.\<close>

definition subtle_ConstantTimeCompare :: "bytes \<Rightarrow> bytes \<Rightarrow> nat" where
  "subtle_ConstantTimeCompare x y =
     (if length x \<noteq> length y then 0
      else if fold (\<lambda>(a, b) v. or v (xor a b)) (zip x y) 0 = 0 then 1 else 0)"

definition APIKeyAuthMiddleware :: "string list \<Rightarrow> string \<Rightarrow> http_handler \<Rightarrow> http_handler" where
  "APIKeyAuthMiddleware apiKeys health nxt ctx h =
     (if rq_Path ctx = health then nxt ctx h
      else if list_ex (\<lambda>key. subtle_ConstantTimeCompare (map byte_of_char (rq_APIKey ctx)) (map byte_of_char key) = 1) apiKeys
      then nxt ctx h
      else (h, OpReply (HTTP_Error 401 ''Unauthorized'')))"

section \<open>Routing\<close>

text \<open>
  \<open>chi_Route\<close> picks, among the registered methods and patterns, the one for the method and path of a request. \<open>huma_Routes\<close> are the routes huma adds
  for its own documents at the two configured paths and \<open>huma_Serve\<close> their handler; they bypass the API's middleware.
\<close>

record chi_lib =
  chi_Route :: "(string \<times> string) list \<Rightarrow> string \<Rightarrow> string \<Rightarrow> nat option"
  chi_Recoverer :: "http_handler \<Rightarrow> http_handler"
  huma_Routes :: "string \<Rightarrow> string \<Rightarrow> (string \<times> string) list"
  huma_Serve :: http_handler

datatype route_target = DocsRedirect | DocsFiles | HumaDocument | Operation string

definition SchemasPath :: "string \<Rightarrow> string" where
  "SchemasPath deploymentPrefix = deploymentPrefix @ ''/schemas''"

definition newRouter :: "string \<Rightarrow> ((string \<times> string) \<times> route_target) list" where
  "newRouter deploymentPrefix =
     [((''GET'', docsPath deploymentPrefix), DocsRedirect), ((''GET'', docsPath deploymentPrefix @ ''/*''), DocsFiles)]"

definition newAPI :: "chi_lib \<Rightarrow> string \<Rightarrow> ((string \<times> string) \<times> route_target) list" where
  "newAPI chi deploymentPrefix =
     map (\<lambda>r. (r, HumaDocument)) (huma_Routes chi (OpenAPIPath deploymentPrefix) (SchemasPath deploymentPrefix))"

text \<open>The health operation comes first and is a GET; the others are POST.\<close>

fun operation_routes :: "(string \<times> string) list \<Rightarrow> ((string \<times> string) \<times> route_target) list" where
  "operation_routes [] = []"
| "operation_routes ((hid, hpath) # ops) =
     ((''GET'', hpath), Operation hid) # map (\<lambda>(oid, path). ((''POST'', path), Operation oid)) ops"

definition route_table :: "chi_lib \<Rightarrow> string \<Rightarrow> (string \<times> string) list \<Rightarrow> ((string \<times> string) \<times> route_target) list" where
  "route_table chi deploymentPrefix ops = newRouter deploymentPrefix @ newAPI chi deploymentPrefix @ operation_routes ops"

definition serve_route ::
  "chi_lib \<Rightarrow> (string \<rightharpoonup> bytes) \<Rightarrow> (string \<Rightarrow> http_handler) \<Rightarrow> string list \<Rightarrow> string \<Rightarrow> (string \<times> string) list \<Rightarrow> http_handler" where
  "serve_route chi files serveOp apiKeys deploymentPrefix ops r h =
     (let table = route_table chi deploymentPrefix ops
      in case chi_Route chi (map fst table) (rq_Method r) (rq_Path r) of
           None \<Rightarrow> (h, NoRoute)
         | Some i \<Rightarrow>
             (case snd (table ! i) of
                DocsRedirect \<Rightarrow> (h, DocsReply (MovedPermanently (docsPath deploymentPrefix @ ''/'')))
              | DocsFiles \<Rightarrow> (h, DocsReply (SwaggerHandler files (docsPath deploymentPrefix @ ''/'') (rq_Path r)))
              | HumaDocument \<Rightarrow> huma_Serve chi r h
              | Operation oid \<Rightarrow> APIKeyAuthMiddleware apiKeys (deploymentPrefix @ ''/api/health'') (serveOp oid) r h))"

definition router_ServeHTTP ::
  "chi_lib \<Rightarrow> (string \<rightharpoonup> bytes) \<Rightarrow> (string \<Rightarrow> http_handler) \<Rightarrow> string list \<Rightarrow> string \<Rightarrow> (string \<times> string) list \<Rightarrow> http_handler" where
  "router_ServeHTTP chi files serveOp apiKeys deploymentPrefix ops =
     chi_Recoverer chi (requestSizeLimiter maxRequestBodySize (serve_route chi files serveOp apiKeys deploymentPrefix ops))"

section \<open>Starting and stopping\<close>

definition shutdownAfter :: duration where "shutdownAfter = 10 * second_ns"
definition readHeaderTimeout :: duration where "readHeaderTimeout = 5 * second_ns"
definition readTimeout :: duration where "readTimeout = 10 * second_ns"
definition writeTimeout :: duration where "writeTimeout = 30 * second_ns"
definition idleTimeout :: duration where "idleTimeout = 60 * second_ns"

record http_Server =
  srv_Addr :: string
  srv_Handler :: http_handler
  srv_ReadHeaderTimeout :: duration
  srv_ReadTimeout :: duration
  srv_WriteTimeout :: duration
  srv_IdleTimeout :: duration

definition StartServer ::
  "chi_lib \<Rightarrow> (string \<rightharpoonup> bytes) \<Rightarrow> (string \<Rightarrow> http_handler) \<Rightarrow> 'n service_lib \<Rightarrow> EnvConfig \<Rightarrow>
   (boot_world, goerr, http_Server \<times> closer list) io" where
  "StartServer chi files serveOp sv envConfig =
     io_bind (io_lift (SourceURLSlug (env_SourceID envConfig) (env_SourceURLSlug envConfig))) (\<lambda>sourceSlug.
     let prefix = DeploymentPrefix sourceSlug (env_DestinationChainURLSlug envConfig)
     in io_bind (LoadModule sv envConfig) (\<lambda>(closers, ops).
        io_return
          (\<lparr>srv_Addr = '':'' @ env_Port envConfig,
            srv_Handler = newSecurityHandler (router_ServeHTTP chi files serveOp (env_APIKeys envConfig) prefix ops),
            srv_ReadHeaderTimeout = readHeaderTimeout, srv_ReadTimeout = readTimeout,
            srv_WriteTimeout = writeTimeout, srv_IdleTimeout = idleTimeout\<rparr>, closers)))"

text \<open>A failing graceful stop is logged only; every service is closed in any case.\<close>

definition ShutdownServer :: "'n service_lib \<Rightarrow> closer list \<Rightarrow> boot_world \<Rightarrow> boot_world" where
  "ShutdownServer sv closers w = fold (Closer_Close sv) closers w"

text \<open>\<open>serving\<close> is what happens to the state between the start and the signal that ends the process.\<close>

definition RunServer ::
  "chi_lib \<Rightarrow> (string \<rightharpoonup> bytes) \<Rightarrow> (string \<Rightarrow> http_handler) \<Rightarrow> (boot_world \<Rightarrow> boot_world) \<Rightarrow> 'n service_lib \<Rightarrow> EnvConfig \<Rightarrow>
   (boot_world, goerr, unit) io" where
  "RunServer chi files serveOp serving sv envConfig w =
     (case StartServer chi files serveOp sv envConfig w of
        (Inl e, w') \<Rightarrow> (Inl e, w')
      | (Inr (srv, closers), w') \<Rightarrow> (Inr (), ShutdownServer sv closers (serving w')))"

text \<open>\<open>cmd/main.go\<close>.\<close>

definition main ::
  "chi_lib \<Rightarrow> (string \<rightharpoonup> bytes) \<Rightarrow> (string \<Rightarrow> http_handler) \<Rightarrow> (boot_world \<Rightarrow> boot_world) \<Rightarrow> 'n service_lib \<Rightarrow>
   (environ \<Rightarrow> goerr option \<times> environ) \<Rightarrow> environ \<Rightarrow> (boot_world, goerr, unit) io" where
  "main chi files serveOp serving sv godotenv_Load env =
     io_bind (io_lift (fst (LoadEnvConfig godotenv_Load env))) (RunServer chi files serveOp serving sv)"

section \<open>Lemmas: keys and authentication\<close>

lemma fold_diff_zero:
  "length x = length y \<Longrightarrow> fold (\<lambda>(a, b) v. or v (xor a b)) (zip x y) v = 0 \<longleftrightarrow> v = (0 :: u8) \<and> x = y"
proof (induction x y arbitrary: v rule: list_induct2)
  case (Cons a x b y)
  have "or v (xor a b) = 0 \<longleftrightarrow> v = 0 \<and> a = b"
    by (metis or_eq_0_iff xor_self_eq xor.right_neutral xor.assoc)
  with Cons.IH [of "or v (xor a b)"] show ?case by auto
qed simp

lemma ConstantTimeCompare_iff: "subtle_ConstantTimeCompare x y = 1 \<longleftrightarrow> x = y"
  by (auto simp: subtle_ConstantTimeCompare_def fold_diff_zero)

lemma auth_iff:
  "APIKeyAuthMiddleware apiKeys health nxt ctx h =
     (if rq_Path ctx = health \<or> rq_APIKey ctx \<in> set apiKeys then nxt ctx h
      else (h, OpReply (HTTP_Error 401 ''Unauthorized'')))"
proof -
  have "list_ex (\<lambda>key. subtle_ConstantTimeCompare (map byte_of_char (rq_APIKey ctx)) (map byte_of_char key) = 1) apiKeys \<longleftrightarrow>
      rq_APIKey ctx \<in> set apiKeys"
    unfolding ConstantTimeCompare_iff by (auto simp: list_ex_iff inj_map_eq_map [OF byte_of_char_inj])
  then show ?thesis by (simp add: APIKeyAuthMiddleware_def)
qed

lemma key_loop_ok:
  "key_loop ks acc = Inr keys \<longleftrightarrow>
     keys = acc @ filter (\<lambda>k. k \<noteq> '''') (map strings_TrimSpace ks) \<and>
     (\<forall>k \<in> set (filter (\<lambda>k. k \<noteq> '''') (map strings_TrimSpace ks)). minAPIKeyLength \<le> length k)"
  by (induction ks acc rule: key_loop.induct) (auto simp: Let_def)

lemma getAPIKeys_ok:
  assumes "getAPIKeys env = Inr keys"
  shows "keys = filter (\<lambda>k. k \<noteq> '''') (map strings_TrimSpace (strings_Split CHR '','' (os_Getenv env EnvAPIKeys)))"
    and "keys \<noteq> []" and "\<forall>k \<in> set keys. minAPIKeyLength \<le> length k"
  using assms by (auto simp: getAPIKeys_def Let_def rbind_eq_Inr_iff key_loop_ok split: if_splits)


lemma LoadEnvConfig_ok:
  assumes "LoadEnvConfig godotenv_Load env0 = (Inr cfg, env)"
  shows "getAPIKeys env = Inr (env_APIKeys cfg)" and "resolveAttestationTypes (env_SourceID cfg) = Inr (env_AttestationTypes cfg)"
    and "env_SourceID cfg \<in> set SourceIDs" and "strings_TrimSpace (os_Getenv env EnvSourceID) = env_SourceID cfg"
proof -
  from assms show "getAPIKeys env = Inr (env_APIKeys cfg)"
    unfolding LoadEnvConfig_def Let_def by (auto simp: rbind_eq_Inr_iff)
  from assms show "resolveAttestationTypes (env_SourceID cfg) = Inr (env_AttestationTypes cfg)"
    unfolding LoadEnvConfig_def Let_def by (auto simp: rbind_eq_Inr_iff)
  from assms obtain str where str: "getEnvOrError env EnvSourceID = Inr str" "parseSourceID str = Inr (env_SourceID cfg)"
    unfolding LoadEnvConfig_def Let_def by (auto simp: rbind_eq_Inr_iff)
  then show "env_SourceID cfg \<in> set SourceIDs" "strings_TrimSpace (os_Getenv env EnvSourceID) = env_SourceID cfg"
    by (auto simp: parseSourceID_def getEnvOrError_def Let_def find_Some_iff split: option.splits if_splits)
qed

text \<open>
  C36. Authentication is exact. The accepted keys are the non-empty entries of \<open>API_KEYS\<close> with blanks trimmed, there is at least one and none is
  shorter than sixteen characters; the middleware lets a request through exactly when it is for the health path or its \<open>X-API-KEY\<close> equals one of
  these keys, so that a request with no key is answered with 401.
\<close>

theorem api_key_exact:
  assumes "LoadEnvConfig godotenv_Load env0 = (Inr cfg, env)"
  shows "env_APIKeys cfg = filter (\<lambda>k. k \<noteq> '''') (map strings_TrimSpace (strings_Split CHR '','' (os_Getenv env EnvAPIKeys))) \<and>
    env_APIKeys cfg \<noteq> [] \<and> (\<forall>k \<in> set (env_APIKeys cfg). 16 \<le> length k) \<and>
    APIKeyAuthMiddleware (env_APIKeys cfg) health nxt ctx h =
       (if rq_Path ctx = health \<or> rq_APIKey ctx \<in> set (env_APIKeys cfg) then nxt ctx h
        else (h, OpReply (HTTP_Error 401 ''Unauthorized''))) \<and>
    (rq_APIKey ctx = '''' \<and> rq_Path ctx \<noteq> health \<longrightarrow>
       APIKeyAuthMiddleware (env_APIKeys cfg) health nxt ctx h = (h, OpReply (HTTP_Error 401 ''Unauthorized'')))"
proof -
  note keys = getAPIKeys_ok [OF LoadEnvConfig_ok(1) [OF assms]]
  have long: "\<forall>k \<in> set (env_APIKeys cfg). 16 \<le> length k" using keys(3) by (simp add: minAPIKeyLength_def)
  then have "'''' \<notin> set (env_APIKeys cfg)" by force
  then have "rq_APIKey ctx = '''' \<and> rq_Path ctx \<noteq> health \<longrightarrow>
       APIKeyAuthMiddleware (env_APIKeys cfg) health nxt ctx h = (h, OpReply (HTTP_Error 401 ''Unauthorized''))"
    by (simp add: auth_iff)
  with keys(1,2) long auth_iff show ?thesis by blast
qed

section \<open>Lemmas: what a deployment registers\<close>

definition op_of :: "config_lib \<Rightarrow> EnvConfig \<Rightarrow> string \<Rightarrow> attestation_type \<Rightarrow> string \<Rightarrow> string \<times> string" where
  "op_of cl env slug t endpoint =
     (getVerifierOperationID cl (env_SourceID env) (env_DestinationChainURLSlug env) t endpoint,
      getVerifierAPIPath cl slug (env_DestinationChainURLSlug env) t endpoint)"

definition deployment_ops :: "config_lib \<Rightarrow> EnvConfig \<Rightarrow> string \<Rightarrow> attestation_type list \<Rightarrow> (string \<times> string) list" where
  "deployment_ops cl env slug types = concat (map (\<lambda>t. map (op_of cl env slug t) endpoints) types)"

text \<open>A configuration built for this deployment and type, and a state in which the cached ones are.\<close>

definition same_deployment :: "EnvConfig \<Rightarrow> string \<Rightarrow> attestation_type \<Rightarrow> EncodedAndABI \<Rightarrow> bool" where
  "same_deployment env slug t enc \<longleftrightarrow>
     enc_SourceID enc = env_SourceID env \<and> enc_DestinationChainSlug enc = env_DestinationChainURLSlug env \<and>
     enc_SourceURLSlug enc = slug \<and> enc_AttestationType enc = t"

definition cached_ok :: "('c \<Rightarrow> bool) \<Rightarrow> 'c once \<Rightarrow> bool" where
  "cached_ok P s \<longleftrightarrow> (\<forall>c. s = Some (Inr c) \<longrightarrow> P c)"

definition consistent :: "EnvConfig \<Rightarrow> string \<Rightarrow> boot_world \<Rightarrow> bool" where
  "consistent env slug w \<longleftrightarrow>
     cached_ok (same_deployment env slug PMWPaymentStatus \<circ> pc_enc) (bw_payment w) \<and>
     cached_ok (same_deployment env slug PMWFeeProof \<circ> pc_enc) (bw_fee w) \<and>
     cached_ok (same_deployment env slug PMWMultisigAccountConfigured \<circ> mc_enc) (bw_multisig w) \<and>
     cached_ok (same_deployment env slug AvailabilityCheck \<circ> tc_enc) (bw_tee w)"

lemma same_deployment_ops:
  "same_deployment env slug t enc \<Longrightarrow> registered_ops cl enc = map (op_of cl env slug t) endpoints"
  by (simp add: same_deployment_def registered_ops_def op_of_def)

lemma once_Do_cached:
  assumes "once_Do build env s = (Inr c, s')" and "cached_ok P s" and "\<And>c. build env = Inr c \<Longrightarrow> P c"
  shows "P c" and "s' = Some (Inr c)"
  using assms by (auto simp: once_Do_def cached_ok_def split: option.splits)

lemma build_deployment:
  assumes "SourceURLSlug (env_SourceID env) (env_SourceURLSlug env) = Inr slug"
  shows "BuildPMWPaymentStatusConfig lib (env\<lparr>env_AttestationType := t\<rparr>) = Inr c \<Longrightarrow> same_deployment env slug t (pc_enc c)"
    and "BuildPMWFeeProofConfig lib (env\<lparr>env_AttestationType := t\<rparr>) = Inr c \<Longrightarrow> same_deployment env slug t (pc_enc c)"
    and "BuildPMWMultisigAccountConfiguredConfig lib (env\<lparr>env_AttestationType := t\<rparr>) = Inr m \<Longrightarrow> same_deployment env slug t (mc_enc m)"
    and "BuildTeeAvailabilityCheckConfig lib (env\<lparr>env_AttestationType := t\<rparr>) = Inr a \<Longrightarrow> same_deployment env slug t (tc_enc a)"
proof -
  have enc: "LoadEncodedAndABI lib (env\<lparr>env_AttestationType := t\<rparr>) = Inr e \<Longrightarrow> same_deployment env slug t e" for e
    using assms by (auto simp: LoadEncodedAndABI_def same_deployment_def rbind_eq_Inr_iff split: option.splits prod.splits)
  show "BuildPMWPaymentStatusConfig lib (env\<lparr>env_AttestationType := t\<rparr>) = Inr c \<Longrightarrow> same_deployment env slug t (pc_enc c)"
    using enc by (auto simp: BuildPMWPaymentStatusConfig_def rbind_eq_Inr_iff)
  show "BuildPMWFeeProofConfig lib (env\<lparr>env_AttestationType := t\<rparr>) = Inr c \<Longrightarrow> same_deployment env slug t (pc_enc c)"
    using enc by (auto simp: BuildPMWFeeProofConfig_def rbind_eq_Inr_iff)
  show "BuildPMWMultisigAccountConfiguredConfig lib (env\<lparr>env_AttestationType := t\<rparr>) = Inr m \<Longrightarrow> same_deployment env slug t (mc_enc m)"
    using enc by (auto simp: BuildPMWMultisigAccountConfiguredConfig_def rbind_eq_Inr_iff)
  show "BuildTeeAvailabilityCheckConfig lib (env\<lparr>env_AttestationType := t\<rparr>) = Inr a \<Longrightarrow> same_deployment env slug t (tc_enc a)"
    using enc by (auto simp: BuildTeeAvailabilityCheckConfig_def rbind_eq_Inr_iff split: if_splits)
qed


text \<open>The steps between loading a configuration and returning leave every cached configuration alone.\<close>

definition boot_caches ::
  "boot_world \<Rightarrow> PMWPaymentStatusConfig once \<times> PMWFeeProofConfig once \<times> PMWMultisigAccountConfig once \<times> TeeAvailabilityCheckConfig once" where
  "boot_caches w = (bw_payment w, bw_fee w, bw_multisig w, bw_tee w)"

lemma consistent_caches: "boot_caches w = boot_caches w' \<Longrightarrow> consistent env slug w = consistent env slug w'"
  by (simp add: consistent_def boot_caches_def)

lemma resource_caches [simp]:
  "boot_caches (snd (acquire env t w)) = boot_caches w" "boot_caches (release r w) = boot_caches w"
  "boot_caches (sleep d w) = boot_caches w" "boot_caches (snd (CloseDB env' db w)) = boot_caches w"
  by (auto simp: acquire_def release_def sleep_def CloseDB_def boot_caches_def split: option.splits)

lemma acquire_caches: "acquire env t w = (r, w') \<Longrightarrow> boot_caches w' = boot_caches w"
  by (metis resource_caches(1) snd_conv)

lemma init_loop_caches: "boot_caches (snd (init_loop env dsn maxDelay n cur err w)) = boot_caches w"
proof (induction env dsn maxDelay n cur err w rule: init_loop.induct)
  case (2 env dsn maxDelay n cur err w)
  then show ?case by (auto split: prod.splits sum.splits dest: acquire_caches)
qed simp

lemma dial_caches: "boot_caches (snd (dial_verifier env url newCaller construct w)) = boot_caches w"
  by (auto simp: dial_verifier_def split: prod.splits sum.splits dest: acquire_caches)

lemma newDBService_caches: "newDBService sv construct cfg w = (Inr s, w') \<Longrightarrow> boot_caches w' = boot_caches w \<and> ds_config s = cfg"
proof -
  have i: "InitSourceDB env dsn opts w = (r, w') \<Longrightarrow> boot_caches w' = boot_caches w"
    "InitCChainDB env dsn opts w = (r, w') \<Longrightarrow> boot_caches w' = boot_caches w" for env dsn opts r w w'
    unfolding InitSourceDB_def InitCChainDB_def initDBWithRetries_def using init_loop_caches by (metis snd_conv)+
  have d: "dial_verifier env url newCaller c w = (r, w') \<Longrightarrow> boot_caches w' = boot_caches w" for env url newCaller c r w w'
    using dial_caches by (metis snd_conv)
  assume "newDBService sv construct cfg w = (Inr s, w')"
  then show ?thesis by (auto simp: newDBService_def split: prod.splits sum.splits dest!: i d)
qed

lemma new_verifier_caches: "boot_caches (snd (NewVerifier (sv_eth sv) crls cfg w)) = boot_caches w"
  by (auto simp: NewVerifier_def io_bind_def io_map_error_def sv_eth_def split: prod.splits sum.splits dest: acquire_caches)


lemma consistent_update:
  assumes "consistent env slug w"
  shows "same_deployment env slug PMWPaymentStatus (pc_enc c) \<Longrightarrow> consistent env slug (w\<lparr>bw_payment := Some (Inr c)\<rparr>)"
    and "same_deployment env slug PMWFeeProof (pc_enc c) \<Longrightarrow> consistent env slug (w\<lparr>bw_fee := Some (Inr c)\<rparr>)"
    and "same_deployment env slug PMWMultisigAccountConfigured (mc_enc m) \<Longrightarrow> consistent env slug (w\<lparr>bw_multisig := Some (Inr m)\<rparr>)"
    and "same_deployment env slug AvailabilityCheck (tc_enc a) \<Longrightarrow> consistent env slug (w\<lparr>bw_tee := Some (Inr a)\<rparr>)"
  using assms by (simp_all add: consistent_def cached_ok_def)

text \<open>Each service that starts has a configuration of this deployment, and leaves such configurations behind.\<close>

lemma tee_service_config:
  assumes "NewTeeAvailabilityService sv (env\<lparr>env_AttestationType := AvailabilityCheck\<rparr>) w = (Inr (v, cfg), w')"
    and "consistent env slug w" and slug: "SourceURLSlug (env_SourceID env) (env_SourceURLSlug env) = Inr slug"
  shows "same_deployment env slug AvailabilityCheck (tc_enc cfg) \<and> consistent env slug w'"
proof -
  from assms(1) obtain l where l: "LoadTeeAvailabilityCheckConfig (sv_config sv) (env\<lparr>env_AttestationType := AvailabilityCheck\<rparr>) (bw_tee w) = (Inr cfg, l)"
    and v: "NewVerifier (sv_eth sv) (sv_crls sv) cfg (w\<lparr>bw_tee := l\<rparr>) = (Inr v, w')"
    by (auto simp: NewTeeAvailabilityService_def split: prod.splits sum.splits)
  from assms(2) have "cached_ok (same_deployment env slug AvailabilityCheck \<circ> tc_enc) (bw_tee w)" by (simp add: consistent_def)
  from once_Do_cached [OF l [unfolded LoadTeeAvailabilityCheckConfig_def] this] build_deployment(4) [OF slug]
  have s: "same_deployment env slug AvailabilityCheck (tc_enc cfg)" "l = Some (Inr cfg)" by auto
  have "boot_caches w' = boot_caches (w\<lparr>bw_tee := l\<rparr>)" using new_verifier_caches v by (metis snd_conv)
  with consistent_update(4) [OF assms(2) s(1)] s show ?thesis by (metis consistent_caches)
qed

lemma multisig_service_config:
  assumes "NewMultisigService sv (env\<lparr>env_AttestationType := PMWMultisigAccountConfigured\<rparr>) w = (Inr (cfg, st), w')"
    and "consistent env slug w" and slug: "SourceURLSlug (env_SourceID env) (env_SourceURLSlug env) = Inr slug"
  shows "same_deployment env slug PMWMultisigAccountConfigured (mc_enc cfg) \<and> consistent env slug w'"
proof -
  from assms(1) obtain l where w': "w' = w\<lparr>bw_multisig := l\<rparr>"
    and l: "LoadPMWMultisigAccountConfiguredConfig (sv_config sv) (env\<lparr>env_AttestationType := PMWMultisigAccountConfigured\<rparr>) (bw_multisig w) = (Inr cfg, l)"
    by (auto simp: NewMultisigService_def split: prod.splits sum.splits)
  from assms(2) have "cached_ok (same_deployment env slug PMWMultisigAccountConfigured \<circ> mc_enc) (bw_multisig w)" by (simp add: consistent_def)
  from once_Do_cached [OF l [unfolded LoadPMWMultisigAccountConfiguredConfig_def] this] build_deployment(3) [OF slug]
  have s: "same_deployment env slug PMWMultisigAccountConfigured (mc_enc cfg)" "l = Some (Inr cfg)" by auto
  with w' consistent_update(3) [OF assms(2) s(1)] show ?thesis by simp
qed

lemma payment_service_config:
  assumes "NewPaymentService sv (env\<lparr>env_AttestationType := PMWPaymentStatus\<rparr>) w = (Inr s, w')"
    and "consistent env slug w" and slug: "SourceURLSlug (env_SourceID env) (env_SourceURLSlug env) = Inr slug"
  shows "same_deployment env slug PMWPaymentStatus (pc_enc (ds_config s)) \<and> consistent env slug w'"
proof -
  from assms(1) obtain cfg l where l: "LoadPMWPaymentStatusConfig (sv_config sv) (env\<lparr>env_AttestationType := PMWPaymentStatus\<rparr>) (bw_payment w) = (Inr cfg, l)"
    and v: "newDBService sv (\<lambda>db cdb. NewXRPVerifier (sv_tee sv) cfg (sv_txs sv db) (sv_logs sv cdb)) cfg (w\<lparr>bw_payment := l\<rparr>) = (Inr s, w')"
    by (auto simp: NewPaymentService_def split: prod.splits sum.splits)
  from assms(2) have "cached_ok (same_deployment env slug PMWPaymentStatus \<circ> pc_enc) (bw_payment w)" by (simp add: consistent_def)
  from once_Do_cached [OF l [unfolded LoadPMWPaymentStatusConfig_def] this] build_deployment(1) [OF slug]
  have c: "same_deployment env slug PMWPaymentStatus (pc_enc cfg)" "l = Some (Inr cfg)" by auto
  with newDBService_caches [OF v] consistent_update(1) [OF assms(2) c(1)] show ?thesis by (metis consistent_caches)
qed

lemma fee_service_config:
  assumes "NewFeeProofService sv (env\<lparr>env_AttestationType := PMWFeeProof\<rparr>) w = (Inr s, w')"
    and "consistent env slug w" and slug: "SourceURLSlug (env_SourceID env) (env_SourceURLSlug env) = Inr slug"
  shows "same_deployment env slug PMWFeeProof (pc_enc (ds_config s)) \<and> consistent env slug w'"
proof -
  from assms(1) obtain cfg l where l: "LoadPMWFeeProofConfig (sv_config sv) (env\<lparr>env_AttestationType := PMWFeeProof\<rparr>) (bw_fee w) = (Inr cfg, l)"
    and v: "newDBService sv (\<lambda>db cdb. NewFeeProofVerifier (sv_tee sv) cfg (sv_txs sv db) (sv_logs sv cdb)) cfg (w\<lparr>bw_fee := l\<rparr>) = (Inr s, w')"
    by (auto simp: NewFeeProofService_def split: prod.splits sum.splits)
  from assms(2) have "cached_ok (same_deployment env slug PMWFeeProof \<circ> pc_enc) (bw_fee w)" by (simp add: consistent_def)
  from once_Do_cached [OF l [unfolded LoadPMWFeeProofConfig_def] this] build_deployment(2) [OF slug]
  have c: "same_deployment env slug PMWFeeProof (pc_enc cfg)" "l = Some (Inr cfg)" by auto
  with newDBService_caches [OF v] consistent_update(2) [OF assms(2) c(1)] show ?thesis by (metis consistent_caches)
qed

lemmas service_configs = tee_service_config multisig_service_config payment_service_config fee_service_config

lemma register_ops:
  assumes "registerVerifier sv (env\<lparr>env_AttestationType := t\<rparr>) w = (Inr (cs, ops), w')" and "consistent env slug w"
    and "SourceURLSlug (env_SourceID env) (env_SourceURLSlug env) = Inr slug"
  shows "ops = map (op_of (sv_config sv) env slug t) endpoints \<and> consistent env slug w'"
  using assms(1)
  by (cases t)
     (auto simp: registerVerifier_def io_bind_def same_deployment_ops split: prod.splits sum.splits
       dest!: service_configs [OF _ assms(2,3)])

lemma load_loop_ops:
  assumes "SourceURLSlug (env_SourceID env) (env_SourceURLSlug env) = Inr slug"
  shows "load_loop sv env types cs ops w = (Inr (cs', ops'), w') \<Longrightarrow> consistent env slug w \<Longrightarrow>
     ops' = ops @ deployment_ops (sv_config sv) env slug types"
proof (induction types arbitrary: cs ops w)
  case (Cons t types)
  obtain q w1 where q: "registerVerifier sv (env\<lparr>env_AttestationType := t\<rparr>) w = (q, w1)" by fastforce
  with Cons.prems(1) obtain c o1 where c: "q = Inr (c, o1)" by (cases q) auto
  from register_ops [OF q [unfolded c] Cons.prems(2) assms]
  have o1: "o1 = map (op_of (sv_config sv) env slug t) endpoints" "consistent env slug w1" by auto
  from Cons.prems(1) q c have "load_loop sv env types (cs @ c) (ops @ o1) w1 = (Inr (cs', ops'), w')" by simp
  from Cons.IH [OF this o1(2)] o1(1) show ?case by (simp add: deployment_ops_def)
qed (simp add: deployment_ops_def)

lemma fresh_consistent:
  "boot_caches w = (None, None, None, None) \<Longrightarrow> consistent env slug w"
  by (simp add: boot_caches_def consistent_def cached_ok_def)

lemma StartServer_ok:
  assumes "StartServer chi files serveOp sv env w = (Inr (srv, closers), w')" and "boot_caches w = (None, None, None, None)"
  obtains slug where "SourceURLSlug (env_SourceID env) (env_SourceURLSlug env) = Inr slug"
    and "srv_Handler srv = newSecurityHandler (router_ServeHTTP chi files serveOp (env_APIKeys env)
       (DeploymentPrefix slug (env_DestinationChainURLSlug env))
       (fst (RegisterHealthHandler (DeploymentPrefix slug (env_DestinationChainURLSlug env))) #
        deployment_ops (sv_config sv) env slug (ServedAttestationTypes env)))"
proof (cases "SourceURLSlug (env_SourceID env) (env_SourceURLSlug env)")
  case (Inr slug)
  let ?p = "DeploymentPrefix slug (env_DestinationChainURLSlug env)"
  from assms(1) Inr obtain ops where l: "LoadModule sv env w = (Inr (closers, ops), w')"
    and h: "srv_Handler srv = newSecurityHandler (router_ServeHTTP chi files serveOp (env_APIKeys env) ?p ops)"
    by (auto simp: StartServer_def io_bind_def split: prod.splits sum.splits)
  from l Inr have "load_loop sv env (ServedAttestationTypes env) [] [fst (RegisterHealthHandler ?p)] w = (Inr (closers, ops), w')"
    by (simp add: LoadModule_def)
  from load_loop_ops [OF Inr this fresh_consistent [OF assms(2)]] h that [OF Inr] show ?thesis by simp
qed (use assms(1) in \<open>simp add: StartServer_def\<close>)


section \<open>Lemmas: routes\<close>

text \<open>
  What the router is documented to do: a static pattern matches its own path, a trailing \<open>/*\<close> any path below, a request for a registered static
  route finds one, and recovery changes nothing when the handler does not panic and answers 500 when it does. Huma serves its documents by GET.
  The program registers no pattern with a \<open>{parameter}\<close>; the one such route, huma's schema documents, stands in the tables as the subtree \<open>/*\<close> below its prefix.
\<close>

definition pattern_matches :: "string \<Rightarrow> string \<Rightarrow> bool" where
  "pattern_matches pat path = (if strings_HasSuffix pat ''/*'' then strings_HasPrefix path (butlast pat) else path = pat)"

definition chi_ok :: "chi_lib \<Rightarrow> bool" where
  "chi_ok chi \<longleftrightarrow>
     (\<forall>rs m p i. chi_Route chi rs m p = Some i \<longrightarrow> i < length rs \<and> fst (rs ! i) = m \<and> pattern_matches (snd (rs ! i)) p) \<and>
     (\<forall>rs m p. (m, p) \<in> set rs \<longrightarrow> chi_Route chi rs m p \<noteq> None) \<and>
     (\<forall>f r h. snd (f r h) \<noteq> OpReply HTTP_Panic \<longrightarrow> chi_Recoverer chi f r h = f r h) \<and>
     (\<forall>f r h. snd (f r h) = OpReply HTTP_Panic \<longrightarrow> snd (chi_Recoverer chi f r h) = OpReply (HTTP_Error 500 '''')) \<and>
     (\<forall>a b. \<forall>r \<in> set (huma_Routes chi a b). fst r = ''GET'')"

lemma endpoint_chars:
  assumes "e \<in> set endpoints"
  shows "CHR ''/'' \<notin> set e" "CHR ''-'' \<notin> set e" "last e = CHR ''y''" "e \<noteq> []"
  using assms by (auto simp: endpoints_def)

lemma append_sep_end_inj:
  assumes "c \<notin> set x" "c \<notin> set y" "a @ c # x = b @ c # y"
  shows "a = b \<and> x = y"
proof -
  from assms(3) have "rev x @ c # rev a = rev y @ c # rev b" by (metis append.assoc append_Cons append_Nil rev.simps(2) rev_append rev_rev_ident)
  with append_sep_inj [of c "rev x" "rev y"] assms(1,2) show ?thesis by auto
qed

lemma api_path_inj:
  assumes "getVerifierAPIPath cl s d t e = getVerifierAPIPath cl s d t' e'" "e \<in> set endpoints" "e' \<in> set endpoints"
  shows "att_name cl t = att_name cl t' \<and> e = e'"
proof -
  from assms(1) have "att_name cl t @ CHR ''/'' # e = att_name cl t' @ CHR ''/'' # e'" by (simp add: getVerifierAPIPath_def)
  with append_sep_end_inj endpoint_chars(1) assms(2,3) show ?thesis by metis
qed

lemma operation_id_inj:
  assumes "getVerifierOperationID cl s d t e = getVerifierOperationID cl s d t' e'" "e \<in> set endpoints" "e' \<in> set endpoints"
  shows "att_name cl t = att_name cl t' \<and> e = e'"
proof -
  from assms(1) have "att_name cl t @ CHR ''-'' # e = att_name cl t' @ CHR ''-'' # e'" by (simp add: getVerifierOperationID_def)
  with append_sep_end_inj endpoint_chars(2) assms(2,3) show ?thesis by metis
qed

lemma api_path_last: "e \<in> set endpoints \<Longrightarrow> last (getVerifierAPIPath cl s d t e) = CHR ''y''"
  using endpoint_chars(3,4) [of e] by (simp add: getVerifierAPIPath_def)

lemma api_path_not_health: "e \<in> set endpoints \<Longrightarrow> getVerifierAPIPath cl s d t e \<noteq> healthPath pre"
  using api_path_last [of e cl s d t] by (auto simp: healthPath_def)

lemma api_path_static:
  assumes "e \<in> set endpoints"
  shows "pattern_matches (getVerifierAPIPath cl s d t e) p \<longleftrightarrow> p = getVerifierAPIPath cl s d t e"
proof -
  have "last q = CHR ''*''" if "strings_HasSuffix q ''/*''" for q
    using that by (metis strings_HasSuffix_def append_take_drop_id last_appendR last.simps list.distinct(1))
  with api_path_last [OF assms] have "\<not> strings_HasSuffix (getVerifierAPIPath cl s d t e) ''/*''" by fastforce
  then show ?thesis by (simp add: pattern_matches_def)
qed

lemma deployment_ops_iff:
  "(oid, path) \<in> set (deployment_ops cl env slug types) \<longleftrightarrow>
     (\<exists>t \<in> set types. \<exists>e \<in> set endpoints. (oid, path) = op_of cl env slug t e)"
  by (auto simp: deployment_ops_def)

lemma route_of_operation:
  assumes "chi_ok chi" "inj_on (att_name cl) (set types)" "t \<in> set types" "e \<in> set endpoints"
    and table: "table = route_table chi pre (fst (RegisterHealthHandler pre) # deployment_ops cl env slug types)"
    and path: "path = snd (op_of cl env slug t e)"
  shows "\<exists>i. chi_Route chi (map fst table) ''POST'' path = Some i \<and> snd (table ! i) = Operation (fst (op_of cl env slug t e))"
proof -
  have "(fst (op_of cl env slug t e), path) \<in> set (deployment_ops cl env slug types)"
    using assms(3,4) path deployment_ops_iff by (metis prod.collapse)
  then have "(''POST'', path) \<in> set (map fst table)"
    by (force simp: table route_table_def RegisterHealthHandler_def)
  with assms(1) obtain i where i: "chi_Route chi (map fst table) ''POST'' path = Some i" unfolding chi_ok_def by blast
  with assms(1) have "i < length (map fst table) \<and> fst (map fst table ! i) = ''POST'' \<and> pattern_matches (snd (map fst table ! i)) path"
    unfolding chi_ok_def by blast
  then have r: "i < length table" "fst (fst (table ! i)) = ''POST''" "pattern_matches (snd (fst (table ! i))) path" by auto
  then have mem: "table ! i \<in> set table" by simp
  have get: "fst (fst x) = ''GET''" if "x \<in> set (newRouter pre @ newAPI chi pre)" for x
  proof -
    from assms(1) have "\<And>a b r. r \<in> set (huma_Routes chi a b) \<Longrightarrow> fst r = ''GET''" unfolding chi_ok_def by blast
    with that show ?thesis by (fastforce simp: newRouter_def newAPI_def)
  qed
  have split: "set table = set (newRouter pre @ newAPI chi pre) \<union> insert ((''GET'', healthPath pre), Operation ''get-health'')
      (set (map (\<lambda>(oid, path). ((''POST'', path), Operation oid)) (deployment_ops cl env slug types)))"
    by (auto simp: table route_table_def RegisterHealthHandler_def)
  have "table ! i \<notin> set (newRouter pre @ newAPI chi pre)"
  proof
    assume "table ! i \<in> set (newRouter pre @ newAPI chi pre)"
    from get [OF this] r(2) show False by simp
  qed
  moreover have "table ! i \<noteq> ((''GET'', healthPath pre), Operation ''get-health'')" using r(2) by force
  ultimately have "table ! i \<in> set (map (\<lambda>(oid, path). ((''POST'', path), Operation oid)) (deployment_ops cl env slug types))"
    using mem split by blast
  then obtain oid p where op: "(oid, p) \<in> set (deployment_ops cl env slug types)" "table ! i = ((''POST'', p), Operation oid)" by auto
  then obtain t' e' where t': "t' \<in> set types" "e' \<in> set endpoints" "(oid, p) = op_of cl env slug t' e'"
    by (auto simp: deployment_ops_iff)
  then have p: "p = getVerifierAPIPath cl slug (env_DestinationChainURLSlug env) t' e'" by (simp add: op_of_def)
  with r(3) op(2) api_path_static [OF t'(2)] have "path = p" by simp
  with p path have "getVerifierAPIPath cl slug (env_DestinationChainURLSlug env) t e = getVerifierAPIPath cl slug (env_DestinationChainURLSlug env) t' e'"
    by (simp add: op_of_def)
  from api_path_inj [OF this assms(4) t'(2)] have "att_name cl t = att_name cl t'" "e = e'" by simp_all
  with assms(2,3) t'(1) have "t = t'" by (auto dest: inj_onD)
  with i op(2) t'(3) \<open>e = e'\<close> show ?thesis by (metis fst_conv snd_conv)
qed

lemma operation_reply:
  assumes "StartServer chi files serveOp sv env w = (Inr (srv, closers), w')" and "boot_caches w = (None, None, None, None)"
    and "chi_ok chi" and "inj_on (att_name (sv_config sv)) (set (ServedAttestationTypes env))"
    and "t \<in> set (ServedAttestationTypes env)" and "e \<in> set endpoints"
    and "SourceURLSlug (env_SourceID env) (env_SourceURLSlug env) = Inr slug"
    and "rq_Method r = ''POST''" and "rq_Path r = getVerifierAPIPath (sv_config sv) slug (env_DestinationChainURLSlug env) t e"
    and "secured = h(''X-Frame-Options'' \<mapsto> ''DENY'', ''X-Content-Type-Options'' \<mapsto> ''nosniff'')"
    and "reply = serveOp (getVerifierOperationID (sv_config sv) (env_SourceID env) (env_DestinationChainURLSlug env) t e)
      (r\<lparr>rq_Body := http_MaxBytesReader (rq_Body r) 1048576\<rparr>) secured"
  shows "(rq_APIKey r \<notin> set (env_APIKeys env) \<longrightarrow> srv_Handler srv r h = (secured, OpReply (HTTP_Error 401 ''Unauthorized''))) \<and>
    (rq_APIKey r \<in> set (env_APIKeys env) \<and> snd reply \<noteq> OpReply HTTP_Panic \<longrightarrow> srv_Handler srv r h = reply) \<and>
    (rq_APIKey r \<in> set (env_APIKeys env) \<and> snd reply = OpReply HTTP_Panic \<longrightarrow> snd (srv_Handler srv r h) = OpReply (HTTP_Error 500 ''''))"
proof -
  let ?p = "DeploymentPrefix slug (env_DestinationChainURLSlug env)"
  let ?ops = "fst (RegisterHealthHandler ?p) # deployment_ops (sv_config sv) env slug (ServedAttestationTypes env)"
  let ?r = "r\<lparr>rq_Body := http_MaxBytesReader (rq_Body r) 1048576\<rparr>"
  let ?limited = "requestSizeLimiter maxRequestBodySize (serve_route chi files serveOp (env_APIKeys env) ?p ?ops)"
  obtain i where i: "chi_Route chi (map fst (route_table chi ?p ?ops)) ''POST'' (rq_Path r) = Some i"
    "snd (route_table chi ?p ?ops ! i) = Operation (getVerifierOperationID (sv_config sv) (env_SourceID env) (env_DestinationChainURLSlug env) t e)"
    using route_of_operation [OF assms(3,4,5,6) refl, where path = "rq_Path r" and env = env and slug = slug and pre = ?p] assms(9)
    by (auto simp: op_of_def)
  have out: "?limited r secured =
      (if rq_APIKey r \<in> set (env_APIKeys env) then reply else (secured, OpReply (HTTP_Error 401 ''Unauthorized'')))"
    using i assms(8,9,11) api_path_not_health [OF assms(6), of "sv_config sv" slug "env_DestinationChainURLSlug env" t ?p]
    by (simp add: requestSizeLimiter_def serve_route_def maxRequestBodySize_def auth_iff healthPath_def)
  have h: "srv_Handler srv r h = chi_Recoverer chi ?limited r secured"
    using StartServer_ok [OF assms(1,2)] assms(7,10) by (metis router_ServeHTTP_def newSecurityHandler_def sum.inject(2))
  have rec: "snd (?limited r secured) \<noteq> OpReply HTTP_Panic \<Longrightarrow> srv_Handler srv r h = ?limited r secured"
    using assms(3) unfolding h chi_ok_def by blast
  have panic: "snd (?limited r secured) = OpReply HTTP_Panic \<Longrightarrow> snd (srv_Handler srv r h) = OpReply (HTTP_Error 500 '''')"
    using assms(3) unfolding h chi_ok_def by blast
  show ?thesis using rec panic out by simp
qed


text \<open>
  C35. Every verification endpoint of a running deployment is behind the API key. A POST to the path of a served attestation type's endpoint with a key that is not
  configured is answered 401, whatever its body; with a configured key it reaches the handler of exactly that operation, with a body that is cut off
  at one megabyte; a panic there is answered 500. The protective response headers are set first.
\<close>

theorem operations_require_key:
  assumes "StartServer chi files serveOp sv env w = (Inr (srv, closers), w')" and "boot_caches w = (None, None, None, None)"
    and "chi_ok chi" and "inj_on (att_name (sv_config sv)) (set (ServedAttestationTypes env))"
    and "t \<in> set (ServedAttestationTypes env)" and "e \<in> set endpoints"
    and "SourceURLSlug (env_SourceID env) (env_SourceURLSlug env) = Inr slug"
    and "rq_Method r = ''POST''" and "rq_Path r = getVerifierAPIPath (sv_config sv) slug (env_DestinationChainURLSlug env) t e"
    and "secured = h(''X-Frame-Options'' \<mapsto> ''DENY'', ''X-Content-Type-Options'' \<mapsto> ''nosniff'')"
    and "reply = serveOp (getVerifierOperationID (sv_config sv) (env_SourceID env) (env_DestinationChainURLSlug env) t e)
      (r\<lparr>rq_Body := http_MaxBytesReader (rq_Body r) 1048576\<rparr>) secured"
  shows "(rq_APIKey r \<notin> set (env_APIKeys env) \<longrightarrow> srv_Handler srv r h = (secured, OpReply (HTTP_Error 401 ''Unauthorized''))) \<and>
    (rq_APIKey r \<in> set (env_APIKeys env) \<and> snd reply \<noteq> OpReply HTTP_Panic \<longrightarrow> srv_Handler srv r h = reply) \<and>
    (rq_APIKey r \<in> set (env_APIKeys env) \<and> snd reply = OpReply HTTP_Panic \<longrightarrow> snd (srv_Handler srv r h) = OpReply (HTTP_Error 500 ''''))"
  using assms by (rule operation_reply)

text \<open>Two operations of a deployment never share a path or an operation id, and none is the health operation.\<close>

lemma deployment_ops_distinct:
  assumes "distinct types" and "inj_on (att_name cl) (set types)"
  shows "distinct (map fst (deployment_ops cl env slug types))" and "distinct (map snd (deployment_ops cl env slug types))"
proof -
  have d: "distinct (map g (concat (map (\<lambda>t. map (f t) endpoints) types)))"
    if "\<And>t e t' e'. g (f t e) = g (f t' e') \<Longrightarrow> e \<in> set endpoints \<Longrightarrow> e' \<in> set endpoints \<Longrightarrow> att_name cl t = att_name cl t' \<and> e = e'"
    for g :: "string \<times> string \<Rightarrow> string" and f
    using assms
  proof (induction types)
    case (Cons t types)
    have "distinct (map (g \<circ> f t) endpoints)"
      using that by (auto simp: distinct_map endpoints_def inj_on_def)
    moreover have "g (f t e) \<noteq> g (f t' e')" if "t' \<in> set types" "e \<in> set endpoints" "e' \<in> set endpoints" for t' e e'
      using Cons.prems \<open>\<And>t e t' e'. _ \<Longrightarrow> _ \<Longrightarrow> _ \<Longrightarrow> att_name cl t = att_name cl t' \<and> e = e'\<close> [of t e t' e'] that
      by (auto simp: inj_on_def)
    ultimately show ?case using Cons by (auto simp: comp_def)
  qed simp
  show "distinct (map fst (deployment_ops cl env slug types))"
    unfolding deployment_ops_def by (rule d, unfold op_of_def fst_conv, rule operation_id_inj)
  show "distinct (map snd (deployment_ops cl env slug types))"
    unfolding deployment_ops_def by (rule d, unfold op_of_def snd_conv, rule api_path_inj)
qed

text \<open>The deadlines are nested: the work of a request ends first, then a statement's timeout, then the response deadline.\<close>

lemma deadlines_nested: "verifierWorkTimeout < dbStatementTimeout" "dbStatementTimeout < writeTimeout"
  by (simp_all add: verifierWorkTimeout_def dbStatementTimeout_def writeTimeout_def)

text \<open>A process that starts, serves and stops leaves open what was open before, as long as serving itself does.\<close>

lemma RunServer_releases:
  assumes "pools_ok (sv_env sv)" and "\<And>w. mset (rw_open (serving w)) = mset (rw_open w)"
  shows "mset (rw_open (snd (RunServer chi files serveOp serving sv env w))) = mset (rw_open w)"
proof (cases "SourceURLSlug (env_SourceID env) (env_SourceURLSlug env)")
  case (Inr slug)
  obtain r w' where m: "LoadModule sv env w = (r, w')" by fastforce
  have stop: "ShutdownServer sv cs u = closeAll sv cs u" for cs u by (simp add: ShutdownServer_def closeAll_def)
  show ?thesis
  proof (cases r)
    case (Inl e)
    with m Inr module.failed_start [OF assms(1)] show ?thesis by (auto simp: RunServer_def StartServer_def io_bind_def)
  next
    case ok: (Inr x)
    obtain cs ops where x: "x = (cs, ops)" by (cases x)
    from module.stop_after [OF assms(1) m [unfolded ok x] assms(2)] m ok x Inr show ?thesis
      by (simp add: RunServer_def StartServer_def io_bind_def stop)
  qed
qed (simp add: RunServer_def StartServer_def)

section \<open>A sample deployment\<close>

definition sample_chi :: chi_lib where
  "sample_chi =
     \<lparr>chi_Route = (\<lambda>rs m p. map_option fst (List.find (\<lambda>(i, r). fst r = m \<and> pattern_matches (snd r) p) (enumerate 0 rs))),
      chi_Recoverer = (\<lambda>f r h. case f r h of (h', OpReply HTTP_Panic) \<Rightarrow> (h', OpReply (HTTP_Error 500 '''')) | x \<Rightarrow> x),
      huma_Routes = (\<lambda>openapi schemas. [(''GET'', openapi @ ''.json''), (''GET'', schemas @ ''/*'')]),
      huma_Serve = (\<lambda>r h. (h, NoRoute))\<rparr>"

lemma sample_chi_ok: "chi_ok sample_chi"
proof -
  have route: "i < length rs \<and> fst (rs ! i) = m \<and> pattern_matches (snd (rs ! i)) p"
    if "chi_Route sample_chi rs m p = Some i" for rs m p i
    using that by (auto simp: sample_chi_def find_Some_iff nth_enumerate_eq)
  have "chi_Route sample_chi rs m p \<noteq> None" if "(m, p) \<in> set rs" for rs m p
  proof -
    from that obtain i where "i < length rs" "rs ! i = (m, p)" by (auto simp: in_set_conv_nth)
    then have "(i, m, p) \<in> set (enumerate 0 rs)" by (simp add: in_set_enumerate_eq)
    moreover have "pattern_matches p p"
      by (auto simp: pattern_matches_def HasPrefix_iff intro: prefixeq_butlast)
    ultimately show ?thesis by (auto simp: sample_chi_def find_None_iff)
  qed
  with route show ?thesis
    by (auto simp: chi_ok_def) (auto simp: sample_chi_def split: prod.splits server_reply.splits Handler.http_reply.splits)
qed

definition sample_server_env :: EnvConfig where
  "sample_server_env = sample_env_config\<lparr>env_APIKeys := [''0123456789abcdef'']\<rparr>"

definition sample_server_lib :: "nat service_lib" where
  "sample_server_lib = sample_service_lib\<lparr>sv_NewRelayCaller := \<lambda>_ _. Inr (\<lambda>_ w. (Inr 0, w))\<rparr>"

definition sample_fresh_world :: boot_world where
  "sample_fresh_world = sample_boot_world\<lparr>bw_payment := None, bw_fee := None\<rparr>"

lemma sample_server_config: "\<exists>c. BuildTeeAvailabilityCheckConfig sample_config_lib sample_server_env = Inr c"
  by (simp add: BuildTeeAvailabilityCheckConfig_def sample_config_lib_def sample_env_config_def sample_server_env_def
      SourceTEE_def CheckMissingFields_def env_names parseContractAddress_def parseRelayCutover_def
      strconv_ParseUint10_def decimal_value_def digit_value_def LoadGoogleRootCert_def
      loadGoogleRootCertFromBytes_def sample_x509_def LoadEncodedAndABI_def SourceURLSlug_def
      ValidateDestinationChainURLSlug_def urlSlugPattern_def is_lower_def is_slug_char_def
      EncodeAttestationOrSourceName_def getABIArguments_def parseOptionalBool_def strconv_ParseBool_def)

lemma sample_server_starts:
  "\<exists>srv closers w'. StartServer sample_chi sample_files serveOp sample_server_lib sample_server_env sample_fresh_world = (Inr (srv, closers), w')"
proof -
  obtain c where c: "BuildTeeAvailabilityCheckConfig sample_config_lib sample_server_env = Inr c" using sample_server_config by blast
  have t: "sample_server_env\<lparr>env_AttestationType := AvailabilityCheck\<rparr> = sample_server_env"
    by (simp add: sample_server_env_def sample_env_config_def)
  have "\<exists>slug. SourceURLSlug (env_SourceID sample_server_env) (env_SourceURLSlug sample_server_env) = Inr slug"
    "ServedAttestationTypes sample_server_env = [AvailabilityCheck]" "env_AttestationType sample_server_env = AvailabilityCheck"
    by (simp_all add: sample_server_env_def sample_env_config_def SourceURLSlug_def ServedAttestationTypes_def)
  then obtain slug where slug: "SourceURLSlug (env_SourceID sample_server_env) (env_SourceURLSlug sample_server_env) = Inr slug"
    and types: "ServedAttestationTypes sample_server_env = [AvailabilityCheck]" "env_AttestationType sample_server_env = AvailabilityCheck"
    by blast
  have "sv_NewRelayCaller sample_server_lib a client = Inr (\<lambda>_ w. (Inr 0, w))" "sv_config sample_server_lib = sample_config_lib"
    "be_result (sv_env sample_server_lib) s n = None" "bw_tee sample_fresh_world = None" for a client s n
    by (simp_all add: sample_server_lib_def sample_service_lib_def sample_fresh_world_def sample_boot_world_def)
  note lib = this
  obtain v w1 where v: "NewVerifier (sv_eth sample_server_lib) (sv_crls sample_server_lib) c (sample_fresh_world\<lparr>bw_tee := Some (Inr c)\<rparr>) = (Inr v, w1)"
    by (cases "tc_RelayCutoverContractAddress c = 0") (simp_all add: NewVerifier_def sv_eth_def io_bind_def io_map_error_def acquire_def lib)
  have "NewTeeAvailabilityService sample_server_lib sample_server_env sample_fresh_world = (Inr (v, c), w1)"
    using c v by (simp add: NewTeeAvailabilityService_def LoadTeeAvailabilityCheckConfig_def once_Do_def lib)
  then have "\<exists>cs ops. registerVerifier sample_server_lib (sample_server_env\<lparr>env_AttestationType := AvailabilityCheck\<rparr>) sample_fresh_world =
      (Inr (cs, ops), w1)"
    by (simp add: t registerVerifier_def types io_bind_def)
  then obtain cs ops where "LoadModule sample_server_lib sample_server_env sample_fresh_world = (Inr (cs, ops), w1)"
    using slug types by (auto simp: LoadModule_def)
  with slug show ?thesis by (simp add: StartServer_def io_bind_def)
qed


definition sample_request :: "string \<Rightarrow> api_request" where
  "sample_request key = \<lparr>rq_Method = ''POST'', rq_Path = ''/verifier/tee/flr/t/verify'', rq_APIKey = key, rq_Body = Inr [1]\<rparr>"

definition sample_echo :: "string \<Rightarrow> http_handler" where
  "sample_echo oid r h = (h, OpReply (HTTP_OK (map byte_of_char oid)))"

lemma sample_deployment:
  "boot_caches sample_fresh_world = (None, None, None, None)"
  "inj_on (att_name (sv_config sample_server_lib)) (set (ServedAttestationTypes sample_server_env))"
  "AvailabilityCheck \<in> set (ServedAttestationTypes sample_server_env)"
  "SourceURLSlug (env_SourceID sample_server_env) (env_SourceURLSlug sample_server_env) = Inr ''tee''"
  "rq_Method (sample_request k) = ''POST''"
  "rq_Path (sample_request k) =
     getVerifierAPIPath (sv_config sample_server_lib) ''tee'' (env_DestinationChainURLSlug sample_server_env) AvailabilityCheck ''verify''"
  "rq_APIKey (sample_request k) \<in> set (env_APIKeys sample_server_env) \<longleftrightarrow> k = ''0123456789abcdef''"
  "getVerifierOperationID (sv_config sample_server_lib) (env_SourceID sample_server_env) (env_DestinationChainURLSlug sample_server_env)
     AvailabilityCheck ''verify'' = ''post-tee-flr-t-verify''"
proof -
  have lower: "lower_char (CHR ''T'') = CHR ''t''" "lower_char (CHR ''E'') = CHR ''e''" by code_simp+
  have lib: "att_name (sv_config sample_server_lib) t = ''t''" for t
    by (simp add: sample_server_lib_def sample_service_lib_def sample_config_lib_def)
  have env: "env_APIKeys sample_server_env = [''0123456789abcdef'']" "ServedAttestationTypes sample_server_env = [AvailabilityCheck]"
    "env_SourceID sample_server_env = ''TEE''" "env_DestinationChainURLSlug sample_server_env = ''flr''" "env_SourceURLSlug sample_server_env = []"
    by (simp_all add: sample_server_env_def sample_env_config_def ServedAttestationTypes_def)
  show "boot_caches sample_fresh_world = (None, None, None, None)"
    by (simp add: boot_caches_def sample_fresh_world_def sample_boot_world_def)
  show "inj_on (att_name (sv_config sample_server_lib)) (set (ServedAttestationTypes sample_server_env))"
    "AvailabilityCheck \<in> set (ServedAttestationTypes sample_server_env)" by (simp_all add: env)
  show "SourceURLSlug (env_SourceID sample_server_env) (env_SourceURLSlug sample_server_env) = Inr ''tee''"
    by (simp add: env SourceURLSlug_def lower)
  show "rq_Path (sample_request k) =
     getVerifierAPIPath (sv_config sample_server_lib) ''tee'' (env_DestinationChainURLSlug sample_server_env) AvailabilityCheck ''verify''"
    by (simp add: sample_request_def getVerifierAPIPath_def lib env DeploymentPrefix_def)
  show "rq_Method (sample_request k) = ''POST''"
    "rq_APIKey (sample_request k) \<in> set (env_APIKeys sample_server_env) \<longleftrightarrow> k = ''0123456789abcdef''"
    by (simp_all add: sample_request_def env)
  show "getVerifierOperationID (sv_config sample_server_lib) (env_SourceID sample_server_env) (env_DestinationChainURLSlug sample_server_env)
     AvailabilityCheck ''verify'' = ''post-tee-flr-t-verify''"
    by (simp add: getVerifierOperationID_def lib env lower)
qed

theorem operations_require_key_witness:
  "\<exists>srv closers w'. StartServer sample_chi sample_files sample_echo sample_server_lib sample_server_env sample_fresh_world = (Inr (srv, closers), w') \<and>
     snd (srv_Handler srv (sample_request ''guess'') Map.empty) = OpReply (HTTP_Error 401 ''Unauthorized'') \<and>
     snd (srv_Handler srv (sample_request ''0123456789abcdef'') Map.empty) =
       OpReply (HTTP_OK (map byte_of_char ''post-tee-flr-t-verify''))"
proof -
  obtain srv closers w' where s: "StartServer sample_chi sample_files sample_echo sample_server_lib sample_server_env sample_fresh_world =
      (Inr (srv, closers), w')" using sample_server_starts by blast
  have e: "''verify'' \<in> set endpoints" by (simp add: endpoints_def)
  note key = operations_require_key [where h = Map.empty, OF s sample_deployment(1) sample_chi_ok sample_deployment(2,3) e sample_deployment(4,5,6) refl refl]
  have "snd (srv_Handler srv (sample_request ''guess'') Map.empty) = OpReply (HTTP_Error 401 ''Unauthorized'')"
    by (subst key [THEN conjunct1, rule_format]) (simp_all add: sample_deployment(7))
  moreover have "snd (srv_Handler srv (sample_request ''0123456789abcdef'') Map.empty) =
      OpReply (HTTP_OK (map byte_of_char ''post-tee-flr-t-verify''))"
    by (subst key [THEN conjunct2, THEN conjunct1, rule_format]) (simp_all add: sample_deployment(7,8) sample_echo_def)
  ultimately show ?thesis using s by blast
qed

text \<open>Keys as an operator may write them.\<close>

definition sample_environ :: environ where
  "sample_environ = [EnvPort \<mapsto> ''8080'', EnvSourceID \<mapsto> '' XRP'', EnvAPIKeys \<mapsto> ''0123456789abcdef , ,fedcba9876543210'']"

theorem api_key_exact_witness:
  "\<exists>cfg. LoadEnvConfig (\<lambda>e. (None, e)) sample_environ = (Inr cfg, sample_environ) \<and>
     env_APIKeys cfg = [''0123456789abcdef'', ''fedcba9876543210''] \<and>
     APIKeyAuthMiddleware (env_APIKeys cfg) ''/h'' (sample_echo '''') (sample_request '''') Map.empty =
       (Map.empty, OpReply (HTTP_Error 401 ''Unauthorized''))"
proof -
  have names: "EnvPort = ''PORT''" "EnvSourceID = ''SOURCE_ID''" "EnvAPIKeys = ''API_KEYS''"
    by (simp_all add: EnvPort_def EnvSourceID_def EnvAPIKeys_def)
  have get: "os_Getenv sample_environ EnvPort = ''8080''" "os_Getenv sample_environ EnvSourceID = '' XRP''"
    "os_Getenv sample_environ EnvAPIKeys = ''0123456789abcdef , ,fedcba9876543210''" "os_Getenv sample_environ ''LOAD_DOTENV'' = ''''"
    by (simp_all add: os_Getenv_def sample_environ_def names)
  have keys: "getAPIKeys sample_environ = Inr [''0123456789abcdef'', ''fedcba9876543210'']"
    by (simp add: getAPIKeys_def get strings_TrimSpace_def is_space_def minAPIKeyLength_def Let_def)
  have id: "getEnvOrError sample_environ EnvPort = Inr ''8080''" "getEnvOrError sample_environ EnvSourceID = Inr ''XRP''"
    by (simp_all add: getEnvOrError_def get strings_TrimSpace_def is_space_def Let_def)
  have src: "parseSourceID ''XRP'' = Inr ''XRP''" "\<exists>ts. resolveAttestationTypes ''XRP'' = Inr ts"
    by (simp_all add: parseSourceID_def SourceIDs_def SourceTEE_def SourceXRP_def SourceTestXRP_def resolveAttestationTypes_def
        AttestationTypesForSource_def SourceAttestationTypes_def)
  obtain cfg where cfg: "LoadEnvConfig (\<lambda>e. (None, e)) sample_environ = (Inr cfg, sample_environ)"
    using src by (auto simp: LoadEnvConfig_def get keys id Let_def)
  from LoadEnvConfig_ok(1) [OF cfg] keys have "env_APIKeys cfg = [''0123456789abcdef'', ''fedcba9876543210'']" by simp
  moreover have "APIKeyAuthMiddleware (env_APIKeys cfg) ''/h'' (sample_echo '''') (sample_request '''') Map.empty =
       (Map.empty, OpReply (HTTP_Error 401 ''Unauthorized''))"
    using api_key_exact [OF cfg, of "''/h''" "sample_echo ''''" "sample_request ''''" Map.empty, THEN conjunct2, THEN conjunct2, THEN conjunct2, THEN conjunct2]
    by (simp add: sample_request_def)
  ultimately show ?thesis using cfg by blast
qed

end
