(* ===== verification/Instruction_Ids.thy ===== *)
theory Instruction_Ids
  imports Sample_Lib
begin

text \<open>
  Instruction ids as names: different payments, and the pay and reissue instructions of one payment, never share an id unless
  Keccak-256 collides on their encodings.
\<close>

datatype instruction = PayInstruction hash hash string u64 | ReissueInstruction hash hash string u64 u64

fun instruction_id :: "tee_lib \<Rightarrow> instruction \<Rightarrow> hash result" where
  "instruction_id lib (PayInstruction opType sourceID sender paymentId) =
     GenerateInstructionID lib opType sourceID sender paymentId"
| "instruction_id lib (ReissueInstruction opType sourceID sender paymentId reissue) =
     GenerateReissueInstructionID lib opType sourceID sender paymentId reissue"

fun instruction_values :: "tee_lib \<Rightarrow> instruction \<Rightarrow> abi_value list \<Rightarrow> bool" where
  "instruction_values lib (PayInstruction opType sourceID sender paymentId) vs \<longleftrightarrow>
     (\<exists>h. StringToCommonHash lib (op_string lib Pay) = Inr h \<and>
        vs = [VBytes32 opType, VBytes32 h, VBytes32 sourceID, VString sender, VUint64 paymentId, VUint64 0])"
| "instruction_values lib (ReissueInstruction opType sourceID sender paymentId reissue) vs \<longleftrightarrow>
     (\<exists>h. StringToCommonHash lib (op_string lib Reissue) = Inr h \<and>
        vs = [VBytes32 opType, VBytes32 h, VBytes32 sourceID, VString sender, VUint64 paymentId, VUint64 reissue])"

text \<open>The bytes an instruction is hashed from.\<close>

definition packed :: "tee_lib \<Rightarrow> instruction \<Rightarrow> bytes \<Rightarrow> bool" where
  "packed lib i b \<longleftrightarrow> (\<exists>vs. instruction_values lib i vs \<and> abi_Pack lib instruction_args vs = Inr b)"

lemma instruction_values_type: "instruction_values lib i vs \<Longrightarrow> map abi_value_type vs = instruction_args"
  by (cases i) (auto simp: instruction_args_def)

lemma instruction_id_InrD:
  assumes "instruction_id lib i = Inr h"
  obtains vs b where "instruction_values lib i vs" "abi_Pack lib instruction_args vs = Inr b" "h = Keccak256Hash lib b"
  using assms
  by (cases i) (auto dest!: GenerateInstructionID_InrD GenerateReissueInstructionID_InrD)

lemma instruction_values_inj:
  assumes "commands_distinct lib" and "instruction_values lib i vs" and "instruction_values lib j vs"
  shows "i = j"
  using assms unfolding commands_distinct_def by (cases i; cases j) auto

text \<open>
  C38. Different instructions have different ids: for two instructions that differ in kind, operation type, source, sender, payment or reissue number
  the generated ids differ, or the encodings of these two instructions are a Keccak-256 collision. ABI packing is injective on tuples of the
  instruction's types, and the two command names have different hashes.
\<close>

theorem instruction_ids_distinct:
  assumes "pack_injective lib" and "commands_distinct lib" and "i \<noteq> j"
    and "instruction_id lib i = Inr h" and "instruction_id lib j = Inr k"
  shows "h \<noteq> k \<or> (\<exists>b c. packed lib i b \<and> packed lib j c \<and> keccak_collision lib b c)"
proof (cases "h = k")
  case True
  obtain vs b where i: "instruction_values lib i vs" "abi_Pack lib instruction_args vs = Inr b" "h = Keccak256Hash lib b"
    using assms(4) by (rule instruction_id_InrD)
  obtain ws c where j: "instruction_values lib j ws" "abi_Pack lib instruction_args ws = Inr c" "k = Keccak256Hash lib c"
    using assms(5) by (rule instruction_id_InrD)
  from packed_eq [OF assms(1) instruction_values_type [OF i(1)] instruction_values_type [OF j(1)] i(2) j(2)] i(3) j(3) True
  have "vs = ws \<or> keccak_collision lib b c" by simp
  moreover have "vs \<noteq> ws" using instruction_values_inj [OF assms(2)] i(1) j(1) assms(3) by blast
  ultimately show ?thesis using i(1,2) j(1,2) unfolding packed_def by blast
qed simp

theorem instruction_ids_distinct_witness:
  "\<exists>h k. instruction_id sample_lib (PayInstruction 5 7 ''rS'' 3) = Inr h \<and>
     instruction_id sample_lib (ReissueInstruction 5 7 ''rS'' 3 1) = Inr k \<and>
     (h \<noteq> k \<or> (\<exists>b c. packed sample_lib (PayInstruction 5 7 ''rS'' 3) b \<and>
        packed sample_lib (ReissueInstruction 5 7 ''rS'' 3 1) c \<and> keccak_collision sample_lib b c))"
proof -
  obtain h k where ids: "instruction_id sample_lib (PayInstruction 5 7 ''rS'' 3) = Inr h"
    "instruction_id sample_lib (ReissueInstruction 5 7 ''rS'' 3 1) = Inr k"
    by (simp add: GenerateInstructionID_def GenerateReissueInstructionID_def sample_lib_def instruction_args_def)
  from instruction_ids_distinct [OF sample_pack_injective sample_commands_distinct _ ids] ids show ?thesis by blast
qed

end
