(* ===== verification/Network_Pinning.thy ===== *)
theory Network_Pinning
  imports Multisig
begin

text \<open>
  The network pin of \<open>internal/attestation/pmwmultisigconfigured/xrp/verifier.go\<close> under concurrent requests. One
  \<open>XRPVerifier\<close> serves every request: \<open>lastVerifiedNano\<close> is an atomic integer that each request reads without a lock, and
  \<open>verifyMu\<close> serialises the requests that find it stale (\<open>ensureNetworkVerified\<close>, a double-checked lock).

  A request is a thread whose program counter is one of the atomic actions of \<open>ensureNetworkVerified\<close>, \<open>verifiedFresh\<close> and
  \<open>checkNetwork\<close>; \<open>pin_step\<close> is the effect of one action, \<open>pin_run\<close> interleaves the threads and records
  who did what. The clock may show any time at any reading, and \<open>answers\<close> is the relation of what the node may reply, so
  nothing is assumed of either.
\<close>

section \<open>Threads and their steps\<close>

record pin =
  pn_lastVerifiedNano :: instant
  pn_verifyMu :: "nat option"

datatype pin_thread =
    Entered                    \<comment> \<open>loads \<open>lastVerifiedNano\<close>, no lock held\<close>
  | Loaded instant             \<comment> \<open>reads the clock, no lock held\<close>
  | Waiting                    \<comment> \<open>at \<open>verifyMu.Lock\<close>\<close>
  | Holding                    \<comment> \<open>loads \<open>lastVerifiedNano\<close> again, with the lock\<close>
  | Reloaded instant           \<comment> \<open>reads the clock, with the lock\<close>
  | Probing                    \<comment> \<open>\<open>checkNetwork\<close>: asks the node\<close>
  | Matched                    \<comment> \<open>reads the clock for the new confirmation\<close>
  | Storing instant            \<comment> \<open>stores it\<close>
  | Unlocking "unit result"    \<comment> \<open>the deferred \<open>Unlock\<close>\<close>
  | Finished "unit result"

text \<open>What an action takes from outside: nothing, a clock reading, or the reply to \<open>server_info\<close>.\<close>

datatype pin_input = NoInput | ClockAt instant | NodeSays "u32 option result"

text \<open>How \<open>checkNetwork\<close> classifies a reply: \<open>Inr\<close> when the confirmation is to be stored.\<close>

fun pin_classify :: "u32 \<Rightarrow> u32 option result \<Rightarrow> unit result" where
  "pin_classify expected (Inl err) = Inl err"
| "pin_classify expected (Inr None) = Inl (tag ErrFetchServerInfo)"
| "pin_classify expected (Inr (Some got)) =
     (if got \<noteq> expected then Inl (tag ErrNetworkMismatch) else Inr ())"

definition pin_fresh :: "instant \<Rightarrow> instant \<Rightarrow> bool" where
  "pin_fresh stored now \<longleftrightarrow> now - stored < networkVerifyTTL"

text \<open>One action of thread \<open>i\<close>; \<open>None\<close> when it cannot be taken (a locked mutex, or another kind of input).\<close>

fun pin_step :: "u32 option \<Rightarrow> nat \<Rightarrow> pin \<Rightarrow> pin_thread \<Rightarrow> pin_input \<Rightarrow> (pin \<times> pin_thread) option" where
  "pin_step expected i b Entered NoInput =
     Some (b, if pn_lastVerifiedNano b = 0 then Waiting else Loaded (pn_lastVerifiedNano b))"
| "pin_step expected i b (Loaded stored) (ClockAt now) =
     Some (b, if pin_fresh stored now then Finished (Inr ()) else Waiting)"
| "pin_step expected i b Waiting NoInput =
     (if pn_verifyMu b = None then Some (b\<lparr>pn_verifyMu := Some i\<rparr>, Holding) else None)"
| "pin_step expected i b Holding NoInput =
     Some (b, if pn_lastVerifiedNano b = 0 then Probing else Reloaded (pn_lastVerifiedNano b))"
| "pin_step expected i b (Reloaded stored) (ClockAt now) =
     Some (b, if pin_fresh stored now then Unlocking (Inr ()) else Probing)"
| "pin_step (Some n) i b Probing (NodeSays r) =
     Some (b, case pin_classify n r of Inl err \<Rightarrow> Unlocking (Inl err) | Inr _ \<Rightarrow> Matched)"
| "pin_step None i b Probing NoInput = Some (b, Matched)"
| "pin_step expected i b Matched (ClockAt now) = Some (b, Storing now)"
| "pin_step expected i b (Storing t) NoInput = Some (b\<lparr>pn_lastVerifiedNano := t\<rparr>, Unlocking (Inr ()))"
| "pin_step expected i b (Unlocking r) NoInput = Some (b\<lparr>pn_verifyMu := None\<rparr>, Finished r)"
| "pin_step expected i b th inp = None"

text \<open>
  A run of \<open>k\<close> requests on a verifier in which the start-up probe (\<open>VerifyNetwork\<close>) left \<open>boot\<close>, 0 when it confirmed nothing. The trace, newest
  action first, has the thread, its program counter and the input of every action.
\<close>

type_synonym pin_trace = "(nat \<times> pin_thread \<times> pin_input) list"

fun pin_allowed :: "(u32 option result \<Rightarrow> bool) \<Rightarrow> pin_input \<Rightarrow> bool" where
  "pin_allowed answers (NodeSays r) = answers r"
| "pin_allowed answers _ = True"

inductive pin_run ::
  "u32 option \<Rightarrow> (u32 option result \<Rightarrow> bool) \<Rightarrow> instant \<Rightarrow> nat \<Rightarrow> pin_trace \<Rightarrow> pin \<Rightarrow> pin_thread list \<Rightarrow> bool"
  for expected answers boot k where
  pin_start: "pin_run expected answers boot k [] \<lparr>pn_lastVerifiedNano = boot, pn_verifyMu = None\<rparr> (replicate k Entered)"
| pin_next: "pin_run expected answers boot k tr b ths \<Longrightarrow> i < length ths \<Longrightarrow> pin_allowed answers inp \<Longrightarrow>
     pin_step expected i b (ths ! i) inp = Some (b', th') \<Longrightarrow>
     pin_run expected answers boot k ((i, ths ! i, inp) # tr) b' (ths[i := th'])"

lemma pin_run_length: "pin_run expected answers boot k tr b ths \<Longrightarrow> length ths = k"
  by (induction rule: pin_run.induct) simp_all

section \<open>One request alone\<close>

text \<open>
  A thread that runs alone, with the clock and the node of \<open>Multisig\<close> as its inputs, does what \<open>ensureNetworkVerified\<close> does there.
\<close>

fun solo_input :: "'w xrpl_node \<Rightarrow> u32 option \<Rightarrow> pin_thread \<Rightarrow> 'w \<Rightarrow> pin_input \<times> 'w" where
  "solo_input node expected (Loaded stored) w = (case node_clock node w of (t, w') \<Rightarrow> (ClockAt t, w'))"
| "solo_input node expected (Reloaded stored) w = (case node_clock node w of (t, w') \<Rightarrow> (ClockAt t, w'))"
| "solo_input node expected Matched w = (case node_clock node w of (t, w') \<Rightarrow> (ClockAt t, w'))"
| "solo_input node (Some n) Probing w = (case Client_NetworkID node w of (r, w') \<Rightarrow> (NodeSays r, w'))"
| "solo_input node expected th w = (NoInput, w)"

fun solo_step :: "'w xrpl_node \<Rightarrow> u32 option \<Rightarrow> pin \<times> pin_thread \<times> 'w \<Rightarrow> pin \<times> pin_thread \<times> 'w" where
  "solo_step node expected (b, th, w) =
     (case solo_input node expected th w of
        (inp, w') \<Rightarrow> (case pin_step expected 0 b th inp of
                         None \<Rightarrow> (b, th, w)
                       | Some (b', th') \<Rightarrow> (b', th', w')))"

abbreviation pin_idle :: "instant \<Rightarrow> pin" where
  "pin_idle t \<equiv> \<lparr>pn_lastVerifiedNano = t, pn_verifyMu = None\<rparr>"

abbreviation pin_held :: "instant \<Rightarrow> pin" where
  "pin_held t \<equiv> \<lparr>pn_lastVerifiedNano = t, pn_verifyMu = Some 0\<rparr>"

lemma solo_Suc: "(solo_step node expected ^^ Suc m) x = (solo_step node expected ^^ m) (solo_step node expected x)"
  by (simp add: funpow_swap1)

lemma solo_finished [simp]: "(solo_step node expected ^^ m) (b, Finished r, w) = (b, Finished r, w)"
  by (induction m) simp_all

text \<open>The part below the lock, from the probe on: four steps.\<close>

lemma solo_probe:
  assumes "checkNetwork node cfg s = (r, s')"
  shows "(solo_step node (expectedNetworkID (enc_SourceID (mc_enc cfg))) ^^ Suc (Suc (Suc (Suc m))))
      (pin_held (ms_lastVerifiedNano s), Probing, ms_world s) = (pin_idle (ms_lastVerifiedNano s'), Finished r, ms_world s')"
proof -
  obtain a w where a: "Client_NetworkID node (ms_world s) = (a, w)" by (cases "Client_NetworkID node (ms_world s)") blast
  obtain t v where t: "node_clock node (ms_world s) = (t, v)" by (cases "node_clock node (ms_world s)") blast
  obtain t' v' where t': "node_clock node w = (t', v')" by (cases "node_clock node w") blast
  show ?thesis
  proof (cases "expectedNetworkID (enc_SourceID (mc_enc cfg))")
    case None
    with assms t have "r = Inr ()" "s' = s\<lparr>ms_world := v, ms_lastVerifiedNano := t\<rparr>"
      by (auto simp: checkNetwork_def store_now_eq)
    with None t show ?thesis unfolding solo_Suc by simp
  next
    case (Some n)
    show ?thesis
    proof (cases "pin_classify n a")
      case (Inl err)
      with assms Some a have "r = Inl err" "s' = s\<lparr>ms_world := w\<rparr>"
        by (auto simp: checkNetwork_def ms_NetworkID_def io_bind_def split: sum.splits option.splits if_splits prod.splits elim!: pin_classify.elims)
      with Some a Inl show ?thesis unfolding solo_Suc by simp
    next
      case (Inr u)
      then have "a = Inr (Some n)" by (auto elim!: pin_classify.elims split: if_splits)
      with assms Some a t' have "r = Inr ()" "s' = s\<lparr>ms_world := v', ms_lastVerifiedNano := t'\<rparr>"
        by (auto simp: checkNetwork_def ms_NetworkID_def io_bind_def store_now_eq)
      with Some a t' \<open>a = Inr (Some n)\<close> show ?thesis unfolding solo_Suc by simp
    qed
  qed
qed

lemma verifiedFresh_eq:
  "node_clock node (ms_world s) = (t, w) \<Longrightarrow>
     verifiedFresh node s =
       (if ms_lastVerifiedNano s = 0 then (Inr False, s)
        else (Inr (pin_fresh (ms_lastVerifiedNano s) t), s\<lparr>ms_world := w\<rparr>))"
  by (simp add: verifiedFresh_def ms_clock_def io_bind_def pin_fresh_def Let_def)

lemma solo_refines:
  assumes "ensureNetworkVerified node cfg s = (r, s')"
  shows "(solo_step node (expectedNetworkID (enc_SourceID (mc_enc cfg))) ^^ 9)
      (pin_idle (ms_lastVerifiedNano s), Entered, ms_world s) = (pin_idle (ms_lastVerifiedNano s'), Finished r, ms_world s')"
proof -
  let ?last = "ms_lastVerifiedNano s"
  obtain t1 w1 where 1: "node_clock node (ms_world s) = (t1, w1)" by (cases "node_clock node (ms_world s)") blast
  obtain t2 w2 where 2: "node_clock node w1 = (t2, w2)" by (cases "node_clock node w1") blast
  have nine: "9 = Suc (Suc (Suc (Suc (Suc (Suc (Suc (Suc (Suc 0))))))))" by simp
  consider (never) "?last = 0" "checkNetwork node cfg s = (r, s')"
    | (first) "?last \<noteq> 0" "pin_fresh ?last t1" "r = Inr ()" "s' = s\<lparr>ms_world := w1\<rparr>"
    | (second) "?last \<noteq> 0" "\<not> pin_fresh ?last t1" "pin_fresh ?last t2" "r = Inr ()" "s' = s\<lparr>ms_world := w2\<rparr>"
    | (stale) "?last \<noteq> 0" "\<not> pin_fresh ?last t1" "\<not> pin_fresh ?last t2" "checkNetwork node cfg (s\<lparr>ms_world := w2\<rparr>) = (r, s')"
    using assms 1 2 verifiedFresh_eq [OF 1] verifiedFresh_eq [of node "s\<lparr>ms_world := w1\<rparr>" t2 w2]
    by (simp add: ensureNetworkVerified_def io_bind_def split: if_splits)
  then show ?thesis
  proof cases
    case never
    then show ?thesis
      using solo_probe [OF never(2), of "Suc (Suc 0)"] unfolding nine by (simp add: solo_Suc del: funpow.simps(2))
  next
    case first
    then show ?thesis unfolding nine solo_Suc by (simp add: 1)
  next
    case second
    then show ?thesis unfolding nine solo_Suc by (simp add: 1 2)
  next
    case stale
    then show ?thesis
      using solo_probe [OF stale(4), of 0] 1 2 unfolding nine by (simp add: solo_Suc del: funpow.simps(2))
  qed
qed

text \<open>
  What the start-up probe leaves: no confirmation, or the time read after the node reported the network of the source. This is the \<open>boot\<close> of a run.
\<close>

lemma boot_confirmation:
  assumes "VerifyNetwork node cfg s = (r, s')" and "ms_lastVerifiedNano s = 0" and "expectedNetworkID (enc_SourceID (mc_enc cfg)) = Some n"
  shows "ms_lastVerifiedNano s' = 0 \<or>
    (\<exists>w t w'. Client_NetworkID node (ms_world s) = (Inr (Some n), w) \<and> node_clock node w = (t, w') \<and> ms_lastVerifiedNano s' = t)"
proof -
  obtain a t where a: "checkNetwork node cfg s = (a, t)" by (cases "checkNetwork node cfg s") blast
  with assms(1) have s': "s' = t" by (auto simp: VerifyNetwork_def split: sum.splits if_splits)
  show ?thesis
  proof (cases a)
    case (Inl e)
    with checkNetwork_facts(2) [OF a] assms(2,3) show ?thesis by (simp add: s')
  next
    case (Inr u)
    with checkNetwork_asked [of node cfg s u t n] a assms(3) show ?thesis by (simp add: s')
  qed
qed

section \<open>What a trace shows\<close>

fun in_section :: "pin_thread \<Rightarrow> bool" where
  "in_section Entered = False"
| "in_section (Loaded _) = False"
| "in_section Waiting = False"
| "in_section (Finished _) = False"
| "in_section _ = True"

text \<open>The confirmation that is recorded after a trace.\<close>

fun latest :: "instant \<Rightarrow> pin_trace \<Rightarrow> instant" where
  "latest boot [] = boot"
| "latest boot ((i, th, inp) # tr) = (case th of Storing t \<Rightarrow> t | _ \<Rightarrow> latest boot tr)"

text \<open>Thread \<open>i\<close> asked the node and got the network of the source; vacuous for a source without an XRPL network.\<close>

definition asked :: "u32 option \<Rightarrow> pin_trace \<Rightarrow> nat \<Rightarrow> bool" where
  "asked expected tr i \<longleftrightarrow> (\<forall>n. expected = Some n \<longrightarrow> (i, Probing, NodeSays (Inr (Some n))) \<in> set tr)"

text \<open>A time is a confirmation: the one of the start, or stored by a thread that asked the node before it read this time.\<close>

definition confirmed_in :: "u32 option \<Rightarrow> instant \<Rightarrow> pin_trace \<Rightarrow> instant \<Rightarrow> bool" where
  "confirmed_in expected boot tr t \<longleftrightarrow>
     t = boot \<or> (\<exists>j. (j, Storing t, NoInput) \<in> set tr \<and> (j, Matched, ClockAt t) \<in> set tr \<and> asked expected tr j)"

text \<open>Thread \<open>i\<close> saw, at its own reading of the clock, a confirmation of the past that was younger than its time-to-live.\<close>

definition read_fresh :: "u32 option \<Rightarrow> instant \<Rightarrow> pin_trace \<Rightarrow> nat \<Rightarrow> bool" where
  "read_fresh expected boot tr i \<longleftrightarrow>
     (\<exists>later th now before t. tr = later @ (i, th, ClockAt now) # before \<and> th \<in> {Loaded t, Reloaded t} \<and>
        t \<noteq> 0 \<and> now - t < networkVerifyTTL \<and> confirmed_in expected boot before t)"

text \<open>Why a request ends as it does: it passes on a fresh confirmation, its own included, and fails on the reply to its own probe.\<close>

fun outcome_ok :: "u32 option \<Rightarrow> instant \<Rightarrow> pin_trace \<Rightarrow> nat \<Rightarrow> unit result \<Rightarrow> bool" where
  "outcome_ok expected boot tr i (Inr _) \<longleftrightarrow>
     read_fresh expected boot tr i \<or>
     (\<exists>t. (i, Storing t, NoInput) \<in> set tr \<and> (i, Matched, ClockAt t) \<in> set tr \<and> asked expected tr i)"
| "outcome_ok expected boot tr i (Inl err) \<longleftrightarrow>
     (\<exists>n r. expected = Some n \<and> (i, Probing, NodeSays r) \<in> set tr \<and> pin_classify n r = Inl err)"

text \<open>The node is asked only by a thread that found, with the lock held, no confirmation or a stale one.\<close>

definition stale_below_lock :: "instant \<Rightarrow> pin_trace \<Rightarrow> nat \<Rightarrow> bool" where
  "stale_below_lock recorded tr i \<longleftrightarrow>
     recorded = 0 \<or> (\<exists>now. (i, Reloaded recorded, ClockAt now) \<in> set tr \<and> \<not> now - recorded < networkVerifyTTL)"

definition probes_needed :: "instant \<Rightarrow> pin_trace \<Rightarrow> bool" where
  "probes_needed boot tr \<longleftrightarrow>
     (\<forall>later i inp before. tr = later @ (i, Probing, inp) # before \<longrightarrow>
        stale_below_lock (latest boot before) before i)"

section \<open>The invariant\<close>

fun pin_thread_inv :: "u32 option \<Rightarrow> instant \<Rightarrow> pin_trace \<Rightarrow> instant \<Rightarrow> nat \<Rightarrow> pin_thread \<Rightarrow> bool" where
  "pin_thread_inv expected boot tr recorded i (Loaded t) \<longleftrightarrow> t \<noteq> 0 \<and> confirmed_in expected boot tr t"
| "pin_thread_inv expected boot tr recorded i (Reloaded t) \<longleftrightarrow> t \<noteq> 0 \<and> t = recorded"
| "pin_thread_inv expected boot tr recorded i Probing \<longleftrightarrow> stale_below_lock recorded tr i"
| "pin_thread_inv expected boot tr recorded i Matched \<longleftrightarrow> asked expected tr i"
| "pin_thread_inv expected boot tr recorded i (Storing t) \<longleftrightarrow> asked expected tr i \<and> (i, Matched, ClockAt t) \<in> set tr"
| "pin_thread_inv expected boot tr recorded i (Unlocking r) \<longleftrightarrow> outcome_ok expected boot tr i r"
| "pin_thread_inv expected boot tr recorded i (Finished r) \<longleftrightarrow> outcome_ok expected boot tr i r"
| "pin_thread_inv expected boot tr recorded i _ \<longleftrightarrow> True"

definition pin_inv :: "u32 option \<Rightarrow> instant \<Rightarrow> pin_trace \<Rightarrow> pin \<Rightarrow> pin_thread list \<Rightarrow> bool" where
  "pin_inv expected boot tr b ths \<longleftrightarrow>
     (\<forall>i < length ths. in_section (ths ! i) \<longleftrightarrow> pn_verifyMu b = Some i) \<and>
     (\<forall>i. pn_verifyMu b = Some i \<longrightarrow> i < length ths) \<and>
     pn_lastVerifiedNano b = latest boot tr \<and> confirmed_in expected boot tr (latest boot tr) \<and>
     (\<forall>i < length ths. pin_thread_inv expected boot tr (latest boot tr) i (ths ! i)) \<and> probes_needed boot tr"

text \<open>Facts about a trace survive further actions.\<close>

lemma trace_mono:
  "asked expected tr i \<Longrightarrow> asked expected (e # tr) i"
  "confirmed_in expected boot tr t \<Longrightarrow> confirmed_in expected boot (e # tr) t"
  "read_fresh expected boot tr i \<Longrightarrow> read_fresh expected boot (e # tr) i"
  "stale_below_lock recorded tr i \<Longrightarrow> stale_below_lock recorded (e # tr) i"
proof -
  show "asked expected (e # tr) i" if "asked expected tr i" for i using that by (auto simp: asked_def)
  then show "confirmed_in expected boot (e # tr) t" if "confirmed_in expected boot tr t"
    using that by (auto simp: confirmed_in_def)
  show "read_fresh expected boot (e # tr) i" if "read_fresh expected boot tr i"
    using that unfolding read_fresh_def by (metis append_Cons)
  show "stale_below_lock recorded (e # tr) i" if "stale_below_lock recorded tr i"
    using that by (auto simp: stale_below_lock_def)
qed

lemma outcome_mono: "outcome_ok expected boot tr i r \<Longrightarrow> outcome_ok expected boot (e # tr) i r"
  by (cases r) (auto dest: trace_mono(1,3) [where e = e])

lemma thread_inv_mono:
  assumes "pin_thread_inv expected boot tr recorded i th" and "in_section th \<longrightarrow> recorded' = recorded"
  shows "pin_thread_inv expected boot (e # tr) recorded' i th"
  using assms by (cases th) (auto dest: trace_mono [where e = e] outcome_mono [where e = e])

text \<open>What one action establishes for the thread that takes it, and what it does to the shared state.\<close>

lemma pin_classify_Inr: "pin_classify n r = Inr u \<longleftrightarrow> r = Inr (Some n)"
  by (cases "(n, r)" rule: pin_classify.cases) auto

lemma read_freshI:
  assumes "th = Loaded t \<or> th = Reloaded t" and "t \<noteq> 0" and "pin_fresh t now" and "confirmed_in expected boot tr t"
  shows "read_fresh expected boot ((i, th, ClockAt now) # tr) i"
  unfolding read_fresh_def
  by (rule exI [of _ "[]"], rule exI [of _ th], rule exI [of _ now], rule exI [of _ tr], rule exI [of _ t])
     (use assms in \<open>auto simp: pin_fresh_def\<close>)

lemma pin_step_shared:
  assumes step: "pin_step expected i b th inp = Some (b', th')" and mutex: "in_section th \<longleftrightarrow> pn_verifyMu b = Some i"
  shows "in_section th' \<longleftrightarrow> pn_verifyMu b' = Some i"
    and "pn_verifyMu b' = pn_verifyMu b \<or> pn_verifyMu b = None \<and> pn_verifyMu b' = Some i \<or>
      pn_verifyMu b = Some i \<and> pn_verifyMu b' = None"
    and "pn_lastVerifiedNano b = latest boot tr \<Longrightarrow> pn_lastVerifiedNano b' = latest boot ((i, th, inp) # tr)"
    and "latest boot ((i, th, inp) # tr) = latest boot tr \<or> in_section th"
proof -
  show "in_section th' \<longleftrightarrow> pn_verifyMu b' = Some i"
    using step mutex by (cases "(expected, i, b, th, inp)" rule: pin_step.cases) (auto split: if_splits sum.splits)
  show "pn_verifyMu b' = pn_verifyMu b \<or> pn_verifyMu b = None \<and> pn_verifyMu b' = Some i \<or>
      pn_verifyMu b = Some i \<and> pn_verifyMu b' = None"
    using step mutex by (cases "(expected, i, b, th, inp)" rule: pin_step.cases) (auto split: if_splits)
  show "pn_lastVerifiedNano b' = latest boot ((i, th, inp) # tr)" if "pn_lastVerifiedNano b = latest boot tr"
    using step that by (cases "(expected, i, b, th, inp)" rule: pin_step.cases) (auto split: if_splits)
  show "latest boot ((i, th, inp) # tr) = latest boot tr \<or> in_section th" by (cases th) auto
qed

lemma pin_step_confirmed:
  assumes "pin_step expected i b th inp = Some (b', th')" and "pin_thread_inv expected boot tr (latest boot tr) i th"
    and "confirmed_in expected boot tr (latest boot tr)"
  shows "confirmed_in expected boot ((i, th, inp) # tr) (latest boot ((i, th, inp) # tr))"
proof (cases "\<exists>t. th = Storing t")
  case True
  then obtain t where t: "th = Storing t" by blast
  with assms(1) have "inp = NoInput" by (cases inp) auto
  with t assms(2) trace_mono(1) [of expected tr i "(i, th, inp)"] show ?thesis by (auto simp: confirmed_in_def)
next
  case False
  then have "latest boot ((i, th, inp) # tr) = latest boot tr" by (cases th) auto
  with trace_mono(2) [OF assms(3)] show ?thesis by simp
qed

lemma pin_step_thread:
  assumes step: "pin_step expected i b th inp = Some (b', th')"
    and inv: "pin_thread_inv expected boot tr (latest boot tr) i th"
    and last: "pn_lastVerifiedNano b = latest boot tr" and conf: "confirmed_in expected boot tr (latest boot tr)"
  shows "pin_thread_inv expected boot ((i, th, inp) # tr) (latest boot ((i, th, inp) # tr)) i th'"
proof (cases "(expected, i, b, th, inp)" rule: pin_step.cases)
  case 1
  with step last trace_mono(2) [OF conf] show ?thesis by (auto split: if_splits)
next
  case (2 _ _ _ t now)
  with step inv show ?thesis by (auto intro!: read_freshI split: if_splits)
next
  case 4
  with step last show ?thesis by (auto simp: stale_below_lock_def split: if_splits)
next
  case (5 _ _ _ t now)
  with step inv conf show ?thesis
    by (auto simp: stale_below_lock_def pin_fresh_def [symmetric] intro!: read_freshI split: if_splits)
next
  case (6 n _ _ r)
  with step show ?thesis by (cases "pin_classify n r") (auto simp: asked_def pin_classify_Inr)
next
  case 10
  with step inv outcome_mono show ?thesis by auto
qed (use step inv in \<open>auto simp: asked_def split: if_splits\<close>)

lemma pin_run_inv: "pin_run expected answers boot k tr b ths \<Longrightarrow> pin_inv expected boot tr b ths"
proof (induction rule: pin_run.induct)
  case pin_start
  show ?case by (simp add: pin_inv_def confirmed_in_def probes_needed_def)
next
  case (pin_next tr b ths i inp b' th')
  let ?tr = "(i, ths ! i, inp) # tr"
  from pin_next.IH pin_next.hyps(2) have I: "in_section (ths ! i) \<longleftrightarrow> pn_verifyMu b = Some i"
    "pn_lastVerifiedNano b = latest boot tr" "confirmed_in expected boot tr (latest boot tr)"
    "pin_thread_inv expected boot tr (latest boot tr) i (ths ! i)" "probes_needed boot tr"
    by (auto simp: pin_inv_def)
  note F = pin_step_shared [OF pin_next.hyps(4) I(1)]
  have others: "in_section (ths ! j) \<longleftrightarrow> pn_verifyMu b' = Some j" if "j < length ths" "j \<noteq> i" for j
    using pin_next.IH that F(2) by (auto simp: pin_inv_def)
  have keep: "pin_thread_inv expected boot ?tr (latest boot ?tr) j (ths ! j)" if "j < length ths" "j \<noteq> i" for j
  proof (rule thread_inv_mono)
    show "pin_thread_inv expected boot tr (latest boot tr) j (ths ! j)" using pin_next.IH that by (simp add: pin_inv_def)
    show "in_section (ths ! j) \<longrightarrow> latest boot ?tr = latest boot tr"
      using pin_next.IH that F(4) I(1) by (auto simp: pin_inv_def)
  qed
  have "confirmed_in expected boot ?tr (latest boot ?tr)" "pin_thread_inv expected boot ?tr (latest boot ?tr) i th'"
    using pin_step_confirmed [OF pin_next.hyps(4) I(4,3)] pin_step_thread [OF pin_next.hyps(4) I(4,2,3)] by blast+
  moreover have "probes_needed boot ?tr"
    unfolding probes_needed_def
  proof (intro allI impI)
    fix later j inp' before assume "?tr = later @ (j, Probing, inp') # before"
    then consider "later = []" "j = i" "ths ! i = Probing" "before = tr" | later' where "tr = later' @ (j, Probing, inp') # before"
      by (cases later) auto
    then show "stale_below_lock (latest boot before) before j"
      using I(4,5) by cases (auto simp: probes_needed_def)
  qed
  moreover have "pn_verifyMu b' = Some j \<Longrightarrow> j < length ths" for j
    using pin_next.IH pin_next.hyps(2) F(2) by (auto simp: pin_inv_def)
  ultimately show ?case
    using F(1) F(3) [OF I(2)] others keep pin_next.hyps(2) by (auto simp: pin_inv_def nth_list_update)
qed

section \<open>Progress\<close>

text \<open>The number of actions a thread has left at most.\<close>

fun pin_rank :: "pin_thread \<Rightarrow> nat" where
  "pin_rank Entered = 9"
| "pin_rank (Loaded _) = 8"
| "pin_rank Waiting = 7"
| "pin_rank Holding = 6"
| "pin_rank (Reloaded _) = 5"
| "pin_rank Probing = 4"
| "pin_rank Matched = 3"
| "pin_rank (Storing _) = 2"
| "pin_rank (Unlocking _) = 1"
| "pin_rank (Finished _) = 0"

lemma pin_step_rank: "pin_step expected i b th inp = Some (b', th') \<Longrightarrow> pin_rank th' < pin_rank th"
  by (cases "(expected, i, b, th, inp)" rule: pin_step.cases) (auto split: if_splits sum.splits)

lemma sum_update_less:
  assumes "i < length xs" and "f y < f (xs ! i)"
  shows "sum_list (map f (xs[i := y])) < (sum_list (map f xs) :: nat)"
  using assms by (induction xs arbitrary: i) (auto split: nat.splits)

lemma pin_run_bounded:
  "pin_run expected answers boot k tr b ths \<Longrightarrow> length tr + sum_list (map pin_rank ths) \<le> 9 * k"
proof (induction rule: pin_run.induct)
  case pin_start
  show ?case by (simp add: sum_list_replicate)
next
  case (pin_next tr b ths i inp b' th')
  from sum_update_less [OF pin_next.hyps(2) pin_step_rank [OF pin_next.hyps(4)]] pin_next.IH show ?case by simp
qed

lemma pin_step_enabled:
  assumes "pin_rank th \<noteq> 0" and "th = Waiting \<Longrightarrow> pn_verifyMu b = None" and "answers r"
  shows "\<exists>inp b' th'. pin_allowed answers inp \<and> pin_step expected i b th inp = Some (b', th')"
proof -
  have clock: "pin_allowed answers (ClockAt 0)" and none: "pin_allowed answers NoInput" and
    says: "pin_allowed answers (NodeSays r)" using assms(3) by simp_all
  show ?thesis
  proof (cases th)
    case Probing
    then show ?thesis using none says by (cases expected) fastforce+
  qed (use assms(1,2) clock none in fastforce)+
qed

text \<open>As long as a request is pending some request can act: the holder of the lock never waits, and without a holder nobody does.\<close>

lemma pin_progress:
  assumes run: "pin_run expected answers boot k tr b ths" and "i < k" and "pin_rank (ths ! i) \<noteq> 0" and "answers r"
  shows "\<exists>j inp b' th'. j < k \<and> pin_allowed answers inp \<and> pin_step expected j b (ths ! j) inp = Some (b', th')"
proof (cases "pn_verifyMu b")
  case None
  then show ?thesis using pin_step_enabled [of "ths ! i" b answers r expected i] assms(2-4) by blast
next
  case (Some j)
  with pin_run_inv [OF run] pin_run_length [OF run] have "j < k" and sec: "in_section (ths ! j)"
    by (auto simp: pin_inv_def)
  moreover from sec have "pin_rank (ths ! j) \<noteq> 0" "ths ! j \<noteq> Waiting" by (cases "ths ! j"; simp)+
  ultimately show ?thesis using pin_step_enabled [of "ths ! j" b answers r expected j] assms(4) by blast
qed

lemma pin_completes:
  assumes "pin_run expected answers boot k tr b ths" and "answers r"
  shows "\<exists>more b' ths'. pin_run expected answers boot k (more @ tr) b' ths' \<and> (\<forall>i < k. pin_rank (ths' ! i) = 0)"
  using assms(1)
proof (induction "sum_list (map pin_rank ths)" arbitrary: tr b ths rule: less_induct)
  case less
  show ?case
  proof (cases "\<forall>i < k. pin_rank (ths ! i) = 0")
    case True
    with less.prems show ?thesis by (metis append_Nil)
  next
    case False
    then obtain j inp b' th' where j: "j < k" "pin_allowed answers inp" "pin_step expected j b (ths ! j) inp = Some (b', th')"
      using pin_progress [OF less.prems _ _ assms(2)] by blast
    then have len: "j < length ths" using pin_run_length [OF less.prems] by simp
    note run = pin_next [OF less.prems len j(2,3)]
    from less.hyps [OF sum_update_less [OF len pin_step_rank [OF j(3)]] run]
    show ?thesis by (metis append.assoc append_Cons append_Nil)
  qed
qed

section \<open>Properties\<close>

text \<open>All readings of the clock in a trace lie within one time-to-live, after the epoch.\<close>

definition readings_close :: "instant \<Rightarrow> pin_trace \<Rightarrow> bool" where
  "readings_close start tr \<longleftrightarrow> 0 < start \<and>
     (\<forall>i th now. (i, th, ClockAt now) \<in> set tr \<longrightarrow> start \<le> now \<and> now < start + networkVerifyTTL)"

lemma latest_cons: "(\<exists>t. th = Storing t \<and> latest boot ((i, th, inp) # tr) = t) \<or>
    (\<forall>t. th \<noteq> Storing t) \<and> latest boot ((i, th, inp) # tr) = latest boot tr"
  by (cases th) simp_all

lemma latest_after_store:
  "(j, Storing t, inp) \<in> set tr \<Longrightarrow> \<exists>i inp'. (i, Storing (latest boot tr), inp') \<in> set tr"
proof (induction tr)
  case (Cons e tr)
  obtain i th inp' where e: "e = (i, th, inp')" by (cases e) auto
  from latest_cons [of th boot i inp' tr] Cons show ?case unfolding e by fastforce
qed simp

lemma stored_reading:
  "pin_run expected answers boot k tr b ths \<Longrightarrow> (j, Storing t, inp) \<in> set tr \<Longrightarrow> \<exists>th. (j, th, ClockAt t) \<in> set tr"
proof (induction rule: pin_run.induct)
  case (pin_next tr b ths i inp' b' th')
  from pin_run_inv [OF pin_next.hyps(1)] pin_next.hyps(2)
  have "pin_thread_inv expected boot tr (latest boot tr) i (ths ! i)" by (simp add: pin_inv_def)
  then have "\<exists>th. (i, th, ClockAt t) \<in> set tr" if "ths ! i = Storing t" using that by auto
  with pin_next.prems pin_next.IH show ?case by (auto dest: sym)
qed simp

text \<open>When every clock reading is close to the others, nobody asks the node again once a confirmation is stored.\<close>

lemma single_flight:
  assumes run: "pin_run expected answers boot k tr b ths" and close: "readings_close start tr"
    and split: "tr = later @ (j, Storing t, inp) # before"
  shows "(i, Probing, inp') \<notin> set later"
proof
  assume "(i, Probing, inp') \<in> set later"
  then obtain p q where later: "later = p @ (i, Probing, inp') # q" by (meson split_list)
  let ?q = "q @ (j, Storing t, inp) # before"
  have tr: "tr = p @ (i, Probing, inp') # ?q" using split later by simp
  have "probes_needed boot tr" using pin_run_inv [OF run] by (simp add: pin_inv_def)
  then have stale: "stale_below_lock (latest boot ?q) ?q i" unfolding tr probes_needed_def by blast
  obtain i' inp'' where t': "(i', Storing (latest boot ?q), inp'') \<in> set ?q"
    using latest_after_store [of j t inp ?q boot] by auto
  have sub: "set ?q \<subseteq> set tr" unfolding tr by auto
  with stored_reading [OF run, of i' "latest boot ?q" inp''] t' close have win: "start \<le> latest boot ?q" "0 < start"
    unfolding readings_close_def by blast+
  with stale obtain now where "(i, Reloaded (latest boot ?q), ClockAt now) \<in> set ?q" "\<not> now - latest boot ?q < networkVerifyTTL"
    by (auto simp: stale_below_lock_def)
  with sub close win show False unfolding readings_close_def by force
qed

text \<open>A schedule, the next thread and its input each time, executed from a state; \<open>None\<close> when an action cannot be taken.\<close>

fun pin_exec ::
  "u32 option \<Rightarrow> (nat \<times> pin_input) list \<Rightarrow> pin_trace \<times> pin \<times> pin_thread list \<Rightarrow> (pin_trace \<times> pin \<times> pin_thread list) option" where
  "pin_exec expected [] st = Some st"
| "pin_exec expected ((i, inp) # sched) (tr, b, ths) =
     (if i < length ths then
        (case pin_step expected i b (ths ! i) inp of
           None \<Rightarrow> None
         | Some (b', th') \<Rightarrow> pin_exec expected sched ((i, ths ! i, inp) # tr, b', ths[i := th']))
      else None)"

lemma pin_exec_run:
  assumes "pin_exec expected sched (tr, b, ths) = Some (tr', b', ths')" and "pin_run expected answers boot k tr b ths"
    and "list_all (pin_allowed answers \<circ> snd) sched"
  shows "pin_run expected answers boot k tr' b' ths'"
  using assms
proof (induction expected sched "(tr, b, ths)" arbitrary: tr b ths rule: pin_exec.induct)
  case (2 expected i inp sched tr b ths)
  from "2.prems"(1) obtain b1 th1 where s: "i < length ths" "pin_step expected i b (ths ! i) inp = Some (b1, th1)"
    "pin_exec expected sched ((i, ths ! i, inp) # tr, b1, ths[i := th1]) = Some (tr', b', ths')"
    by (auto split: if_splits option.splits)
  moreover from "2.prems"(2,3) s have "pin_run expected answers boot k ((i, ths ! i, inp) # tr) b1 (ths[i := th1])"
    by (auto intro: pin_next)
  ultimately show ?case using "2.hyps" "2.prems"(3) by simp
qed simp

text \<open>
  Two requests on a fresh verifier for \<open>testXRP\<close>: both find no confirmation, the first takes the lock, asks the node and stores, the second
  then takes the lock and passes on the stored confirmation without asking.
\<close>

definition sample_schedule :: "(nat \<times> pin_input) list" where
  "sample_schedule = [(0, NoInput), (1, NoInput), (0, NoInput), (0, NoInput), (0, NodeSays (Inr (Some 1))), (0, ClockAt 1000), (0, NoInput),
     (0, NoInput), (1, NoInput), (1, NoInput), (1, ClockAt 1001), (1, NoInput)]"

definition sample_trace :: pin_trace where
  "sample_trace = [(1, Unlocking (Inr ()), NoInput), (1, Reloaded 1000, ClockAt 1001), (1, Holding, NoInput), (1, Waiting, NoInput),
     (0, Unlocking (Inr ()), NoInput), (0, Storing 1000, NoInput), (0, Matched, ClockAt 1000), (0, Probing, NodeSays (Inr (Some 1))),
     (0, Holding, NoInput), (0, Waiting, NoInput), (1, Entered, NoInput), (0, Entered, NoInput)]"

lemma sample_pin_run:
  "pin_run (Some 1) (\<lambda>r. r = Inr (Some 1)) 0 2 sample_trace (pin_idle 1000) [Finished (Inr ()), Finished (Inr ())]"
proof (rule pin_exec_run)
  show "pin_exec (Some 1) sample_schedule ([], pin_idle 0, replicate 2 Entered) =
      Some (sample_trace, pin_idle 1000, [Finished (Inr ()), Finished (Inr ())])"
    by (simp add: sample_schedule_def sample_trace_def pin_fresh_def networkVerifyTTL_def numeral_2_eq_2)
  show "pin_run (Some 1) (\<lambda>r. r = Inr (Some 1)) 0 2 [] (pin_idle 0) (replicate 2 Entered)" by (rule pin_start)
  show "list_all (pin_allowed (\<lambda>r. r = Inr (Some 1)) \<circ> snd) sample_schedule" by (simp add: sample_schedule_def)
qed

text \<open>
  C10. The network pin under concurrency. In every interleaving of any number of requests on one verifier, whatever the clock shows and the node
  replies, at most one request is inside the critical section; a request passes only if, at its own reading of the clock, it saw a confirmation
  of the past younger than 30 minutes, or if it asked the node itself, was told the network of the source and stored the confirmation; it fails
  only with the verdict on the reply to its own probe; and the node is asked only by a request that found, with the lock held, no confirmation or a stale one. So while
  all clock readings lie within one time-to-live nobody asks the node again after the first stored confirmation.
\<close>

theorem concurrent_network_pinning:
  assumes "pin_run expected answers boot k tr b ths"
  shows "(\<forall>i < k. \<forall>j < k. in_section (ths ! i) \<and> in_section (ths ! j) \<longrightarrow> i = j) \<and>
    (\<forall>i < k. ths ! i = Finished (Inr ()) \<longrightarrow> read_fresh expected boot tr i \<or>
       (\<exists>t. (i, Storing t, NoInput) \<in> set tr \<and> (i, Matched, ClockAt t) \<in> set tr \<and> asked expected tr i)) \<and>
    (\<forall>i < k. \<forall>err. ths ! i = Finished (Inl err) \<longrightarrow>
       (\<exists>n r. expected = Some n \<and> (i, Probing, NodeSays r) \<in> set tr \<and> pin_classify n r = Inl err)) \<and>
    probes_needed boot tr \<and>
    (\<forall>start later j t inp before i inp'. readings_close start tr \<and> tr = later @ (j, Storing t, inp) # before \<longrightarrow>
       (i, Probing, inp') \<notin> set later)"
proof -
  note I = pin_run_inv [OF assms, unfolded pin_inv_def pin_run_length [OF assms]]
  have out: "outcome_ok expected boot tr i r" if "i < k" "ths ! i = Finished r" for i r
    using I that by (metis pin_thread_inv.simps(7))
  have "i = j" if "i < k" "j < k" "in_section (ths ! i)" "in_section (ths ! j)" for i j
    using I that by (metis option.inject)
  moreover have "probes_needed boot tr" using I by blast
  moreover have "(i, Probing, inp') \<notin> set later"
    if "readings_close start tr" "tr = later @ (j, Storing t, inp) # before" for start later j t inp before i inp'
    by (rule single_flight [OF assms that])
  ultimately show ?thesis
    using out [of _ "Inr ()", unfolded outcome_ok.simps] out [of _ "Inl _", unfolded outcome_ok.simps] by blast
qed

theorem concurrent_network_pinning_witness:
  "read_fresh (Some 1) 0 sample_trace 1 \<and> probes_needed 0 sample_trace"
proof -
  have "read_fresh (Some 1) 0 sample_trace 1 \<or>
      (\<exists>t. (1, Storing t, NoInput) \<in> set sample_trace \<and> (1, Matched, ClockAt t) \<in> set sample_trace \<and> asked (Some 1) sample_trace 1)"
    using concurrent_network_pinning [OF sample_pin_run] by (simp add: numeral_2_eq_2 less_Suc_eq)
  moreover have "(1, Storing t, NoInput) \<notin> set sample_trace" for t by (simp add: sample_trace_def)
  moreover have "probes_needed 0 sample_trace" using concurrent_network_pinning [OF sample_pin_run] by blast
  ultimately show ?thesis by blast
qed

text \<open>
  C29. The lock cannot block requests for ever. A run of \<open>k\<close> requests has at most \<open>9 k\<close> actions; as long as a request is pending, some request can
  take its next action; and every run can be completed to one in which each request has its result and the lock is free. The node replies
  something to every probe, be it the error of a timeout.
\<close>

theorem network_pinning_completes:
  assumes "pin_run expected answers boot k tr b ths" and "answers r"
  shows "length tr \<le> 9 * k \<and>
    ((\<exists>i < k. \<forall>r. ths ! i \<noteq> Finished r) \<longrightarrow>
       (\<exists>j inp b' th'. j < k \<and> pin_allowed answers inp \<and> pin_step expected j b (ths ! j) inp = Some (b', th'))) \<and>
    (\<exists>more b' ths'. pin_run expected answers boot k (more @ tr) b' ths' \<and>
       (\<forall>i < k. \<exists>r. ths' ! i = Finished r) \<and> pn_verifyMu b' = None)"
proof -
  have fin: "pin_rank th = 0 \<longleftrightarrow> (\<exists>r. th = Finished r)" for th by (cases th) auto
  obtain more b' ths' where run: "pin_run expected answers boot k (more @ tr) b' ths'"
    and all: "\<forall>i < k. pin_rank (ths' ! i) = 0" using pin_completes [OF assms] by blast
  then have "\<not> in_section (ths' ! i)" if "i < k" for i using that by (metis fin in_section.simps(4))
  with pin_run_inv [OF run, unfolded pin_inv_def pin_run_length [OF run]] have "pn_verifyMu b' = None"
    by (metis not_None_eq)
  with pin_run_bounded [OF assms(1)] pin_progress [OF assms(1) _ _ assms(2)] run all show ?thesis
    unfolding fin by (metis add_leD1 fin)
qed

theorem network_pinning_completes_witness:
  "\<exists>more b' ths'. pin_run (Some 1) (\<lambda>r. r = Inr (Some 1)) 0 3 more b' ths' \<and> (\<forall>i < 3. \<exists>r. ths' ! i = Finished r) \<and>
     pn_verifyMu b' = None \<and> length more \<le> 27"
proof -
  let ?run = "pin_run (Some 1) (\<lambda>r. r = Inr (Some 1)) 0 3"
  obtain more b' ths' where m: "?run more b' ths'" "\<forall>i < 3. \<exists>r. ths' ! i = Finished r" "pn_verifyMu b' = None"
    using network_pinning_completes [OF pin_start [of "Some 1" "\<lambda>r. r = Inr (Some 1)" 0 3] refl] by auto
  from network_pinning_completes [OF m(1) refl] m show ?thesis by auto
qed

end
