(* ===== verification/Spec2Isabelle.thy ===== *)
theory Spec2Isabelle
  imports Server Instruction_Ids Network_Pinning
begin

text \<open>
  \<^bold>\<open>go-verifier-api: a verification library\<close>

  The program is the verifier service of the Flare Data Connector. A deployment serves one source (\<open>TEE\<close>, \<open>XRP\<close> or \<open>testXRP\<close>) for one destination chain and
  answers, for each attestation type of that source, whether a claim about the outside world holds: that a trusted
  execution environment is alive and attested, that a payment was made, what fees a batch of payments cost, that an account is under the control of a set of keys.
  A wrong \<open>VERIFIED\<close> is signed by others and used on chain, so most properties say what such an answer guarantees.

  \<^bold>\<open>Parts and theories\<close> (paths below \<open>src/internal\<close>), in the order a request meets them:

    \<^item> \<open>Server\<close> models \<open>api/server.go\<close> and \<open>cmd/main.go\<close>: environment, API keys, middleware, the routing table, start and stop.
    \<^item> \<open>Services\<close> models \<open>api/loader.go\<close>, the \<open>service.go\<close> files and the registries under \<open>verifier/\<close>: building every service of a
      deployment, and rolling back. \<open>Database\<close> models \<open>attestation/pmwpaymentstatus/db/db.go\<close>.
    \<^item> \<open>Config\<close> models \<open>config/\<close>: validation of the environment, URL slugs, the configurations that are loaded once.
    \<^item> \<open>Handler\<close> models \<open>api/handler/\<close> and \<open>api/types/common.go\<close>: the three endpoints, the two error classifications, routes. \<open>Endpoints\<close> has the
      request and response conversions of \<open>api/types/\<close> and joins handlers and verifiers.
    \<^item> \<open>Payment_Status\<close> and \<open>Fee_Proof\<close> model \<open>attestation/pmwpaymentstatus/xrp\<close> and \<open>attestation/pmwfeeproof/xrp\<close>, on top of \<open>Indexer\<close> (both \<open>db/\<close>
      packages), \<open>Instruction\<close> (instruction ids and events) and \<open>Drops\<close> (\<open>helper/\<close>); \<open>Instruction_Ids\<close> has the property of the ids.
    \<^item> \<open>Nonce_Binder\<close> models \<open>attestation/pmwnonce/binder.go\<close>: the on-chain sequence of a payment and its bounded cache.
    \<^item> \<open>Multisig\<close> models \<open>attestation/pmwmultisigconfigured\<close>: request checks, the pinned network, the signer list; \<open>Network_Pinning\<close> the lock
      of the network check action by action, with any number of requests at once.
    \<^item> \<open>Tee_Verifier\<close> models \<open>verifier.go\<close> and \<open>claims.go\<close> of \<open>attestation/teeavailabilitycheck/verifier\<close>, \<open>Crl_Cache\<close>, \<open>Url_Validation\<close> and \<open>Fetcher\<close> the files of these names;
      \<open>Tee_Soundness\<close> and \<open>Tee_Properties\<close> hold the theorems, \<open>X509\<close> the certificate interface.
    \<^item> \<open>Swagger_Docs\<close> models \<open>api/docs\<close>: the embedded page, its routes and \<open>init-swagger.js\<close>.
    \<^item> \<open>Prelude\<close> (results, state-and-result functions, invariant rules), \<open>Go_Errors\<close> (wrapped errors, \<open>errors.Is\<close>, \<open>errors.As\<close>) and \<open>Go_Strings\<close> (the part of the standard
      library on strings and numbers) are shared; \<open>Sample_Lib\<close> has concrete library functions for the witnesses.

  \<^bold>\<open>How the code is modelled.\<close> A Go function that returns \<open>(T, error)\<close> is a \<open>result\<close>, and with state an \<open>io\<close>, a function from a state to a result and a state.
  A struct is a record, a nullable \<open>*big.Int\<close> an optional integer, \<open>uint64\<close> and the address types are words, so that wrap-around is the machine's. An error is the tree
  of the errors it wraps, with the sentinels of each package as leaves; its text is left out. Code outside the repository (gorm and the databases, the Flare and XRPL nodes, DNS,
  HTTP, X.509 parsing, tokens, ABI packing, hashing, JSON decoding, chi and huma) is a parameter: a function, or a record of functions such as \<open>tee_lib\<close>, \<open>net_lib\<close>, \<open>tee_ext\<close>, \<open>chi_lib\<close>.
  What is relied on is a named hypothesis (\<open>hex_ok\<close>, \<open>pack_injective\<close>, \<open>caller_reads\<close>, \<open>chi_ok\<close>, \<open>pools_ok\<close>, \<open>fetch_libs_ok\<close>, and \<open>..._foreign\<close>: a library does not return this program's sentinels), and every
  property with such a hypothesis has a witness with concrete functions.

  \<^bold>\<open>Interfaces.\<close> Where a part relies on another, the contract is a locale, interpreted on the model:

    \<^item> \<open>lru_cache\<close>: what a bounded cache promises; interpreted on the binder's list and map.
    \<^item> \<open>sequence_verifier\<close>: an accepted sequence is the on-chain one, and the state stays coherent; interpreted on \<open>VerifySequence\<close>, used by both payment verifiers.
    \<^item> \<open>revocation_source\<close>: the lists handed out are vouched for by their issuers; interpreted on the CRL cache, used by the TEE verifier.
    \<^item> \<open>attestation_verifier\<close>: a verifier keeps its state's invariant, answers within its specification and builds well-tagged errors; interpreted on all four verifiers,
      used for the endpoints.
    \<^item> \<open>resource_owner\<close>: a failed start holds nothing and stopping gives back what is held; interpreted on the services and on \<open>LoadModule\<close>, used for the life of the server.

  \<^bold>\<open>What is shown\<close>, by group of properties:

    \<^item> \<^emph>\<open>What an answer guarantees\<close>: \<open>payment_status_exact\<close>, \<open>fee_proof_sound\<close>, \<open>multisig_attestation_sound\<close>, \<open>tee_attestation_sound\<close>, and, along any sequence of
      requests served, \<open>payment_endpoint_sound\<close> and \<open>tee_endpoint_sound\<close>; through the whole server, \<open>served_verdict_sound\<close>.
    \<^item> \<^emph>\<open>The binding of payments\<close>: \<open>verify_sequence_exact\<close>, \<open>concurrent_binding\<close> (every interleaving of requests), \<open>binder_refines_lru\<close>, \<open>instruction_ids_distinct\<close>.
    \<^item> \<^emph>\<open>The pinned network\<close>: \<open>concurrent_network_pinning\<close> and \<open>network_pinning_completes\<close>, for every interleaving; \<open>solo_refines\<close> shows that a request alone
      does what the sequential model does.
    \<^item> \<^emph>\<open>Outbound requests\<close>: \<open>address_filter_exact\<close>, \<open>accepted_url_is_safe\<close>, \<open>crl_chain_before_network\<close>, \<open>fetch_exact\<close>, \<open>retry_exact\<close>.
    \<^item> \<^emph>\<open>Revocation\<close>: \<open>crl_cache_invariant\<close>, \<open>crl_answer_verified\<close>, \<open>crl_retry_exact\<close>, \<open>tee_outage_retries\<close>.
    \<^item> \<^emph>\<open>Errors\<close>: \<open>classifiers_agree\<close>, \<open>verify_envelope_exact\<close>, \<open>fetch_error_state_exact\<close>.
    \<^item> \<^emph>\<open>The process\<close>: \<open>operations_require_key\<close>, \<open>api_key_exact\<close>, \<open>load_module_no_leak\<close>, \<open>init_connects\<close>, \<open>dsn_timeouts\<close>, \<open>tee_config_sound\<close>, \<open>relay_cutover_exact\<close>,
      \<open>docs_page_works\<close>.
    \<^item> \<^emph>\<open>Bounds and loops\<close>: \<open>batch_range_exact\<close>, \<open>fee_sums_fit_uint256\<close>, \<open>reissue_scan_complete\<close>, \<open>network_id_roundtrip\<close>, \<open>signer_list_exact\<close>, \<open>payment_response_content\<close>,
      \<open>received_amount_reference\<close>.

  The last section of this theory follows a request from the wire through router, authentication, size limit and handler to the TEE verifier. \<open>registerVerifier\<close> records the operation
  ids that a service registers; that the handler behind the id of \<open>verify\<close> is the one over the TEE verifier is a hypothesis there.

  \<^bold>\<open>Termination and bounds.\<close> Every loop of the model is total: most are structural, the reissue scan runs on the 64-bit reissue number under its cap of 32, retries count down
  their attempts. No definition has fuel. The caps are the code's: 100000 cached nonces, 100 revocation lists, 200 payments in a batch, a request body of one megabyte.

  \<^bold>\<open>Concurrency.\<close> The nonce binder is checked under every interleaving of its locked sections, the network pin under every interleaving of its atomic
  actions, the CRL cache under any order of its writes. \<open>VerifySequence_steps\<close>, \<open>solo_refines\<close> and \<open>getOrFetchCRL_reachable\<close> show that the sequential functions are runs of
  these steps. Goroutines that
  one request joins before it answers (the two checks of the TEE verifier, the two revocation lists, the two policy hashes) run one after the other here, with the precedence of errors of the code.

  \<^bold>\<open>Not modelled.\<close> Log lines and error texts, including the redaction of connection strings in them, decide nothing. The API description of \<open>newAPI\<close> is metadata. The Swagger UI bundle is vendored and minified,
  its style sheet static. Time is modelled where the code reads it (deadlines are arguments of a verifier, waits are recorded); that
  a deadline interrupts a pending call is the behaviour of the libraries that take the context. The helpers of the test suites are not part of the program.
\<close>


section \<open>From the wire to the attestation\<close>

text \<open>
  What huma does around the handler of the \<open>verify\<close> operation: \<open>parse\<close> reads, decodes and validates the body or yields the reply
  for a bad one, \<open>render\<close> encodes an envelope. \<open>exchange\<close> is the handler itself, in the state the request finds.
\<close>

definition verify_handler ::
  "(bytes result \<Rightarrow> bytes Handler.http_reply + AttestationRequest) \<Rightarrow> (VerifierResponse \<Rightarrow> bytes) \<Rightarrow>
   (AttestationRequest \<Rightarrow> VerifierResponse Handler.http_reply) \<Rightarrow> http_handler" where
  "verify_handler parse render exchange r h =
     (h, OpReply (case parse (rq_Body r) of
        Inl bad \<Rightarrow> bad
      | Inr req \<Rightarrow>
          (case exchange req of
             HTTP_OK answer \<Rightarrow> HTTP_OK (render answer)
           | HTTP_Error code message \<Rightarrow> HTTP_Error code message
           | HTTP_Panic \<Rightarrow> HTTP_Panic)))"

text \<open>
  A bad body, an unreadable one in particular, is never answered with success. A client reads back from a rendered envelope which of the three
  statuses it has.
\<close>

definition statuses :: "string list" where
  "statuses = [StatusVerified, StatusRetry, StatusRejected]"

definition huma_ok ::
  "(bytes result \<Rightarrow> bytes Handler.http_reply + AttestationRequest) \<Rightarrow> (VerifierResponse \<Rightarrow> bytes) \<Rightarrow> (bytes \<Rightarrow> string) \<Rightarrow> bool" where
  "huma_ok parse render status_of \<longleftrightarrow>
     (\<forall>e. \<exists>bad. parse (Inl e) = Inl bad) \<and> (\<forall>b bad. parse b = Inl bad \<longrightarrow> (\<forall>a. bad \<noteq> HTTP_OK a)) \<and>
     (\<forall>a. vr_Status a \<in> set statuses \<longrightarrow> status_of (render a) = vr_Status a)"

lemma verify_op_status:
  assumes "verify_op lib m cfg v req w = (HTTP_OK answer, w')"
  shows "vr_Status answer \<in> set statuses"
proof -
  have range: "s = StatusRetry \<or> s = StatusRejected" if "classifyVerifyStatus e = (s, msg)" for e s msg
    using classifyVerifyStatus_range(1) [of e] that by simp
  show ?thesis
    using assms unfolding verify_op_def
    by (auto simp: statuses_def rejectedResponse_def retryResponse_def split: sum.splits prod.splits option.splits dest: range)
qed

lemma verify_handler_ok:
  assumes "huma_ok parse render status_of" and "snd (verify_handler parse render exchange r h) = OpReply (HTTP_OK wire)"
  shows "\<exists>body req answer. rq_Body r = Inr body \<and> parse (Inr body) = Inr req \<and> exchange req = HTTP_OK answer \<and> wire = render answer"
proof -
  from assms have "\<exists>req answer. parse (rq_Body r) = Inr req \<and> exchange req = HTTP_OK answer \<and> wire = render answer"
    by (auto simp: verify_handler_def huma_ok_def split: sum.splits Handler.http_reply.splits)
  moreover from assms(1) have "parse (Inl e) \<noteq> Inr req" for e req by (metis huma_ok_def Inl_Inr_False)
  ultimately show ?thesis by (cases "rq_Body r") auto
qed

text \<open>
  C5. A verdict on the wire is backed by the TEE. When a running deployment answers a POST to the \<open>verify\<close> path of the availability check with a body in which a client
  reads the status \<open>VERIFIED\<close>, the request carried a configured API key and a readable body of at most one megabyte, it was addressed to this attestation type and source, and the
  encoded response in the envelope satisfies everything the specification of the availability check demands for the decoded request: fetched from a safe
  address, bound to the challenge, signed, attested with checked revocation, and in line with the Relay.
\<close>

theorem served_verdict_sound:
  assumes "StartServer chi files serveOp sv env w = (Inr (srv, closers), w')" and "boot_caches w = (None, None, None, None)"
    and "chi_ok chi" and "huma_ok parse render status_of" and "inj_on (att_name (sv_config sv)) (set (ServedAttestationTypes env))"
    and "AvailabilityCheck \<in> set (ServedAttestationTypes env)" and "SourceURLSlug (env_SourceID env) (env_SourceURLSlug env) = Inr slug"
    and "hex_ok lib" and "tee_env crl gl ext nl hl v c"
    and "serveOp (getVerifierOperationID (sv_config sv) (env_SourceID env) (env_DestinationChainURLSlug env) AvailabilityCheck ''verify'') =
      verify_handler parse render (\<lambda>req. fst (verify_op lib m cfg (\<lambda>_. Tee_Verify ext nl hl pause v) req c))"
    and "rq_Method r = ''POST''"
    and "rq_Path r = getVerifierAPIPath (sv_config sv) slug (env_DestinationChainURLSlug env) AvailabilityCheck ''verify''"
    and "snd (srv_Handler srv r h) = OpReply (HTTP_OK wire)" and "status_of wire = StatusVerified"
  shows "rq_APIKey r \<in> set (env_APIKeys env) \<and>
    (\<exists>answer body req data resp. wire = render answer \<and> rq_Body r = Inr body \<and> length body \<le> 1048576 \<and> parse (Inr body) = Inr req \<and> addressed cfg req \<and>
       structs_Decode m (enc_Request cfg) (aq_RequestBody req) = Inr data \<and>
       structs_EncodeResponse m (enc_Response cfg) resp = Inr (vr_ResponseBody answer) \<and>
       tee_spec ext nl hl (tv_Cfg v) (tv_RelayCaller v) (chain_checked crl gl) (FormatProxyURL v (tq_Url data)) (cc_world c) data resp
         (cc_world (snd (verify_op lib m cfg (\<lambda>_. Tee_Verify ext nl hl pause v) req c))))"
proof -
  let ?secured = "h(''X-Frame-Options'' \<mapsto> ''DENY'', ''X-Content-Type-Options'' \<mapsto> ''nosniff'')"
  let ?r = "r\<lparr>rq_Body := http_MaxBytesReader (rq_Body r) 1048576\<rparr>"
  let ?exchange = "\<lambda>req. fst (verify_op lib m cfg (\<lambda>_. Tee_Verify ext nl hl pause v) req c)"
  let ?reply = "verify_handler parse render ?exchange ?r ?secured"
  have "''verify'' \<in> set endpoints" by (simp add: endpoints_def)
  from operation_reply [OF assms(1-3,5,6) this assms(7,11,12) refl refl, where h = h] assms(10)
  have reply: "rq_APIKey r \<notin> set (env_APIKeys env) \<longrightarrow> snd (srv_Handler srv r h) = OpReply (HTTP_Error 401 ''Unauthorized'')"
    "rq_APIKey r \<in> set (env_APIKeys env) \<and> snd ?reply \<noteq> OpReply HTTP_Panic \<longrightarrow> srv_Handler srv r h = ?reply"
    "rq_APIKey r \<in> set (env_APIKeys env) \<and> snd ?reply = OpReply HTTP_Panic \<longrightarrow> snd (srv_Handler srv r h) = OpReply (HTTP_Error 500 '''')"
    by auto
  from reply(1) assms(13) have key: "rq_APIKey r \<in> set (env_APIKeys env)" by auto
  with reply(2,3) assms(13) have "snd ?reply = OpReply (HTTP_OK wire)" by (cases "snd ?reply = OpReply HTTP_Panic") auto
  from verify_handler_ok [OF assms(4) this] obtain body req answer where b: "http_MaxBytesReader (rq_Body r) 1048576 = Inr body"
    "parse (Inr body) = Inr req" "?exchange req = HTTP_OK answer" "wire = render answer" by auto
  from b(1) have body: "rq_Body r = Inr body" "length body \<le> 1048576"
    by (auto simp: http_MaxBytesReader_def rbind_eq_Inr_iff split: if_splits)
  have v: "verify_op lib m cfg (\<lambda>_. Tee_Verify ext nl hl pause v) req c =
      (HTTP_OK answer, snd (verify_op lib m cfg (\<lambda>_. Tee_Verify ext nl hl pause v) req c))" using b(3) by (simp add: prod_eq_iff)
  from verify_op_status [OF v] assms(4,14) b(4) have "vr_Status answer = StatusVerified" by (simp add: huma_ok_def)
  from tee_api.verified_promise [OF assms(8,9) v this] key body b(2,4) show ?thesis by blast
qed

definition sample_parse :: "bytes result \<Rightarrow> bytes Handler.http_reply + AttestationRequest" where
  "sample_parse b = (case b of Inr [x] \<Rightarrow> Inr sample_http_req | _ \<Rightarrow> Inl (HTTP_Error 422 []))"

definition sample_render :: "VerifierResponse \<Rightarrow> bytes" where
  "sample_render a = [if vr_Status a = StatusVerified then 1 else if vr_Status a = StatusRetry then 2 else 3]"

definition sample_status_of :: "bytes \<Rightarrow> string" where
  "sample_status_of b = (if b = [1] then StatusVerified else if b = [2] then StatusRetry else StatusRejected)"

lemma sample_huma_ok: "huma_ok sample_parse sample_render sample_status_of"
  by (auto simp: huma_ok_def sample_parse_def sample_render_def sample_status_of_def statuses_def status_names
      split: sum.splits list.splits)

definition sample_tee_handler :: "string \<Rightarrow> http_handler" where
  "sample_tee_handler oid = verify_handler sample_parse sample_render (\<lambda>req.
     fst (verify_op sample_lib sample_tee_marshal sample_enc
       (\<lambda>_. Tee_Verify sample_tee_ext sample_net (sample_http (Reply 200 [7] None)) (\<lambda>w. (None, w))
          (Tee_Properties.sample_verifier (sample_crl_env (Reply 200 [7] None)))) req (NewCRLCache ())))"


theorem served_verdict_sound_witness:
  "\<exists>srv closers w'. StartServer sample_chi sample_files sample_tee_handler sample_server_lib sample_server_env sample_fresh_world =
      (Inr (srv, closers), w') \<and>
     snd (srv_Handler srv (sample_request ''0123456789abcdef'') Map.empty) = OpReply (HTTP_OK [1]) \<and>
     (\<exists>resp. tee_spec sample_tee_ext sample_net (sample_http (Reply 200 [7] None)) sample_tee_cfg (\<lambda>_ w. (Inr 11, w))
       (chain_checked (sample_crl_env (Reply 200 [7] None)) sample_token_ok) ''https://tee.example:8443'' () sample_tee_request resp ())"
proof -
  let ?env = "sample_crl_env (Reply 200 [7] None)" and ?hl = "sample_http (Reply 200 [7] None)"
  let ?sv = "Tee_Properties.sample_verifier ?env" and ?r = "sample_request ''0123456789abcdef''"
  let ?exchange = "\<lambda>req. fst (verify_op sample_lib sample_tee_marshal sample_enc
    (\<lambda>_. Tee_Verify sample_tee_ext sample_net ?hl (\<lambda>w. (None, w)) ?sv) req (NewCRLCache ()))"
  obtain srv closers w' where s: "StartServer sample_chi sample_files sample_tee_handler sample_server_lib sample_server_env sample_fresh_world =
      (Inr (srv, closers), w')" using sample_server_starts by blast
  have "accepted sample_tee_marshal sample_enc (\<lambda>_. Tee_Verify sample_tee_ext sample_net ?hl (\<lambda>w. (None, w)) ?sv) sample_http_req
      (NewCRLCache ()) sample_tee_request (teeResponse \<lparr>si_CodeHash = 77, si_Platform = 78, si_Status = OK\<rparr> sample_tee_info) [2] (NewCRLCache ())"
    by (simp add: accepted_def sample_tee_fields sample_tee_run)
  from verify_op_accepted(1) [OF sample_hex_ok this]
  have ex: "?exchange sample_http_req = HTTP_OK \<lparr>vr_Status = StatusVerified, vr_ResponseBody = [2], vr_Message = ''''\<rparr>"
    by (simp add: sample_tee_fields Tee_FromInternal_def)
  have reply: "snd (sample_tee_handler oid (?r\<lparr>rq_Body := http_MaxBytesReader (rq_Body ?r) 1048576\<rparr>) h) = OpReply (HTTP_OK [1])" for oid h
    using ex by (simp add: sample_tee_handler_def verify_handler_def sample_request_def http_MaxBytesReader_def sample_parse_def sample_render_def)
  have tee: "tee_env ?env sample_token_ok sample_tee_ext sample_net ?hl ?sv (NewCRLCache ())"
    using sample_crl_foreign [of "Reply 200 [7] None"]
    by (simp add: tee_env_def sample_cache_inv sample_ext_foreign sample_world_foreign Tee_Properties.sample_verifier_def)
  have e: "''verify'' \<in> set endpoints" by (simp add: endpoints_def)
  note run = operation_reply [where h = Map.empty, OF s sample_deployment(1) sample_chi_ok sample_deployment(2,3) e sample_deployment(4,5,6) refl refl]
  have wire: "snd (srv_Handler srv ?r Map.empty) = OpReply (HTTP_OK [1])"
    by (subst run [THEN conjunct2, THEN conjunct1, rule_format]) (simp_all only: sample_deployment(7) reply, simp_all)
  have "sample_tee_handler oid = verify_handler sample_parse sample_render ?exchange" for oid by (simp add: sample_tee_handler_def)
  from served_verdict_sound [OF s sample_deployment(1) sample_chi_ok sample_huma_ok sample_deployment(2,3,4) sample_hex_ok tee this
      sample_deployment(5,6) wire]
  have "\<exists>resp. tee_spec sample_tee_ext sample_net ?hl (tv_Cfg ?sv) (tv_RelayCaller ?sv) (chain_checked ?env sample_token_ok)
      (FormatProxyURL ?sv (tq_Url sample_tee_request)) () sample_tee_request resp ()"
    by (auto simp: sample_status_of_def sample_tee_fields)
  with s wire show ?thesis
    by (auto simp: Tee_Properties.sample_verifier_def FormatProxyURL_def sample_tee_cfg_def sample_tee_request_def)
qed

end
